(* ===== verification/Prelude.thy ===== *)
theory Prelude
  imports Main "HOL-Library.Char_ord" "HOL-Library.List_Lexorder"
begin

text \<open>
  Shared vocabulary of the development: the Python builtins the scripts under
  \<open>src/src/\<close> lean on, modelled once and reused by every component.
  \<^item> A Python \<open>dict\<close> keeps its keys in insertion order; it is an association
    list whose keys are distinct.  \<open>d[k] = v\<close> is \<open>dict_set\<close> (update in place,
    or append a new key at the end), \<open>d.get(k, default)\<close> is \<open>dict_get_default\<close>.
  \<^item> \<open>itertools.combinations(xs, 2)\<close> is \<open>combinations2\<close>: the index pairs
    \<open>i < j\<close> in lexicographic order.
  \<^item> \<open>str.startswith\<close> and \<open>str.replace\<close> (every non-overlapping occurrence,
    scanned left to right) on strings as character lists.
  \<^item> A JSON object field as \<open>dict.get\<close> sees it: absent, \<open>null\<close>, or a string.
\<close>

named_theorems dict_simps "equations for the dictionary model"
named_theorems comb_simps "equations for itertools.combinations"

section \<open>Dictionaries in insertion order\<close>

type_synonym ('k, 'v) pydict = "('k \<times> 'v) list"

fun dict_set :: "'k \<Rightarrow> 'v \<Rightarrow> ('k, 'v) pydict \<Rightarrow> ('k, 'v) pydict" where
  "dict_set k v [] = [(k, v)]"
| "dict_set k v ((a, b) # ps) = (if a = k then (k, v) # ps else (a, b) # dict_set k v ps)"

definition dict_get_default :: "'v \<Rightarrow> 'k \<Rightarrow> ('k, 'v) pydict \<Rightarrow> 'v" where
  "dict_get_default d k m = (case map_of m k of None \<Rightarrow> d | Some v \<Rightarrow> v)"

text \<open>\<open>d[k] = d.get(k, 0) + 1\<close>, the counting idiom of the scripts.\<close>

definition dict_incr :: "'k \<Rightarrow> ('k, nat) pydict \<Rightarrow> ('k, nat) pydict" where
  "dict_incr k m = dict_set k (Suc (dict_get_default 0 k m)) m"

lemma map_of_dict_set [simp, dict_simps]: "map_of (dict_set k v ps) = (map_of ps)(k \<mapsto> v)"
  by (induction ps) (auto simp: fun_eq_iff)

lemma keys_dict_set [dict_simps]:
  "map fst (dict_set k v ps) = (if k \<in> set (map fst ps) then map fst ps else map fst ps @ [k])"
  by (induction ps) force+

lemma set_keys_dict_set [simp, dict_simps]:
  "fst ` set (dict_set k v ps) = insert k (fst ` set ps)"
  by (induction ps) force+

lemma distinct_dict_set [simp, dict_simps]:
  "distinct (map fst ps) \<Longrightarrow> distinct (map fst (dict_set k v ps))"
  by (induction ps) (auto simp: image_iff)

lemma set_dict_set_cases [dict_simps]:
  "x \<in> set (dict_set k v ps) \<Longrightarrow> x = (k, v) \<or> x \<in> set ps"
  by (induction ps) (auto split: if_splits)

lemma dict_get_default_dict_set [simp, dict_simps]:
  "dict_get_default d x (dict_set k v ps) = (if x = k then v else dict_get_default d x ps)"
  by (simp add: dict_get_default_def)

lemma dict_get_default_Nil [simp, dict_simps]: "dict_get_default d x [] = d"
  by (simp add: dict_get_default_def)

lemma dict_get_default_Cons [simp, dict_simps]:
  "dict_get_default d x ((k, v) # ps) = (if x = k then v else dict_get_default d x ps)"
  by (simp add: dict_get_default_def)

lemma dict_get_default_incr [simp, dict_simps]:
  "dict_get_default 0 x (dict_incr k m) = dict_get_default 0 x m + (if x = k then 1 else 0)"
  by (simp add: dict_incr_def)

lemma keys_dict_incr [simp, dict_simps]: "fst ` set (dict_incr k m) = insert k (fst ` set m)"
  by (simp add: dict_incr_def)

lemma distinct_dict_incr [simp, dict_simps]:
  "distinct (map fst m) \<Longrightarrow> distinct (map fst (dict_incr k m))"
  by (simp add: dict_incr_def)

lemma map_of_Some_key: "map_of m k = Some v \<Longrightarrow> k \<in> fst ` set m"
  by (auto dest: map_of_SomeD intro: rev_image_eqI)

lemma dict_get_default_notin [dict_simps]:
  assumes "x \<notin> fst ` set m"
  shows "dict_get_default d x m = d"
proof -
  from assms have "map_of m x = None" by (simp add: map_of_eq_None_iff)
  then show ?thesis by (simp add: dict_get_default_def)
qed

lemma dict_rebuild:
  "distinct (map fst d) \<Longrightarrow> map (\<lambda>c. (c, dict_get_default v c d)) (map fst d) = d"
proof (induction d)
  case Nil
  then show ?case by simp
next
  case (Cons p d)
  obtain k w where p: "p = (k, w)" by (cases p)
  have IH: "map (\<lambda>c. (c, dict_get_default v c d)) (map fst d) = d" using Cons p by simp
  have "map (\<lambda>c. (c, dict_get_default v c ((k, w) # d))) (map fst d) = map (\<lambda>c. (c, dict_get_default v c d)) (map fst d)"
    by (rule map_cong) (use Cons.prems p in auto)
  then show ?case using IH p by (simp del: map_map)
qed

section \<open>itertools.combinations(xs, 2)\<close>

fun combinations2 :: "'a list \<Rightarrow> ('a \<times> 'a) list" where
  "combinations2 [] = []"
| "combinations2 (x # xs) = map (\<lambda>y. (x, y)) xs @ combinations2 xs"

text \<open>How often the unordered pair \<open>{u, v}\<close> occurs among the pairs.\<close>

definition pair_count :: "'a list \<Rightarrow> 'a \<Rightarrow> 'a \<Rightarrow> nat" where
  "pair_count xs u v = length (filter (\<lambda>(a, b). {a, b} = {u, v}) (combinations2 xs))"

lemma combinations2_filter [comb_simps]:
  "combinations2 (filter P xs) = filter (\<lambda>(a, b). P a \<and> P b) (combinations2 xs)"
  by (induction xs) (auto simp: filter_map o_def)

lemma combinations2_map [comb_simps]:
  "combinations2 (map f xs) = map (\<lambda>(a, b). (f a, f b)) (combinations2 xs)"
  by (induction xs) auto

lemma set_combinations2 [comb_simps]:
  "(a, b) \<in> set (combinations2 xs) \<Longrightarrow> a \<in> set xs \<and> b \<in> set xs"
  by (induction xs) auto

lemma length_combinations2 [comb_simps]:
  "length (combinations2 xs) = length xs * (length xs - 1) div 2"
proof (induction xs)
  case Nil
  then show ?case by simp
next
  case (Cons x xs)
  have "length xs + length xs * (length xs - 1) div 2
        = (2 * length xs + length xs * (length xs - 1)) div 2" by simp
  also have "2 * length xs + length xs * (length xs - 1) = Suc (length xs) * length xs"
    by (cases "length xs") auto
  finally show ?case using Cons by simp
qed

lemma pair_count_Cons [comb_simps]:
  "pair_count (x # xs) u v = count_list (map (\<lambda>y. {x, y}) xs) {u, v} + pair_count xs u v"
proof -
  have "length (filter (\<lambda>(a, b). {a, b} = {u, v}) (map (Pair x) xs))
        = count_list (map (\<lambda>y. {x, y}) xs) {u, v}"
    by (induction xs) auto
  then show ?thesis by (simp add: pair_count_def)
qed

lemma pair_count_Nil [simp, comb_simps]: "pair_count [] u v = 0"
  by (simp add: pair_count_def)

text \<open>On a list without repetitions each unordered pair of distinct members occurs once.\<close>

lemma pair_count_distinct [comb_simps]:
  "distinct xs \<Longrightarrow> u \<noteq> v \<Longrightarrow> pair_count xs u v = (if u \<in> set xs \<and> v \<in> set xs then 1 else 0)"
proof (induction xs)
  case Nil
  then show ?case by simp
next
  case (Cons x xs)
  have cnt: "count_list (map (\<lambda>y. {x, y}) xs) {u, v}
             = (if (x = u \<and> v \<in> set xs) \<or> (x = v \<and> u \<in> set xs) then 1 else 0)"
    using Cons.prems by (induction xs) (auto simp: doubleton_eq_iff)
  show ?case using Cons by (auto simp: pair_count_Cons cnt)
qed

text \<open>Summed over publications with duplicate-free author lists: the number listing both.\<close>

lemma sum_pair_count_distinct [comb_simps]:
  "list_all (\<lambda>r. distinct (f r)) rs \<Longrightarrow> u \<noteq> v \<Longrightarrow>
     sum_list (map (\<lambda>r. pair_count (f r) u v) rs) = length (filter (\<lambda>r. u \<in> set (f r) \<and> v \<in> set (f r)) rs)"
  by (induction rs) (simp_all add: pair_count_distinct)

text \<open>A pair of equal ids occurs exactly when the id is listed at least twice.\<close>

lemma pair_count_self_pos [comb_simps]: "0 < pair_count xs k k \<longleftrightarrow> 2 \<le> count_list xs k"
proof (induction xs)
  case Nil
  then show ?case by simp
next
  case (Cons x xs)
  have "count_list (map (\<lambda>y. {x, y}) xs) {k, k} = (if x = k then count_list xs k else 0)"
    by (induction xs) auto
  with Cons show ?case by (auto simp: pair_count_Cons)
qed

text \<open>The keys of a dictionary filled from a list, in the order first seen.\<close>

definition first_seen :: "'a list \<Rightarrow> 'a list" where
  "first_seen xs = rev (remdups (rev xs))"

lemma first_seen_snoc [simp]:
  "first_seen (xs @ [x]) = (if x \<in> set xs then first_seen xs else first_seen xs @ [x])"
  by (simp add: first_seen_def)

lemma set_first_seen [simp]: "set (first_seen xs) = set xs"
  by (simp add: first_seen_def)

lemma distinct_first_seen [simp]: "distinct (first_seen xs)"
  by (simp add: first_seen_def)

lemma first_seen_distinct [simp]: "distinct xs \<Longrightarrow> first_seen xs = xs"
  by (simp add: first_seen_def distinct_remdups_id)

lemma first_seen_Nil [simp]: "first_seen [] = []"
  by (simp add: first_seen_def)

lemma first_seen_first_seen_append: "first_seen (first_seen xs @ ys) = first_seen (xs @ ys)"
proof (induction ys rule: rev_induct)
  case Nil
  then show ?case by simp
next
  case (snoc y ys)
  then show ?case by (simp only: append_assoc [symmetric] first_seen_snoc) simp
qed

lemma find_append_split: "find P (xs @ ys) = (case find P xs of None \<Rightarrow> find P ys | Some x \<Rightarrow> Some x)"
  by (induction xs) auto

lemma map_filter_append_split [simp]:
  "List.map_filter f (xs @ ys) = List.map_filter f xs @ List.map_filter f ys"
  by (induction xs) (auto split: option.splits)

lemma set_map_filter_iff [simp]: "y \<in> set (List.map_filter f xs) \<longleftrightarrow> (\<exists>x \<in> set xs. f x = Some y)"
  by (induction xs) (auto split: option.splits)

text \<open>Pairs of the ids of a list of entries, some of which have no id.\<close>

lemma combinations2_map_filter [comb_simps]:
  "combinations2 (List.map_filter f xs)
     = List.map_filter (\<lambda>(a, b). case f a of None \<Rightarrow> None
                         | Some x \<Rightarrow> (case f b of None \<Rightarrow> None | Some y \<Rightarrow> Some (x, y)))
                       (combinations2 xs)"
proof (induction xs)
  case Nil
  then show ?case by simp
next
  case (Cons x xs)
  let ?F = "\<lambda>(a, b). case f a of None \<Rightarrow> None
              | Some x \<Rightarrow> (case f b of None \<Rightarrow> None | Some y \<Rightarrow> Some (x, y))"
  have h: "List.map_filter ?F (map (Pair x) xs)
           = (case f x of None \<Rightarrow> [] | Some y \<Rightarrow> map (Pair y) (List.map_filter f xs))"
    by (induction xs) (auto split: option.splits)
  show ?case by (simp add: Cons.IH h split: option.splits)
qed

lemma length_filter_map_filter:
  "length (filter P (List.map_filter g xs))
     = length (filter (\<lambda>x. case g x of Some y \<Rightarrow> P y | None \<Rightarrow> False) xs)"
  by (induction xs) (auto simp: split: option.splits)

text \<open>\<open>tuple(sorted([a, b]))\<close>: the key of an unordered pair.\<close>

lemma sorted_pair_eq: "((min a b, max a b) = (min u v, max u v)) \<longleftrightarrow> {a, b} = {u::'a::linorder, v}"
  by (auto simp: min_def max_def doubleton_eq_iff)

section \<open>Strings\<close>

definition startswith :: "string \<Rightarrow> string \<Rightarrow> bool" where
  "startswith s p = (take (length p) s = p)"

text \<open>
  \<open>s.replace(old, new)\<close>: every non-overlapping occurrence of \<open>old\<close>, found left to
  right, is replaced; an empty \<open>old\<close> inserts \<open>new\<close> around every character.
\<close>

function py_replace :: "string \<Rightarrow> string \<Rightarrow> string \<Rightarrow> string" where
  "py_replace old new s =
     (if old = [] then new @ concat (map (\<lambda>c. c # new) s)
      else case s of
        [] \<Rightarrow> []
      | c # cs \<Rightarrow> (if startswith s old then new @ py_replace old new (drop (length old) s)
                   else c # py_replace old new cs))"
  by pat_completeness auto
termination
  by (relation "measure (\<lambda>(old, new, s). length s)") auto

declare py_replace.simps [simp del]

lemma py_replace_Nil [simp]: "old \<noteq> [] \<Longrightarrow> py_replace old new [] = []"
  by (simp add: py_replace.simps)

lemma py_replace_Cons:
  "old \<noteq> [] \<Longrightarrow> py_replace old new (c # cs) =
     (if startswith (c # cs) old then new @ py_replace old new (drop (length old) (c # cs))
      else c # py_replace old new cs)"
  by (simp add: py_replace.simps)

text \<open>Replacing a one-character string by a string without that character removes it.\<close>

lemma py_replace_single_notin:
  "ch \<notin> set new \<Longrightarrow> ch \<notin> set (py_replace [ch] new s)"
proof (induction s)
  case Nil
  then show ?case by simp
next
  case (Cons c cs)
  then show ?case by (auto simp: py_replace_Cons startswith_def)
qed

lemma startswith_short: "length s < length p \<Longrightarrow> \<not> startswith s p"
  by (auto simp: startswith_def dest: arg_cong [where f = length])

lemma py_replace_prefix:
  "old \<noteq> [] \<Longrightarrow> py_replace old new (old @ s) = new @ py_replace old new s"
  by (cases old) (simp_all add: py_replace_Cons startswith_def)

lemma py_replace_absent:
  "old \<noteq> [] \<Longrightarrow> \<forall>i. \<not> startswith (drop i s) old \<Longrightarrow> py_replace old new s = s"
proof (induction s)
  case Nil
  then show ?case by simp
next
  case (Cons c cs)
  have "\<not> startswith (c # cs) old" using Cons.prems(2) by (metis drop0)
  moreover have "\<forall>i. \<not> startswith (drop i cs) old"
    using Cons.prems(2) by (metis drop_Suc_Cons)
  ultimately show ?case using Cons by (simp add: py_replace_Cons)
qed

section \<open>Python exceptions\<close>

text \<open>The exceptions the scripts raise and do not catch where they arise.\<close>

datatype py_exception = AttributeError | TypeError | ValueError | JSONDecodeError | ZeroDivisionError
  | FileNotFoundError | KeyError | RequestException

section \<open>JSON object fields\<close>

text \<open>
  A field of a parsed JSON object as \<open>obj.get(key)\<close> sees it: the key is absent,
  present with \<open>null\<close>, or present with a string.
\<close>

datatype jfield = Absent | Null | Str string

text \<open>\<open>obj.get(key)\<close>: Python's \<open>None\<close> is \<open>None\<close>.\<close>

fun py_get :: "jfield \<Rightarrow> string option" where
  "py_get Absent = None"
| "py_get Null = None"
| "py_get (Str s) = Some s"

text \<open>\<open>obj.get(key, default)\<close>: the default only when the key is absent.\<close>

fun py_get_or :: "string \<Rightarrow> jfield \<Rightarrow> string option" where
  "py_get_or d Absent = Some d"
| "py_get_or d Null = None"
| "py_get_or d (Str s) = Some s"

text \<open>The truthiness test \<open>if x:\<close> on a value that is \<open>None\<close> or a string.\<close>

fun py_truthy :: "string option \<Rightarrow> bool" where
  "py_truthy None = False"
| "py_truthy (Some s) = (s \<noteq> [])"

end
