(* ===== verification/Records.thy ===== *)
theory Records
  imports Prelude
begin

text \<open>
  The flattened publication record: the row that \<open>process_work\<close>
  (\<open>src/src/collect_publications_open_alex.py\<close>) writes to the CSV file and that the
  three graph builders read back.  Its columns \<open>authorships\<close> and \<open>subfield\<close> are
  JSON texts; a column is modelled by the result of \<open>json.loads\<close> on it, \<open>None\<close>
  when the text does not parse.  An author entry and the subfield object have the
  keys \<open>process_work\<close> gives them; each key may be absent or \<open>null\<close>
  (\<open>jfield\<close>).  The scalar columns are values or missing (\<open>None\<close>, NaN in
  pandas); \<open>cited_by_count\<close> is written by the variant of \<open>process_work\<close> that
  selects it and read by the citation filter.
\<close>

text \<open>A subfield key as the scripts use it: a string, or \<open>None\<close> for a \<open>null\<close> name.\<close>

type_synonym cat = "string option"

record institution =
  inst_id :: jfield
  inst_display_name :: jfield

record authorship =
  au_id :: jfield
  au_name :: jfield
  au_institutions :: "institution list"
  au_countries :: "string list"

record subfield_obj =
  sf_id :: jfield
  sf_display_name :: jfield

record pub_row =
  row_id :: "string option"
  row_doi :: "string option"
  row_title :: "string option"
  row_publication_year :: "int option"
  row_authorships :: "authorship list option"
  row_subfield :: "subfield_obj option"
  row_cited_by_count :: "int option"

text \<open>
  \<open>a_id = author.get("id"); if not a_id: continue\<close>: the author is a graph node
  exactly when its id is a non-empty string.
\<close>

definition author_key :: "authorship \<Rightarrow> string option" where
  "author_key a = (case py_get (au_id a) of None \<Rightarrow> None
                   | Some s \<Rightarrow> (if s = [] then None else Some s))"

text \<open>The node ids a row contributes, in the order of its author list (repetitions kept).\<close>

definition row_ids :: "pub_row \<Rightarrow> string list" where
  "row_ids r = (case row_authorships r of None \<Rightarrow> [] | Some as \<Rightarrow> List.map_filter author_key as)"

text \<open>The author entries of a row whose authorships parse; none otherwise.\<close>

definition row_authors :: "pub_row \<Rightarrow> authorship list" where
  "row_authors r = (case row_authorships r of None \<Rightarrow> [] | Some as \<Rightarrow> as)"

text \<open>Sample data for the concrete runs below: an author with an id and a name, a row.\<close>

definition sample_author :: "string \<Rightarrow> authorship" where
  "sample_author k = \<lparr>au_id = Str k, au_name = Str k, au_institutions = [], au_countries = []\<rparr>"

definition sample_row :: "string \<Rightarrow> string list \<Rightarrow> string \<Rightarrow> pub_row" where
  "sample_row i ks sd = \<lparr>row_id = Some i, row_doi = None, row_title = None,
     row_publication_year = None, row_authorships = Some (map sample_author ks),
     row_subfield = Some \<lparr>sf_id = Str sd, sf_display_name = Str sd\<rparr>, row_cited_by_count = None\<rparr>"

lemma author_key_Some: "author_key a = Some k \<longleftrightarrow> au_id a = Str k \<and> k \<noteq> []"
  by (cases "au_id a") (auto simp: author_key_def)

lemma map_filter_Cons_key:
  "List.map_filter author_key (a # as)
     = (case author_key a of None \<Rightarrow> [] | Some k \<Rightarrow> [k]) @ List.map_filter author_key as"
  by (simp split: option.splits)

lemma row_ids_Some [simp]: "row_authorships r = Some as \<Longrightarrow> row_ids r = List.map_filter author_key as"
  by (simp add: row_ids_def)

lemma author_key_sample [simp]: "author_key (sample_author k) = (if k = [] then None else Some k)"
  by (simp add: author_key_def sample_author_def)

lemma row_ids_row_authors: "row_ids r = List.map_filter author_key (row_authors r)"
  by (simp add: row_ids_def row_authors_def split: option.splits)

lemma row_authors_Some [simp]: "row_authorships r = Some as \<Longrightarrow> row_authors r = as"
  by (simp add: row_authors_def)

lemma row_authors_None [simp]: "row_authorships r = None \<Longrightarrow> row_authors r = []"
  by (simp add: row_authors_def)

lemma row_ids_None [simp]: "row_authorships r = None \<Longrightarrow> row_ids r = []"
  by (simp add: row_ids_def)

end
