(* ===== verification/Graph.thy ===== *)
theory Graph
  imports Prelude
begin

text \<open>
  The part of \<open>networkx.Graph\<close> the builders use: an undirected graph whose nodes
  carry an attribute record, kept in insertion order, and whose edges carry a
  \<open>weight\<close>.  An edge is stored once, under the endpoint order of its first
  insertion; \<open>G[a][b]\<close> and \<open>G[b][a]\<close> name the same edge (\<open>same_edge\<close>).
  The library itself is not code of the repository; this theory fixes the meaning
  of the calls the scripts make: \<open>has_node\<close>, \<open>add_node\<close>, \<open>has_edge\<close>,
  \<open>add_edge\<close>, \<open>G[a][b]["weight"] += 1\<close> and reading a weight.
\<close>

named_theorems nx_simps "equations for the graph model"

type_synonym 'k edge = "'k \<times> 'k \<times> nat"

record ('k, 'a) nxgraph =
  g_nodes :: "('k, 'a) pydict"
  g_edges :: "'k edge list"

definition nx_empty :: "('k, 'a) nxgraph" where
  "nx_empty = \<lparr>g_nodes = [], g_edges = []\<rparr>"

definition has_node :: "('k, 'a) nxgraph \<Rightarrow> 'k \<Rightarrow> bool" where
  "has_node G k = (k \<in> set (map fst (g_nodes G)))"

text \<open>\<open>G.add_node(k, **attrs)\<close>: a new node is appended, an existing one updated.\<close>

definition add_node :: "('k, 'a) nxgraph \<Rightarrow> 'k \<Rightarrow> 'a \<Rightarrow> ('k, 'a) nxgraph" where
  "add_node G k a = G\<lparr>g_nodes := dict_set k a (g_nodes G)\<rparr>"

fun same_edge :: "'k \<Rightarrow> 'k \<Rightarrow> 'k edge \<Rightarrow> bool" where
  "same_edge u v (x, y, w) = ((x = u \<and> y = v) \<or> (x = v \<and> y = u))"

definition has_edge :: "('k, 'a) nxgraph \<Rightarrow> 'k \<Rightarrow> 'k \<Rightarrow> bool" where
  "has_edge G u v = list_ex (same_edge u v) (g_edges G)"

fun edge_map_w :: "'k \<Rightarrow> 'k \<Rightarrow> (nat \<Rightarrow> nat) \<Rightarrow> 'k edge list \<Rightarrow> 'k edge list" where
  "edge_map_w u v f [] = []"
| "edge_map_w u v f ((x, y, w) # es) =
     (if same_edge u v (x, y, w) then (x, y, f w) else (x, y, w)) # edge_map_w u v f es"

text \<open>\<open>G.add_edge(u, v, weight=w)\<close>: sets the weight of an existing edge.\<close>

definition add_edge :: "('k, 'a) nxgraph \<Rightarrow> 'k \<Rightarrow> 'k \<Rightarrow> nat \<Rightarrow> ('k, 'a) nxgraph" where
  "add_edge G u v w =
     (if has_edge G u v then G\<lparr>g_edges := edge_map_w u v (\<lambda>_. w) (g_edges G)\<rparr>
      else G\<lparr>g_edges := g_edges G @ [(u, v, w)]\<rparr>)"

text \<open>
  \<^verbatim>\<open>if G.has_edge(a, b): G[a][b]["weight"] += 1
else: G.add_edge(a, b, weight=1)\<close>
  the edge update of \<open>build_full_network\<close>, \<open>build_network_for_subfield\<close> and
  \<open>process_publication\<close>.
\<close>

definition bump_edge :: "('k, 'a) nxgraph \<Rightarrow> 'k \<Rightarrow> 'k \<Rightarrow> ('k, 'a) nxgraph" where
  "bump_edge G a b =
     (if has_edge G a b then G\<lparr>g_edges := edge_map_w a b Suc (g_edges G)\<rparr>
      else add_edge G a b 1)"

text \<open>\<open>G[u][v]["weight"]\<close>, read as 0 where there is no edge.\<close>

definition ew :: "'k edge list \<Rightarrow> 'k \<Rightarrow> 'k \<Rightarrow> nat" where
  "ew es u v = (case find (same_edge u v) es of None \<Rightarrow> 0 | Some (x, y, w) \<Rightarrow> w)"

abbreviation weight :: "('k, 'a) nxgraph \<Rightarrow> 'k \<Rightarrow> 'k \<Rightarrow> nat" where
  "weight G u v \<equiv> ew (g_edges G) u v"

abbreviation node_attr :: "('k, 'a) nxgraph \<Rightarrow> 'k \<Rightarrow> 'a option" where
  "node_attr G k \<equiv> map_of (g_nodes G) k"

text \<open>The shape every builder keeps: a simple undirected graph with positive weights.\<close>

definition endpoints :: "'k edge list \<Rightarrow> ('k \<times> 'k) list" where
  "endpoints es = map (\<lambda>(x, y, w). (x, y)) es"

definition edges_wf :: "'k edge list \<Rightarrow> bool" where
  "edges_wf es = (distinct (map (\<lambda>(x, y). {x, y}) (endpoints es)) \<and> list_all (\<lambda>(x, y, w). 0 < w) es)"

definition graph_wf :: "('k, 'a) nxgraph \<Rightarrow> bool" where
  "graph_wf G = (distinct (map fst (g_nodes G)) \<and> edges_wf (g_edges G)
     \<and> list_all (\<lambda>(x, y). has_node G x \<and> has_node G y) (endpoints (g_edges G)))"

text \<open>
  \<^verbatim>\<open>for a, b in itertools.combinations(author_ids, 2): ...\<close>
  the co-author loop of \<open>build_full_network\<close> and \<open>build_network_for_subfield\<close>.
\<close>

definition bump_pairs :: "('k, 'a) nxgraph \<Rightarrow> 'k list \<Rightarrow> ('k, 'a) nxgraph" where
  "bump_pairs G ids = fold (\<lambda>(a, b) G. bump_edge G a b) (combinations2 ids) G"

text \<open>\<open>for k in G.nodes(): G.nodes[k][attr] = f(k)\<close>: an attribute set on every node.\<close>

definition map_node_attrs :: "('k \<Rightarrow> 'a \<Rightarrow> 'a) \<Rightarrow> ('k, 'a) nxgraph \<Rightarrow> ('k, 'a) nxgraph" where
  "map_node_attrs f G = G\<lparr>g_nodes := map (\<lambda>(k, a). (k, f k a)) (g_nodes G)\<rparr>"

section \<open>Weights\<close>

lemma same_edge_iff [nx_simps]: "same_edge u v e \<longleftrightarrow> {fst e, fst (snd e)} = {u, v}"
  by (cases e) (auto simp: doubleton_eq_iff)

lemma same_edge_triple: "same_edge u v (x, y, w) \<longleftrightarrow> {x, y} = {u, v}"
  by (auto simp: doubleton_eq_iff)

lemma same_edge_sym: "same_edge u v e = same_edge v u e"
  by (cases e) auto

lemma ew_sym: "ew es u v = ew es v u"
proof -
  have "same_edge u v = same_edge v u" by (simp add: fun_eq_iff same_edge_sym)
  then show ?thesis by (simp add: ew_def)
qed

lemma ew_Nil [simp, nx_simps]: "ew [] u v = 0"
  by (simp add: ew_def)

lemma ew_Cons [nx_simps]:
  "ew ((x, y, w) # es) u v = (if {x, y} = {u, v} then w else ew es u v)"
  by (auto simp: ew_def doubleton_eq_iff)

lemma ew_snoc [nx_simps]:
  "ew (es @ [(a, b, w)]) u v =
     (if list_ex (same_edge u v) es then ew es u v else if {a, b} = {u, v} then w else 0)"
  by (induction es) (auto simp: ew_Cons doubleton_eq_iff)

lemma ew_edge_map_w [nx_simps]:
  "ew (edge_map_w a b f es) u v =
     (if {a, b} = {u, v} \<and> list_ex (same_edge a b) es then f (ew es u v) else ew es u v)"
proof (induction es)
  case Nil
  then show ?case by simp
next
  case (Cons e es)
  obtain x y w where e: "e = (x, y, w)" by (cases e)
  show ?case
  proof (cases "same_edge a b e")
    case True
    then have xy: "{x, y} = {a, b}" by (simp add: e same_edge_iff)
    with True show ?thesis
      by (cases "{a, b} = {u, v}") (simp_all add: e ew_Cons Cons.IH)
  next
    case False
    then have xy: "{x, y} \<noteq> {a, b}" by (simp add: e same_edge_iff)
    show ?thesis
    proof (cases "{x, y} = {u, v}")
      case True
      with xy have "{a, b} \<noteq> {u, v}" by simp
      with False True show ?thesis by (simp add: e ew_Cons del: same_edge.simps)
    next
      case uv: False
      with False show ?thesis by (simp add: e ew_Cons Cons.IH del: same_edge.simps)
    qed
  qed
qed

lemma list_ex_same_edge_cong:
  "{a, b} = {u, v} \<Longrightarrow> list_ex (same_edge a b) es = list_ex (same_edge u v) es"
  by (induction es) (auto simp: doubleton_eq_iff)

lemma list_ex_same_edge_ew:
  "\<not> list_ex (same_edge u v) es \<Longrightarrow> ew es u v = 0"
  by (induction es) (auto simp: ew_Cons doubleton_eq_iff)

lemma ew_snoc_fresh:
  "\<not> list_ex (same_edge a b) es \<Longrightarrow>
     ew (es @ [(a, b, w)]) u v = (if {a, b} = {u, v} then w else ew es u v)"
proof (cases "{a, b} = {u, v}")
  case True
  assume "\<not> list_ex (same_edge a b) es"
  moreover have "list_ex (same_edge a b) es = list_ex (same_edge u v) es"
    using True by (rule list_ex_same_edge_cong)
  ultimately show ?thesis using True by (simp add: ew_snoc)
next
  case False
  then show ?thesis by (simp add: ew_snoc list_ex_same_edge_ew)
qed

text \<open>The weight update of one co-authorship: the pair's weight grows by one, no other.\<close>

lemma weight_bump_edge [nx_simps]:
  "weight (bump_edge G a b) u v = weight G u v + (if {a, b} = {u, v} then 1 else 0)"
proof (cases "has_edge G a b")
  case True
  then have "g_edges (bump_edge G a b) = edge_map_w a b Suc (g_edges G)"
    by (simp add: bump_edge_def)
  with True show ?thesis by (simp add: ew_edge_map_w has_edge_def)
next
  case False
  then have "g_edges (bump_edge G a b) = g_edges G @ [(a, b, 1)]"
    by (simp add: bump_edge_def add_edge_def)
  moreover from False have "\<not> list_ex (same_edge a b) (g_edges G)"
    by (simp add: has_edge_def)
  moreover have "weight G u v = 0" if uv: "{a, b} = {u, v}"
  proof -
    have "list_ex (same_edge a b) (g_edges G) = list_ex (same_edge u v) (g_edges G)"
      using uv by (rule list_ex_same_edge_cong)
    with False show ?thesis by (simp add: has_edge_def list_ex_same_edge_ew)
  qed
  ultimately show ?thesis by (simp add: ew_snoc_fresh)
qed

lemma weight_add_edge [nx_simps]:
  "weight (add_edge G a b w) u v = (if {a, b} = {u, v} then w else weight G u v)"
proof (cases "has_edge G a b")
  case True
  then have "g_edges (add_edge G a b w) = edge_map_w a b (\<lambda>_. w) (g_edges G)"
    by (simp add: add_edge_def)
  with True show ?thesis by (simp add: ew_edge_map_w has_edge_def)
next
  case False
  then have "g_edges (add_edge G a b w) = g_edges G @ [(a, b, w)]"
    by (simp add: add_edge_def)
  moreover from False have "\<not> list_ex (same_edge a b) (g_edges G)"
    by (simp add: has_edge_def)
  ultimately show ?thesis by (simp add: ew_snoc_fresh)
qed

section \<open>Nodes\<close>

lemma has_node_add_node [simp, nx_simps]: "has_node (add_node G k a) x = (x = k \<or> has_node G x)"
  by (auto simp: has_node_def add_node_def)

lemma g_nodes_add_node: "g_nodes (add_node G k a) = dict_set k a (g_nodes G)"
  by (simp add: add_node_def)

lemma has_node_same_nodes: "g_nodes G' = g_nodes G \<Longrightarrow> has_node G' = has_node G"
  by (simp add: has_node_def fun_eq_iff)

lemma g_edges_add_node [simp, nx_simps]: "g_edges (add_node G k a) = g_edges G"
  by (simp add: add_node_def)

lemma node_attr_add_node [simp, nx_simps]: "node_attr (add_node G k a) = (node_attr G)(k \<mapsto> a)"
  by (simp add: add_node_def fun_eq_iff)

lemma g_nodes_bump_edge [simp, nx_simps]: "g_nodes (bump_edge G a b) = g_nodes G"
  by (simp add: bump_edge_def add_edge_def)

lemma g_nodes_add_edge [simp, nx_simps]: "g_nodes (add_edge G a b w) = g_nodes G"
  by (simp add: add_edge_def)

lemma has_node_bump_edge [simp, nx_simps]: "has_node (bump_edge G a b) = has_node G"
  by (simp add: has_node_def fun_eq_iff)

lemma has_node_add_edge [simp, nx_simps]: "has_node (add_edge G a b w) = has_node G"
  by (simp add: has_node_def fun_eq_iff)

section \<open>The shape invariant\<close>

lemma endpoints_edge_map_w [simp]: "endpoints (edge_map_w a b f es) = endpoints es"
  by (induction es rule: edge_map_w.induct) (simp_all add: endpoints_def)

lemma endpoints_Cons [simp]: "endpoints ((x, y, w) # es) = (x, y) # endpoints es"
  by (simp add: endpoints_def)

lemma endpoints_append [simp]: "endpoints (es @ fs) = endpoints es @ endpoints fs"
  by (simp add: endpoints_def)

lemma endpoints_Nil [simp]: "endpoints [] = []"
  by (simp add: endpoints_def)

lemma edges_wf_edge_map_w:
  assumes pos: "\<And>w. 0 < w \<Longrightarrow> 0 < f w"
  shows "edges_wf es \<Longrightarrow> edges_wf (edge_map_w a b f es)"
proof (induction es)
  case Nil
  then show ?case by simp
next
  case (Cons e es)
  obtain x y w where e: "e = (x, y, w)" by (cases e)
  have "edges_wf es" using Cons.prems e by (simp add: edges_wf_def)
  then have "edges_wf (edge_map_w a b f es)" by (rule Cons.IH)
  with Cons.prems e pos show ?case by (simp add: edges_wf_def)
qed

lemma edges_wf_snoc:
  "edges_wf es \<Longrightarrow> \<not> list_ex (same_edge a b) es \<Longrightarrow> 0 < w \<Longrightarrow> edges_wf (es @ [(a, b, w)])"
  by (induction es) (auto simp: edges_wf_def doubleton_eq_iff)

lemma edges_wf_bump_edge: "edges_wf (g_edges G) \<Longrightarrow> edges_wf (g_edges (bump_edge G a b))"
  by (auto simp: bump_edge_def add_edge_def has_edge_def intro: edges_wf_edge_map_w edges_wf_snoc)

lemma edges_wf_add_edge: "edges_wf (g_edges G) \<Longrightarrow> 0 < w \<Longrightarrow> edges_wf (g_edges (add_edge G a b w))"
  by (auto simp: add_edge_def has_edge_def intro: edges_wf_edge_map_w edges_wf_snoc)

lemma endpoints_bump_edge:
  "endpoints (g_edges (bump_edge G a b)) = endpoints (g_edges G)
   \<or> endpoints (g_edges (bump_edge G a b)) = endpoints (g_edges G) @ [(a, b)]"
  by (simp add: bump_edge_def add_edge_def)

lemma graph_wf_bump_edge:
  assumes wf: "graph_wf G" and a: "has_node G a" and b: "has_node G b"
  shows "graph_wf (bump_edge G a b)"
proof -
  note endpoints_bump_edge [of G a b]
  then show ?thesis
    using wf a b by (elim disjE) (simp_all add: graph_wf_def edges_wf_bump_edge)
qed

lemma graph_wf_add_edge:
  assumes wf: "graph_wf G" and a: "has_node G a" and b: "has_node G b" and w: "0 < w"
  shows "graph_wf (add_edge G a b w)"
proof -
  have "endpoints (g_edges (add_edge G a b w)) = endpoints (g_edges G)
        \<or> endpoints (g_edges (add_edge G a b w)) = endpoints (g_edges G) @ [(a, b)]"
    by (simp add: add_edge_def)
  then show ?thesis
    using wf a b w by (elim disjE) (simp_all add: graph_wf_def edges_wf_add_edge)
qed

lemma has_node_node_attr: "has_node G x \<longleftrightarrow> node_attr G x \<noteq> None"
  by (simp add: has_node_def map_of_eq_None_iff image_iff)

lemma graph_wf_add_node: "graph_wf G \<Longrightarrow> graph_wf (add_node G k a)"
  by (auto simp: graph_wf_def list_all_iff) (auto simp: add_node_def)

lemma graph_wf_nx_empty [simp]: "graph_wf nx_empty"
  by (simp add: graph_wf_def nx_empty_def edges_wf_def)

lemma weight_nx_empty [simp]: "weight nx_empty u v = 0"
  by (simp add: nx_empty_def)

lemma has_node_nx_empty [simp]: "\<not> has_node nx_empty k"
  by (simp add: nx_empty_def has_node_def)

lemma list_ex_ew:
  "edges_wf es \<Longrightarrow> list_ex (same_edge u v) es \<longleftrightarrow> 0 < ew es u v"
proof (induction es)
  case Nil
  then show ?case by simp
next
  case (Cons e es)
  obtain x y w where e: "e = (x, y, w)" by (cases e)
  have "edges_wf es" using Cons.prems e by (simp add: edges_wf_def)
  with Cons.IH have IH: "list_ex (same_edge u v) es \<longleftrightarrow> 0 < ew es u v" by blast
  show ?case
  proof (cases "{x, y} = {u, v}")
    case True
    with Cons.prems e show ?thesis
      by (simp add: ew_Cons edges_wf_def same_edge_triple del: same_edge.simps)
  next
    case False
    with IH e show ?thesis
      by (simp add: ew_Cons same_edge_triple del: same_edge.simps)
  qed
qed

text \<open>In a well-formed graph an edge exists exactly where the weight is positive.\<close>

lemma has_edge_weight: "edges_wf (g_edges G) \<Longrightarrow> has_edge G u v \<longleftrightarrow> 0 < weight G u v"
  by (simp add: has_edge_def list_ex_ew)

section \<open>The co-author loop\<close>

lemma weight_fold_bump:
  "weight (fold (\<lambda>(a, b) G. bump_edge G a b) ps G) u v
     = weight G u v + length (filter (\<lambda>(a, b). {a, b} = {u, v}) ps)"
proof (induction ps arbitrary: G)
  case Nil
  then show ?case by simp
next
  case (Cons p ps)
  obtain a b where p: "p = (a, b)" by (cases p)
  show ?case
    by (cases "{a, b} = {u, v}") (simp_all add: p weight_bump_edge Cons.IH)
qed

lemma weight_bump_pairs [nx_simps]: "weight (bump_pairs G ids) u v = weight G u v + pair_count ids u v"
  by (simp add: bump_pairs_def pair_count_def weight_fold_bump)

lemma g_nodes_fold_bump: "g_nodes (fold (\<lambda>(a, b) G. bump_edge G a b) ps G) = g_nodes G"
  by (induction ps arbitrary: G) auto

lemma g_nodes_bump_pairs [simp, nx_simps]: "g_nodes (bump_pairs G ids) = g_nodes G"
  by (simp add: bump_pairs_def g_nodes_fold_bump)

lemma has_node_bump_pairs [simp, nx_simps]: "has_node (bump_pairs G ids) = has_node G"
  by (simp add: has_node_def fun_eq_iff)

lemma graph_wf_fold_bump:
  "graph_wf G \<Longrightarrow> list_all (\<lambda>(a, b). has_node G a \<and> has_node G b) ps
     \<Longrightarrow> graph_wf (fold (\<lambda>(a, b) G. bump_edge G a b) ps G)"
proof (induction ps arbitrary: G)
  case Nil
  then show ?case by simp
next
  case (Cons p ps)
  obtain a b where p: "p = (a, b)" by (cases p)
  with Cons.prems have "graph_wf (bump_edge G a b)" by (simp add: graph_wf_bump_edge)
  moreover have "list_all (\<lambda>(a, b). has_node (bump_edge G a b) a \<and> has_node (bump_edge G a b) b) ps"
    using Cons.prems p by simp
  ultimately show ?case using Cons.IH p by simp
qed

lemma graph_wf_bump_pairs:
  "graph_wf G \<Longrightarrow> list_all (has_node G) ids \<Longrightarrow> graph_wf (bump_pairs G ids)"
  unfolding bump_pairs_def
  by (rule graph_wf_fold_bump) (auto simp: list_all_iff dest: set_combinations2)

section \<open>Setting node attributes\<close>

lemma fst_set_attr [simp]: "fst (case x of (k, a) \<Rightarrow> (k, f k a)) = fst x"
  by (cases x) simp

lemma fst_comp_set_attr [simp]: "fst \<circ> (\<lambda>(k, a). (k, f k a)) = fst"
  by (simp add: fun_eq_iff)

lemma map_fst_map_node_attrs [simp]: "map fst (g_nodes (map_node_attrs f G)) = map fst (g_nodes G)"
  by (simp add: map_node_attrs_def)

lemma map_node_attrs_simps [simp, nx_simps]:
  "g_edges (map_node_attrs f G) = g_edges G"
  "has_node (map_node_attrs f G) = has_node G"
  by (simp_all add: map_node_attrs_def has_node_def fun_eq_iff)

lemma node_attr_map_node_attrs [nx_simps]:
  "node_attr (map_node_attrs f G) x = map_option (f x) (node_attr G x)"
proof -
  have "map_of (map (\<lambda>(k, a). (k, f k a)) ns) x = map_option (f x) (map_of ns x)" for ns
    by (induction ns) auto
  then show ?thesis by (simp add: map_node_attrs_def)
qed

lemma graph_wf_map_node_attrs: "graph_wf G \<Longrightarrow> graph_wf (map_node_attrs f G)"
  by (simp add: graph_wf_def)

lemma nx_empty_simps [simp]: "g_nodes nx_empty = []" "g_edges nx_empty = []"
  by (simp_all add: nx_empty_def)

lemma map_node_attrs_idem:
  "(\<And>k a. f k (f k a) = f k a) \<Longrightarrow> map_node_attrs f (map_node_attrs f G) = map_node_attrs f G"
  by (simp add: map_node_attrs_def case_prod_beta)

end
