(* ===== verification/Resolver.thy ===== *)
theory Resolver
  imports Prelude
begin

text \<open>
  The attribute resolver: an author's dominant category is the key of the largest
  count in the author's count dictionary (\<open>determine_primary_subfield\<close> in
  \<open>src/src/construct_network.py\<close>, and the same code inline in
  \<open>build_full_network\<close>).  Python's \<open>max(items, key=...)\<close> keeps its first
  candidate and replaces it only by a strictly larger one, so on a tie the key
  inserted first wins.  An empty dictionary gives the call site's sentinel.
  The single pass is shown equal to a reference definition: the first entry, in
  insertion order, whose count is the maximum.
\<close>

text \<open>The loop of \<open>max(iterable, key=lambda x: x[1])\<close>.\<close>

fun max_by_count :: "'k \<times> nat \<Rightarrow> ('k \<times> nat) list \<Rightarrow> 'k \<times> nat" where
  "max_by_count best [] = best"
| "max_by_count best (x # xs) = max_by_count (if snd best < snd x then x else best) xs"

definition determine_primary_subfield :: "'k \<Rightarrow> ('k, nat) pydict \<Rightarrow> 'k" where
  "determine_primary_subfield unknown counts =
     (case counts of [] \<Rightarrow> unknown | x # xs \<Rightarrow> fst (max_by_count x xs))"

text \<open>The reference: the first key whose count is the largest.\<close>

definition first_max :: "'k \<Rightarrow> ('k, nat) pydict \<Rightarrow> 'k" where
  "first_max unknown counts =
     (case find (\<lambda>p. snd p = Max (snd ` set counts)) counts of
        None \<Rightarrow> unknown
      | Some p \<Rightarrow> fst p)"

lemma Max_step:
  assumes "finite S"
  shows "Max (insert (snd (if snd b < snd x then x else b)) S) = Max (insert (snd b) (insert (snd x) S))"
proof (cases "S = {}")
  case True
  then show ?thesis by (auto simp: max_def)
next
  case False
  with assms show ?thesis by (auto simp: max_def)
qed

lemma max_by_count_find:
  "find (\<lambda>p. snd p = Max (snd ` set (b # xs))) (b # xs) = Some (max_by_count b xs)"
proof (induction xs arbitrary: b)
  case Nil
  then show ?case by simp
next
  case (Cons x xs)
  define M where "M = Max (snd ` set (b # x # xs))"
  define b' where "b' = (if snd b < snd x then x else b)"
  have M: "Max (snd ` set (b' # xs)) = M"
    unfolding M_def b'_def by (simp only: list.set image_insert Max_step finite_imageI finite_set)
  have le_b: "snd b \<le> M" and le_x: "snd x \<le> M"
    unfolding M_def by (rule Max_ge; simp)+
  have "find (\<lambda>p. snd p = M) (b # x # xs) = find (\<lambda>p. snd p = M) (b' # xs)"
  proof (cases "snd b < snd x")
    case True
    with le_x have "snd b \<noteq> M" by linarith
    with True show ?thesis by (simp add: b'_def)
  next
    case False
    then have "snd x \<noteq> M \<or> snd b = M" using le_b by linarith
    with False show ?thesis by (auto simp: b'_def)
  qed
  also have "\<dots> = Some (max_by_count b' xs)"
    using Cons.IH [of b'] by (simp only: M)
  finally show ?case by (simp add: M_def b'_def)
qed

lemma determine_primary_subfield_Nil [simp]: "determine_primary_subfield d [] = d"
  by (simp add: determine_primary_subfield_def)

lemma find_Some_split:
  "find P xs = Some p \<Longrightarrow> \<exists>ys zs. xs = ys @ p # zs \<and> P p \<and> list_all (\<lambda>q. \<not> P q) ys"
proof (induction xs)
  case Nil
  then show ?case by simp
next
  case (Cons x xs)
  show ?case
  proof (cases "P x")
    case True
    with Cons.prems show ?thesis by fastforce
  next
    case False
    with Cons.prems Cons.IH obtain ys zs where "xs = ys @ p # zs" "P p" "list_all (\<lambda>q. \<not> P q) ys"
      by auto
    with False have "x # xs = (x # ys) @ p # zs \<and> P p \<and> list_all (\<lambda>q. \<not> P q) (x # ys)"
      by simp
    then show ?thesis by blast
  qed
qed

text \<open>
  The contract of the resolver on a non-empty dictionary: its result is a key whose
  count is the maximum, and every key inserted before it has a smaller count.
\<close>

lemma first_max_split:
  assumes "counts \<noteq> []"
  shows "\<exists>ys zs. counts = ys @ (first_max d counts, Max (snd ` set counts)) # zs
                 \<and> list_all (\<lambda>q. snd q < Max (snd ` set counts)) ys"
proof -
  define M where "M = Max (snd ` set counts)"
  from assms obtain b xs where c: "counts = b # xs" by (cases counts) auto
  have found: "find (\<lambda>p. snd p = M) counts = Some (max_by_count b xs)"
    using max_by_count_find [of b xs] by (simp add: c M_def)
  from find_Some_split [OF found] obtain ys zs where split: "counts = ys @ max_by_count b xs # zs"
      and m: "snd (max_by_count b xs) = M" and before: "list_all (\<lambda>q. snd q \<noteq> M) ys"
    by blast
  have le: "snd q \<le> M" if "q \<in> set counts" for q
    using that unfolding M_def by (intro Max_ge) auto
  have lt: "list_all (\<lambda>q. snd q < M) ys"
    unfolding list_all_iff
  proof
    fix q assume q: "q \<in> set ys"
    then have "q \<in> set counts" using split by simp
    then have "snd q \<le> M" by (rule le)
    moreover have "snd q \<noteq> M" using before q by (simp add: list_all_iff)
    ultimately show "snd q < M" by simp
  qed
  have "max_by_count b xs = (first_max d counts, M)"
    using m found unfolding M_def by (simp add: first_max_def prod_eq_iff)
  with split have "counts = ys @ (first_max d counts, M) # zs" by simp
  with lt show ?thesis unfolding M_def by blast
qed

text \<open>The single pass computes the reference: the first key of maximum count.\<close>

lemma determine_primary_subfield_first_max:
  "determine_primary_subfield d counts = first_max d counts"
proof (cases counts)
  case Nil
  then show ?thesis by (simp add: first_max_def)
next
  case (Cons b xs)
  have "find (\<lambda>p. snd p = Max (snd ` set counts)) counts = Some (max_by_count b xs)"
    using max_by_count_find [of b xs] by (simp add: Cons)
  then show ?thesis
    by (simp add: determine_primary_subfield_def first_max_def Cons)
qed

text \<open>
  C4. The resolver's contract on a non-empty count dictionary: it returns a key
  whose count is the maximum, and every key inserted before it has a smaller count
  (the tie-break the specification fixes: the first key reaching the maximum).
\<close>

theorem determine_primary_subfield_contract:
  assumes "counts \<noteq> []"
  shows "\<exists>ys zs. counts = ys @ (determine_primary_subfield d counts, Max (snd ` set counts)) # zs
                 \<and> list_all (\<lambda>q. snd q < Max (snd ` set counts)) ys"
  using first_max_split [OF assms, of d] by (simp add: determine_primary_subfield_first_max)

theorem determine_primary_subfield_contract_witness:
  "\<exists>ys zs. [(''A'', 3::nat), (''B'', 5), (''C'', 5)]
           = ys @ (determine_primary_subfield ''Unknown'' [(''A'', 3::nat), (''B'', 5), (''C'', 5)],
                   Max (snd ` set [(''A'', 3::nat), (''B'', 5), (''C'', 5)])) # zs
         \<and> list_all (\<lambda>q. snd q < Max (snd ` set [(''A'', 3::nat), (''B'', 5), (''C'', 5)])) ys"
  by (rule determine_primary_subfield_contract) simp

text \<open>
  The specification's resolver example: the counts \<open>{A: 3, B: 5, C: 5}\<close>
  resolve to \<open>B\<close>, the first key of maximum count, and no counts resolve to the
  sentinel.
\<close>

theorem determine_primary_subfield_example:
  "determine_primary_subfield ''Unknown'' [(''A'', 3::nat), (''B'', 5), (''C'', 5)] = ''B''
   \<and> determine_primary_subfield ''Unknown'' ([] :: (string \<times> nat) list) = ''Unknown''"
  by (simp add: determine_primary_subfield_def)

end
