(* ===== verification/FullNet.thy ===== *)
theory FullNet
  imports Records Graph Resolver
begin

text \<open>
  \<open>build_full_network\<close> (\<open>src/src/construct_full_net_open_alex.py\<close>): one pass over
  the rows builds the whole co-authorship graph and, per author, a dictionary that
  counts the subfields of the author's publications; a final pass stores each
  author's dominant subfield as the node attribute \<open>sub_field\<close>.
  The accumulator's state is the graph and the count dictionary (\<open>full_acc\<close>);
  one row is one step (\<open>fn_row_step\<close>), the author loop its body
  (\<open>fn_add_author\<close>).  The lemmas give the state after any sequence of rows in
  closed form: a node per author id, each edge weight the number of co-listings,
  each count the number of publications; the invariant (a simple graph whose
  node order is the order of the count dictionary) holds in every reachable state.
  \<open>main\<close> (\<open>full_net_main\<close>) reads the table or returns, then writes the graph.
\<close>

record full_node =
  fn_label :: "string option"
  fn_name :: "string option"
  fn_sub_field :: "cat option"

record full_acc =
  fa_graph :: "(string, full_node) nxgraph"
  fa_subfields :: "(string, (cat, nat) pydict) pydict"

definition fn_init :: full_acc where
  "fn_init = \<lparr>fa_graph = nx_empty, fa_subfields = []\<rparr>"

text \<open>
  \<open>subfield_display\<close>: the subfield column's \<open>display_name\<close>, \<open>"unknown"\<close> when
  the column does not parse or has no such key (\<open>None\<close> when it is \<open>null\<close>).
\<close>

definition subfield_display :: "pub_row \<Rightarrow> cat" where
  "subfield_display r =
     (case row_subfield r of None \<Rightarrow> Some ''unknown''
      | Some sd \<Rightarrow> py_get_or ''unknown'' (sf_display_name sd))"

text \<open>\<open>G.add_node(a_id, label=a_name, name=a_name)\<close> with \<open>a_name = author.get("name", "")\<close>.\<close>

definition full_node_of :: "authorship \<Rightarrow> full_node" where
  "full_node_of a = \<lparr>fn_label = py_get_or [] (au_name a), fn_name = py_get_or [] (au_name a),
                      fn_sub_field = None\<rparr>"

text \<open>One iteration of \<open>for author in authors\<close>.\<close>

definition fn_add_author :: "cat \<Rightarrow> full_acc \<times> string list \<Rightarrow> authorship \<Rightarrow> full_acc \<times> string list" where
  "fn_add_author sd st a =
     (case author_key a of
        None \<Rightarrow> st
      | Some k \<Rightarrow>
          (let (acc, ids) = st;
               acc1 = (if has_node (fa_graph acc) k then acc
                       else acc\<lparr>fa_graph := add_node (fa_graph acc) k (full_node_of a),
                                fa_subfields := dict_set k [] (fa_subfields acc)\<rparr>);
               subs = fa_subfields acc1
           in (acc1\<lparr>fa_subfields := dict_set k (dict_incr sd (dict_get_default [] k subs)) subs\<rparr>,
               ids @ [k])))"

text \<open>One iteration of \<open>for idx, row in df.iterrows()\<close>.\<close>

definition fn_row_step :: "full_acc \<Rightarrow> pub_row \<Rightarrow> full_acc" where
  "fn_row_step acc r =
     (case row_authorships r of
        None \<Rightarrow> acc
      | Some authors \<Rightarrow>
          (let (acc1, ids) = foldl (fn_add_author (subfield_display r)) (acc, []) authors
           in acc1\<lparr>fa_graph := bump_pairs (fa_graph acc1) ids\<rparr>))"

fun fn_rows :: "full_acc \<Rightarrow> pub_row list \<Rightarrow> full_acc" where
  "fn_rows acc [] = acc"
| "fn_rows acc (r # rs) = fn_rows (fn_row_step acc r) rs"

text \<open>The closing loop \<open>for a_id in G.nodes(): ... G.nodes[a_id]["sub_field"] = ...\<close>.\<close>

definition fn_finalize :: "full_acc \<Rightarrow> full_acc" where
  "fn_finalize acc =
     acc\<lparr>fa_graph := map_node_attrs
        (\<lambda>k a. a\<lparr>fn_sub_field := Some (determine_primary_subfield (Some ''unknown'')
                                      (dict_get_default [] k (fa_subfields acc)))\<rparr>)
        (fa_graph acc)\<rparr>"

definition build_full_network :: "pub_row list \<Rightarrow> (string, full_node) nxgraph" where
  "build_full_network rows = fa_graph (fn_finalize (fn_rows fn_init rows))"

abbreviation fn_authors :: "cat \<Rightarrow> full_acc \<Rightarrow> authorship list \<Rightarrow> full_acc \<times> string list" where
  "fn_authors sd acc as \<equiv> foldl (fn_add_author sd) (acc, []) as"

abbreviation fn_count :: "full_acc \<Rightarrow> string \<Rightarrow> cat \<Rightarrow> nat" where
  "fn_count acc x c \<equiv> dict_get_default 0 c (dict_get_default [] x (fa_subfields acc))"

text \<open>The subfields counted for an author, in the order first seen.\<close>

abbreviation fn_keys :: "full_acc \<Rightarrow> string \<Rightarrow> cat list" where
  "fn_keys acc x \<equiv> map fst (dict_get_default [] x (fa_subfields acc))"

text \<open>The states the row loop can be in: the empty state, and a step from a reachable one.\<close>

definition FULL_OUTPUT_FILE :: string where
  "FULL_OUTPUT_FILE = ''../data/graphs/open_alex/full_network.gexf''"

text \<open>
  \<open>main\<close>: a failed \<open>pd.read_csv\<close> is logged and \<open>main\<close> returns without output;
  otherwise the built graph is written to \<open>OUTPUT_FILE\<close> (a failed write is only
  logged).  The CSV table is its parse result or the exception.
\<close>

definition full_net_main :: "py_exception + pub_row list \<Rightarrow> (string \<times> (string, full_node) nxgraph) option" where
  "full_net_main df = (case df of Inl _ \<Rightarrow> None | Inr rows \<Rightarrow> Some (FULL_OUTPUT_FILE, build_full_network rows))"

inductive fn_reach :: "full_acc \<Rightarrow> bool" where
  start: "fn_reach fn_init"
| step: "fn_reach acc \<Longrightarrow> fn_reach (fn_row_step acc r)"

text \<open>
  The accumulator invariant: a well-formed graph, and the count dictionary has
  exactly the nodes as keys, in the same order.
\<close>

definition fn_inv :: "full_acc \<Rightarrow> bool" where
  "fn_inv acc = (graph_wf (fa_graph acc)
                 \<and> map fst (fa_subfields acc) = map fst (g_nodes (fa_graph acc)))"

section \<open>The author loop\<close>

lemma fn_add_author_None [simp]: "author_key a = None \<Longrightarrow> fn_add_author sd st a = st"
  by (simp add: fn_add_author_def)

lemma fn_add_author_ids:
  "snd (fn_add_author sd (acc, ids) a) = ids @ (case author_key a of None \<Rightarrow> [] | Some k \<Rightarrow> [k])"
  by (auto simp: fn_add_author_def Let_def split: option.splits)

lemma fn_add_author_edges:
  "g_edges (fa_graph (fst (fn_add_author sd (acc, ids) a))) = g_edges (fa_graph acc)"
  by (auto simp: fn_add_author_def Let_def split: option.splits)

lemma fn_add_author_has_node:
  "has_node (fa_graph (fst (fn_add_author sd (acc, ids) a))) x
     = (has_node (fa_graph acc) x \<or> author_key a = Some x)"
  by (auto simp: fn_add_author_def Let_def split: option.splits)

lemma fn_inv_no_counts:
  "fn_inv acc \<Longrightarrow> \<not> has_node (fa_graph acc) x \<Longrightarrow> dict_get_default [] x (fa_subfields acc) = []"
  by (rule dict_get_default_notin)
     (simp add: fn_inv_def has_node_def flip: set_map)

lemma fn_add_author_inv:
  assumes inv: "fn_inv acc"
  shows "fn_inv (fst (fn_add_author sd (acc, ids) a))"
proof (cases "author_key a")
  case None
  with inv show ?thesis by simp
next
  case (Some k)
  let ?G = "fa_graph acc" and ?S = "fa_subfields acc"
  have keys: "map fst ?S = map fst (g_nodes ?G)" using inv by (simp add: fn_inv_def)
  show ?thesis
  proof (cases "has_node ?G k")
    case True
    then have "k \<in> set (map fst ?S)" using keys by (simp add: has_node_def)
    with True Some inv keys show ?thesis
      by (simp add: fn_add_author_def fn_inv_def keys_dict_set Let_def)
  next
    case False
    then have k: "k \<notin> set (map fst ?S)" "k \<notin> set (map fst (g_nodes ?G))"
      using keys by (simp_all add: has_node_def)
    have "graph_wf (add_node ?G k (full_node_of a))"
      using inv by (simp add: fn_inv_def graph_wf_add_node)
    with False Some keys k show ?thesis
      by (simp add: fn_add_author_def fn_inv_def keys_dict_set add_node_def Let_def)
  qed
qed

lemma fn_add_author_counts:
  "fn_inv acc \<Longrightarrow> dict_get_default 0 c (dict_get_default [] x (fa_subfields (fst (fn_add_author sd (acc, ids) a))))
     = dict_get_default 0 c (dict_get_default [] x (fa_subfields acc))
       + (if author_key a = Some x \<and> c = sd then 1 else 0)"
  by (auto simp: fn_add_author_def Let_def fn_inv_no_counts split: option.splits)

lemma fn_foldl_ids:
  "snd (foldl (fn_add_author sd) (acc, ids) as) = ids @ List.map_filter author_key as"
proof (induction as arbitrary: acc ids)
  case Nil
  then show ?case by simp
next
  case (Cons a as)
  let ?st = "fn_add_author sd (acc, ids) a"
  have "snd (foldl (fn_add_author sd) ?st as) = snd ?st @ List.map_filter author_key as"
    using Cons.IH [of "fst ?st" "snd ?st"] by (simp only: prod.collapse)
  then show ?case
    by (simp add: fn_add_author_ids map_filter_Cons_key split: option.splits)
qed

lemma fn_foldl_edges:
  "g_edges (fa_graph (fst (foldl (fn_add_author sd) (acc, ids) as))) = g_edges (fa_graph acc)"
proof (induction as arbitrary: acc ids)
  case Nil
  then show ?case by simp
next
  case (Cons a as)
  let ?st = "fn_add_author sd (acc, ids) a"
  have "g_edges (fa_graph (fst (foldl (fn_add_author sd) (fst ?st, snd ?st) as)))
        = g_edges (fa_graph (fst ?st))"
    by (rule Cons.IH)
  then show ?case by (simp add: fn_add_author_edges)
qed

lemma fn_foldl_has_node:
  "has_node (fa_graph (fst (foldl (fn_add_author sd) (acc, ids) as))) x
     = (has_node (fa_graph acc) x \<or> x \<in> set (List.map_filter author_key as))"
proof (induction as arbitrary: acc ids)
  case Nil
  then show ?case by simp
next
  case (Cons a as)
  let ?st = "fn_add_author sd (acc, ids) a"
  have "has_node (fa_graph (fst (foldl (fn_add_author sd) (fst ?st, snd ?st) as))) x
        = (has_node (fa_graph (fst ?st)) x \<or> x \<in> set (List.map_filter author_key as))"
    by (rule Cons.IH)
  then show ?case
    by (auto simp: fn_add_author_has_node map_filter_Cons_key split: option.splits)
qed

lemma fn_foldl_inv:
  "fn_inv acc \<Longrightarrow> fn_inv (fst (foldl (fn_add_author sd) (acc, ids) as))"
proof (induction as arbitrary: acc ids)
  case Nil
  then show ?case by simp
next
  case (Cons a as)
  let ?st = "fn_add_author sd (acc, ids) a"
  have "fn_inv (fst ?st)" using Cons.prems by (rule fn_add_author_inv)
  then have "fn_inv (fst (foldl (fn_add_author sd) (fst ?st, snd ?st) as))"
    by (rule Cons.IH)
  then show ?case by simp
qed

lemma fn_foldl_counts:
  "fn_inv acc \<Longrightarrow> fn_count (fst (foldl (fn_add_author sd) (acc, ids) as)) x c
     = fn_count acc x c + (if c = sd then count_list (List.map_filter author_key as) x else 0)"
proof (induction as arbitrary: acc ids)
  case Nil
  then show ?case by simp
next
  case (Cons a as)
  let ?st = "fn_add_author sd (acc, ids) a"
  have inv: "fn_inv (fst ?st)" using Cons.prems by (rule fn_add_author_inv)
  have "fn_count (fst (foldl (fn_add_author sd) (fst ?st, snd ?st) as)) x c
        = fn_count (fst ?st) x c + (if c = sd then count_list (List.map_filter author_key as) x else 0)"
    using inv by (rule Cons.IH)
  then show ?case
    using fn_add_author_counts [OF Cons.prems, of c x sd ids a]
    by (auto simp: map_filter_Cons_key split: option.splits)
qed

section \<open>One row\<close>

lemma fn_row_step_None [simp]: "row_authorships r = None \<Longrightarrow> fn_row_step acc r = acc"
  by (simp add: fn_row_step_def)

lemma fn_row_step_Some:
  assumes r: "row_authorships r = Some as"
  shows "fn_row_step acc r = (fst (fn_authors (subfield_display r) acc as))
       \<lparr>fa_graph := bump_pairs (fa_graph (fst (fn_authors (subfield_display r) acc as))) (row_ids r)\<rparr>"
proof -
  obtain acc1 ids1 where eq: "fn_authors (subfield_display r) acc as = (acc1, ids1)"
    by (cases "fn_authors (subfield_display r) acc as")
  have "ids1 = row_ids r"
    using fn_foldl_ids [of "subfield_display r" acc "[]" as] eq r by simp
  then show ?thesis by (simp add: fn_row_step_def r eq)
qed

lemma fn_row_step_weight:
  "weight (fa_graph (fn_row_step acc r)) u v = weight (fa_graph acc) u v + pair_count (row_ids r) u v"
proof (cases "row_authorships r")
  case None
  then show ?thesis by simp
next
  case (Some as)
  then show ?thesis by (simp add: fn_row_step_Some weight_bump_pairs fn_foldl_edges)
qed

lemma fn_row_step_has_node:
  "has_node (fa_graph (fn_row_step acc r)) x = (has_node (fa_graph acc) x \<or> x \<in> set (row_ids r))"
proof (cases "row_authorships r")
  case None
  then show ?thesis by simp
next
  case (Some as)
  then show ?thesis by (simp add: fn_row_step_Some fn_foldl_has_node)
qed

lemma fn_row_step_inv: "fn_inv acc \<Longrightarrow> fn_inv (fn_row_step acc r)"
proof (cases "row_authorships r")
  case None
  moreover assume "fn_inv acc"
  ultimately show ?thesis by simp
next
  case (Some as)
  assume inv: "fn_inv acc"
  let ?acc1 = "fst (fn_authors (subfield_display r) acc as)"
  have inv1: "fn_inv ?acc1" using inv by (rule fn_foldl_inv)
  have "list_all (has_node (fa_graph ?acc1)) (row_ids r)"
    using Some by (simp add: list_all_iff fn_foldl_has_node)
  with inv1 have "graph_wf (bump_pairs (fa_graph ?acc1) (row_ids r))"
    by (simp add: fn_inv_def graph_wf_bump_pairs)
  with inv1 Some show ?thesis by (simp add: fn_row_step_Some fn_inv_def)
qed

lemma fn_row_step_counts:
  "fn_inv acc \<Longrightarrow> fn_count (fn_row_step acc r) x c
     = fn_count acc x c + (if subfield_display r = c then count_list (row_ids r) x else 0)"
proof (cases "row_authorships r")
  case None
  then show ?thesis by simp
next
  case (Some as)
  moreover assume "fn_inv acc"
  ultimately show ?thesis by (auto simp: fn_row_step_Some fn_foldl_counts)
qed

section \<open>All rows\<close>

lemma fn_rows_weight:
  "weight (fa_graph (fn_rows acc rs)) u v
     = weight (fa_graph acc) u v + sum_list (map (\<lambda>r. pair_count (row_ids r) u v) rs)"
  by (induction rs arbitrary: acc) (simp_all add: fn_row_step_weight)

lemma fn_rows_has_node:
  "has_node (fa_graph (fn_rows acc rs)) x = (has_node (fa_graph acc) x \<or> x \<in> set (concat (map row_ids rs)))"
  by (induction rs arbitrary: acc) (auto simp: fn_row_step_has_node)

lemma fn_rows_inv: "fn_inv acc \<Longrightarrow> fn_inv (fn_rows acc rs)"
  by (induction rs arbitrary: acc) (simp_all add: fn_row_step_inv)

lemma fn_rows_counts:
  "fn_inv acc \<Longrightarrow> fn_count (fn_rows acc rs) x c
     = fn_count acc x c + sum_list (map (\<lambda>r. if subfield_display r = c then count_list (row_ids r) x else 0) rs)"
proof (induction rs arbitrary: acc)
  case Nil
  then show ?case by simp
next
  case (Cons r rs)
  have "fn_inv (fn_row_step acc r)" using Cons.prems by (rule fn_row_step_inv)
  then show ?case using Cons.IH fn_row_step_counts [OF Cons.prems] by simp
qed

lemma fn_inv_init [simp]: "fn_inv fn_init"
  by (simp add: fn_inv_def fn_init_def)

lemma fn_init_simps [simp]:
  "fa_graph fn_init = nx_empty" "fa_subfields fn_init = []"
  by (simp_all add: fn_init_def)

lemma fn_reach_rows: "fn_reach acc \<Longrightarrow> fn_reach (fn_rows acc rs)"
  by (induction rs arbitrary: acc) (simp_all add: fn_reach.step)

section \<open>Finalization\<close>

lemma fn_finalize_graph [simp]:
  "g_edges (fa_graph (fn_finalize acc)) = g_edges (fa_graph acc)"
  "has_node (fa_graph (fn_finalize acc)) = has_node (fa_graph acc)"
  "fa_subfields (fn_finalize acc) = fa_subfields acc"
  by (simp_all add: fn_finalize_def)

lemma fn_finalize_node_attr:
  "node_attr (fa_graph (fn_finalize acc)) x
     = map_option (\<lambda>a. a\<lparr>fn_sub_field := Some (determine_primary_subfield (Some ''unknown'')
                                    (dict_get_default [] x (fa_subfields acc)))\<rparr>)
                  (node_attr (fa_graph acc) x)"
  by (simp add: fn_finalize_def node_attr_map_node_attrs)

lemma fn_finalize_inv: "fn_inv acc \<Longrightarrow> fn_inv (fn_finalize acc)"
  by (simp add: fn_inv_def fn_finalize_def graph_wf_map_node_attrs)

section \<open>Node attributes are those of the first listing\<close>

lemma fn_add_author_node_attr:
  "node_attr (fa_graph (fst (fn_add_author sd (acc, ids) a))) x
     = (case node_attr (fa_graph acc) x of
          Some v \<Rightarrow> Some v
        | None \<Rightarrow> (if author_key a = Some x then Some (full_node_of a) else None))"
  by (auto simp: fn_add_author_def Let_def has_node_node_attr split: option.splits)

lemma fn_foldl_node_attr:
  "node_attr (fa_graph (fst (foldl (fn_add_author sd) (acc, ids) as))) x
     = (case node_attr (fa_graph acc) x of
          Some v \<Rightarrow> Some v
        | None \<Rightarrow> map_option full_node_of (find (\<lambda>a. author_key a = Some x) as))"
proof (induction as arbitrary: acc ids)
  case Nil
  then show ?case by (simp split: option.splits)
next
  case (Cons a as)
  let ?st = "fn_add_author sd (acc, ids) a"
  have "node_attr (fa_graph (fst (foldl (fn_add_author sd) ?st as))) x
        = (case node_attr (fa_graph (fst ?st)) x of Some v \<Rightarrow> Some v
           | None \<Rightarrow> map_option full_node_of (find (\<lambda>a. author_key a = Some x) as))"
    using Cons.IH [of "fst ?st" "snd ?st"] by (simp only: prod.collapse)
  then show ?case by (simp add: fn_add_author_node_attr split: option.splits)
qed

lemma fn_row_step_graph:
  "fa_graph (fn_row_step acc r)
     = bump_pairs (fa_graph (fst (fn_authors (subfield_display r) acc (row_authors r)))) (row_ids r)"
proof (cases "row_authorships r")
  case None
  then show ?thesis by (simp add: bump_pairs_def)
next
  case (Some as)
  then show ?thesis by (simp add: fn_row_step_Some)
qed

lemma fn_row_step_node_attr:
  "node_attr (fa_graph (fn_row_step acc r)) x
     = (case node_attr (fa_graph acc) x of
          Some v \<Rightarrow> Some v
        | None \<Rightarrow> map_option full_node_of (find (\<lambda>a. author_key a = Some x) (row_authors r)))"
  by (simp add: fn_row_step_graph fn_foldl_node_attr)

lemma fn_rows_node_attr:
  "node_attr (fa_graph (fn_rows acc rs)) x
     = (case node_attr (fa_graph acc) x of
          Some v \<Rightarrow> Some v
        | None \<Rightarrow> map_option full_node_of (find (\<lambda>a. author_key a = Some x) (concat (map row_authors rs))))"
proof (induction rs arbitrary: acc)
  case Nil
  then show ?case by (simp split: option.splits)
next
  case (Cons r rs)
  show ?case
    by (simp add: Cons.IH fn_row_step_node_attr find_append_split split: option.splits)
qed

lemma fn_finalize_label:
  "map_option fn_label (node_attr (fa_graph (fn_finalize acc)) x) = map_option fn_label (node_attr (fa_graph acc) x)"
  by (simp add: fn_finalize_node_attr option.map_comp o_def)

lemma fn_build_inv: "fn_inv (fn_finalize (fn_rows fn_init rows))"
  by (rule fn_finalize_inv [OF fn_rows_inv [OF fn_inv_init]])

section \<open>The built graph\<close>

text \<open>
  C1. Edge weights refine the abstract count: the weight of the edge \<open>{u, v}\<close> in
  the graph built from the rows is the number of times the pair occurs among the
  pairs of co-listed author ids, summed over the rows whose authorships parse.
\<close>

theorem build_full_network_weight:
  "weight (build_full_network rows) u v = sum_list (map (\<lambda>r. pair_count (row_ids r) u v) rows)"
  by (simp add: build_full_network_def fn_rows_weight)

text \<open>
  Where no row lists an author id twice, the weight of an edge between two
  distinct authors is the number of rows that list both of them.
\<close>

theorem build_full_network_weight_distinct:
  assumes "list_all (\<lambda>r. distinct (row_ids r)) rows" and "u \<noteq> v"
  shows "weight (build_full_network rows) u v
           = length (filter (\<lambda>r. u \<in> set (row_ids r) \<and> v \<in> set (row_ids r)) rows)"
  using assms by (simp add: build_full_network_def fn_rows_weight sum_pair_count_distinct)

theorem build_full_network_weight_distinct_witness:
  "weight (build_full_network [sample_row ''W1'' [''A'', ''B''] ''AI'',
                               sample_row ''W2'' [''A'', ''B'', ''C''] ''AI'']) ''A'' ''B'' = 2"
proof -
  let ?rows = "[sample_row ''W1'' [''A'', ''B''] ''AI'', sample_row ''W2'' [''A'', ''B'', ''C''] ''AI'']"
  have "list_all (\<lambda>r. distinct (row_ids r)) ?rows" by (simp add: sample_row_def)
  moreover have "''A'' \<noteq> ''B''" by simp
  ultimately have "weight (build_full_network ?rows) ''A'' ''B''
        = length (filter (\<lambda>r. ''A'' \<in> set (row_ids r) \<and> ''B'' \<in> set (row_ids r)) ?rows)"
    by (rule build_full_network_weight_distinct)
  then show ?thesis by (simp add: sample_row_def)
qed

text \<open>
  C13. A node exists exactly for every author id that some row with parsable
  authorships lists, whether or not it has a co-author.
\<close>

theorem build_full_network_nodes:
  "has_node (build_full_network rows) k \<longleftrightarrow> k \<in> set (concat (map row_ids rows))"
  by (simp add: build_full_network_def fn_rows_has_node)

text \<open>
  The count dictionary after the row loop: author \<open>x\<close>'s count for subfield
  \<open>c\<close> is the number of times \<open>x\<close> is listed in rows of subfield \<open>c\<close>.
\<close>

theorem fn_rows_counts_init:
  "fn_count (fn_rows fn_init rows) x c
     = sum_list (map (\<lambda>r. if subfield_display r = c then count_list (row_ids r) x else 0) rows)"
  using fn_rows_counts [OF fn_inv_init, where rs = rows and x = x and c = c] by simp

lemma fn_add_author_keys:
  "fn_inv acc \<Longrightarrow> fn_keys (fst (fn_add_author sd (acc, ids) a)) x
     = (if author_key a = Some x \<and> sd \<notin> set (fn_keys acc x) then fn_keys acc x @ [sd] else fn_keys acc x)"
  by (auto simp: fn_add_author_def Let_def fn_inv_no_counts dict_incr_def keys_dict_set split: option.splits)

lemma fn_foldl_keys:
  "fn_inv acc \<Longrightarrow> fn_keys acc x = first_seen L \<Longrightarrow>
   fn_keys (fst (foldl (fn_add_author sd) (acc, ids) as)) x
     = first_seen (L @ replicate (count_list (List.map_filter author_key as) x) sd)"
proof (induction as arbitrary: acc ids L)
  case Nil
  then show ?case by simp
next
  case (Cons a as)
  let ?st = "fn_add_author sd (acc, ids) a"
  let ?L = "L @ (if author_key a = Some x then [sd] else [])"
  have inv: "fn_inv (fst ?st)" using Cons.prems(1) by (rule fn_add_author_inv)
  have keys: "fn_keys (fst ?st) x = first_seen ?L"
    using fn_add_author_keys [OF Cons.prems(1), where sd = sd and ids = ids and a = a and x = x] Cons.prems(2) by auto
  have "fn_keys (fst (foldl (fn_add_author sd) (fst ?st, snd ?st) as)) x
        = first_seen (?L @ replicate (count_list (List.map_filter author_key as) x) sd)"
    by (rule Cons.IH [OF inv keys])
  then show ?case by (auto simp: map_filter_Cons_key split: option.splits)
qed

lemma fn_row_step_keys:
  "fn_inv acc \<Longrightarrow> fn_keys acc x = first_seen L \<Longrightarrow>
   fn_keys (fn_row_step acc r) x = first_seen (L @ replicate (count_list (row_ids r) x) (subfield_display r))"
proof (cases "row_authorships r")
  case None
  moreover assume "fn_keys acc x = first_seen L"
  ultimately show ?thesis by (simp add: row_ids_def)
next
  case (Some as)
  moreover assume "fn_inv acc" "fn_keys acc x = first_seen L"
  ultimately show ?thesis by (simp add: fn_row_step_Some fn_foldl_keys row_ids_def)
qed

lemma fn_rows_keys:
  "fn_inv acc \<Longrightarrow> fn_keys acc x = first_seen L \<Longrightarrow>
   fn_keys (fn_rows acc rs) x
     = first_seen (L @ concat (map (\<lambda>r. replicate (count_list (row_ids r) x) (subfield_display r)) rs))"
proof (induction rs arbitrary: acc L)
  case Nil
  then show ?case by simp
next
  case (Cons r rs)
  have "fn_inv (fn_row_step acc r)" using Cons.prems(1) by (rule fn_row_step_inv)
  moreover have "fn_keys (fn_row_step acc r) x = first_seen (L @ replicate (count_list (row_ids r) x) (subfield_display r))"
    using Cons.prems by (rule fn_row_step_keys)
  ultimately show ?case using Cons.IH by simp
qed

lemma fn_rows_subfields_init:
  "dict_get_default [] x (fa_subfields (fn_rows fn_init rows))
     = map (\<lambda>c. (c, sum_list (map (\<lambda>r. if subfield_display r = c then count_list (row_ids r) x else 0) rows)))
           (first_seen (concat (map (\<lambda>r. replicate (count_list (row_ids r) x) (subfield_display r)) rows)))"
proof -
  let ?D = "dict_get_default [] x (fa_subfields (fn_rows fn_init rows))"
  have keys: "map fst ?D = first_seen (concat (map (\<lambda>r. replicate (count_list (row_ids r) x) (subfield_display r)) rows))"
    using fn_rows_keys [OF fn_inv_init, of x "[]" rows] by (simp add: first_seen_def)
  have "?D = map (\<lambda>c. (c, dict_get_default 0 c ?D)) (map fst ?D)"
    using dict_rebuild [of ?D 0] keys by simp
  also have "\<dots> = map (\<lambda>c. (c, sum_list (map (\<lambda>r. if subfield_display r = c then count_list (row_ids r) x else 0) rows)))
           (first_seen (concat (map (\<lambda>r. replicate (count_list (row_ids r) x) (subfield_display r)) rows)))"
    unfolding keys by (simp add: fn_rows_counts_init)
  finally show ?thesis .
qed

text \<open>
  C5. Each node's \<open>sub_field\<close> attribute, read off the input rows: among the
  subfields of the rows that list the author, in the order first seen, the first
  one with the largest number of listings of the author (\<open>"unknown"\<close> for a row
  whose subfield does not parse).
\<close>

theorem build_full_network_sub_field:
  assumes "node_attr (build_full_network rows) k = Some a"
  shows "fn_sub_field a = Some (first_max (Some ''unknown'')
           (map (\<lambda>c. (c, sum_list (map (\<lambda>r. if subfield_display r = c then count_list (row_ids r) k else 0) rows)))
                (first_seen (concat (map (\<lambda>r. replicate (count_list (row_ids r) k) (subfield_display r)) rows)))))"
  using assms
  by (auto simp: build_full_network_def fn_finalize_node_attr determine_primary_subfield_first_max
                 fn_rows_subfields_init)

theorem build_full_network_sub_field_witness:
  "node_attr (build_full_network
      [sample_row ''W1'' [''A'', ''B''] ''AI'', sample_row ''W2'' [''A''] ''DB'',
       sample_row ''W3'' [''A''] ''DB'']) ''A''
     = Some (the (node_attr (build_full_network
      [sample_row ''W1'' [''A'', ''B''] ''AI'', sample_row ''W2'' [''A''] ''DB'',
       sample_row ''W3'' [''A''] ''DB'']) ''A''))
   \<and> fn_sub_field (the (node_attr (build_full_network
      [sample_row ''W1'' [''A'', ''B''] ''AI'', sample_row ''W2'' [''A''] ''DB'',
       sample_row ''W3'' [''A''] ''DB'']) ''A''))
   = Some (Some ''DB'')"
proof -
  let ?rows = "[sample_row ''W1'' [''A'', ''B''] ''AI'', sample_row ''W2'' [''A''] ''DB'',
                sample_row ''W3'' [''A''] ''DB'']"
  let ?a = "the (node_attr (build_full_network ?rows) ''A'')"
  have n: "node_attr (build_full_network ?rows) ''A'' = Some ?a"
    by (simp add: build_full_network_def fn_finalize_def fn_row_step_def fn_add_author_def
          sample_row_def subfield_display_def bump_pairs_def bump_edge_def add_edge_def
          has_edge_def has_node_def add_node_def map_node_attrs_def dict_incr_def Let_def)
  from build_full_network_sub_field [OF n] n show ?thesis
    by (simp add: first_max_def first_seen_def sample_row_def subfield_display_def row_ids_def)
qed

text \<open>
  C25. First seen wins: a node's \<open>label\<close> is the name of the first author entry,
  over the rows in order, that carries the node's id; no later entry changes it.
\<close>

theorem build_full_network_label:
  "map_option fn_label (node_attr (build_full_network rows) k)
     = map_option (\<lambda>a. py_get_or [] (au_name a))
                  (find (\<lambda>a. author_key a = Some k) (concat (map row_authors rows)))"
  by (simp add: build_full_network_def fn_finalize_label fn_rows_node_attr option.map_comp
                o_def full_node_of_def)

text \<open>
  C7. Every state the row loop reaches satisfies the invariant: the graph is simple
  with positive weights and edges between existing nodes, and the count dictionary
  has exactly the nodes as keys, in node order.
\<close>

theorem fn_reach_inv: "fn_reach acc \<Longrightarrow> fn_inv acc"
proof (induction rule: fn_reach.induct)
  case start
  show ?case by simp
next
  case (step acc r)
  from step.IH show ?case by (rule fn_row_step_inv)
qed

theorem fn_reach_inv_witness:
  "fn_inv (fn_row_step fn_init (sample_row ''W1'' [''A'', ''B''] ''AI''))"
proof -
  have "fn_reach (fn_row_step fn_init (sample_row ''W1'' [''A'', ''B''] ''AI''))"
    by (rule fn_reach.step [OF fn_reach.start])
  then show ?thesis by (rule fn_reach_inv)
qed

text \<open>The built graph is simple, with positive weights and edges between nodes.\<close>

theorem build_full_network_wf: "graph_wf (build_full_network rows)"
  using fn_build_inv [of rows] by (simp add: build_full_network_def fn_inv_def)

text \<open>
  C15. Self-loops: the graph has an edge from an author to itself exactly when some
  row lists that author's id twice (the specification requires none).
\<close>

theorem build_full_network_self_loop:
  "has_edge (build_full_network rows) k k \<longleftrightarrow> list_ex (\<lambda>r. 2 \<le> count_list (row_ids r) k) rows"
proof -
  have wf: "edges_wf (g_edges (build_full_network rows))"
    using fn_build_inv [of rows] by (simp add: build_full_network_def fn_inv_def graph_wf_def)
  have "has_edge (build_full_network rows) k k \<longleftrightarrow> 0 < weight (build_full_network rows) k k"
    by (rule has_edge_weight [OF wf])
  also have "weight (build_full_network rows) k k = sum_list (map (\<lambda>r. pair_count (row_ids r) k k) rows)"
    by (simp add: build_full_network_def fn_rows_weight)
  also have "0 < sum_list (map (\<lambda>r. pair_count (row_ids r) k k) rows)
             \<longleftrightarrow> list_ex (\<lambda>r. 0 < pair_count (row_ids r) k k) rows"
    by (induction rows) auto
  finally show ?thesis by (simp add: pair_count_self_pos)
qed

text \<open>
  The final attribute pass is idempotent and reads only the counts: running
  it twice gives the state of running it once.
\<close>

theorem fn_finalize_idem: "fn_finalize (fn_finalize acc) = fn_finalize acc"
  by (simp add: fn_finalize_def map_node_attrs_idem)

text \<open>
  A row never removes a node and never lowers a weight.
\<close>

theorem fn_row_step_monotone:
  "set (map fst (g_nodes (fa_graph acc))) \<subseteq> set (map fst (g_nodes (fa_graph (fn_row_step acc r))))
   \<and> weight (fa_graph acc) u v \<le> weight (fa_graph (fn_row_step acc r)) u v"
  using fn_row_step_has_node [of acc r] by (auto simp: fn_row_step_weight has_node_def)

end
