(* ===== verification/CollabNet.thy ===== *)
theory CollabNet
  imports Records Graph Resolver
begin

text \<open>
  \<open>src/src/construct_network.py\<close>: \<open>build_collaboration_network\<close> keeps three
  dictionaries while it reads the rows (author id to country, author id to subfield
  counts, sorted id pair to co-authorship count) and builds the networkx graph only
  at the end: one node per author with \<open>label1\<close> (first-seen country) and
  \<open>label2\<close> (dominant subfield), one edge per pair key.  The two filters run
  before it, and \<open>main\<close> composes the citation filter with the builder.
  The theory proves that the sorted-pair dictionary gives the same weights as the
  incremental \<open>has_edge\<close>/\<open>+= 1\<close> update, what the nodes and their labels are, and
  what the filters keep and when the subfield filter raises.
\<close>

record collab_node =
  cn_label1 :: string
  cn_label2 :: cat

record collab_acc =
  ca_info :: "(string, string) pydict"
  ca_counts :: "(string, (cat, nat) pydict) pydict"
  ca_edges :: "(string \<times> string, nat) pydict"

definition cn_init :: collab_acc where
  "cn_init = \<lparr>ca_info = [], ca_counts = [], ca_edges = []\<rparr>"

text \<open>
  \<open>get_author_country\<close>: the first country code, else \<open>"Unknown"\<close>.  The
  \<open>countries\<close> field is a list; an absent or \<open>null\<close> field reads as the empty list,
  which the code treats alike.
\<close>

definition get_author_country :: "authorship \<Rightarrow> string" where
  "get_author_country a = (case au_countries a of [] \<Rightarrow> ''Unknown'' | c # _ \<Rightarrow> c)"

text \<open>
  \<open>subfield_name\<close>: \<open>subfield_data.get("display_name", "Unknown") if subfield_data
  else "Unknown"\<close>, where \<open>subfield_data\<close> is \<open>None\<close> when the column does not
  parse and an empty dictionary is falsy.
\<close>

definition subfield_name :: "pub_row \<Rightarrow> cat" where
  "subfield_name r =
     (case row_subfield r of
        None \<Rightarrow> Some ''Unknown''
      | Some sd \<Rightarrow> (if sf_id sd = Absent \<and> sf_display_name sd = Absent then Some ''Unknown''
                   else py_get_or ''Unknown'' (sf_display_name sd)))"

text \<open>\<open>update_author_subfield_counts\<close> on the \<open>defaultdict\<close> of counts.\<close>

definition update_author_subfield_counts ::
  "(string, (cat, nat) pydict) pydict \<Rightarrow> authorship list \<Rightarrow> cat \<Rightarrow> (string, (cat, nat) pydict) pydict" where
  "update_author_subfield_counts counts authors sd =
     foldl (\<lambda>m a. case author_key a of None \<Rightarrow> m
                  | Some k \<Rightarrow> dict_set k (dict_incr sd (dict_get_default [] k m)) m) counts authors"

text \<open>The first author loop of one row: country on first sight, then the count.\<close>

definition cn_add_author :: "cat \<Rightarrow> collab_acc \<Rightarrow> authorship \<Rightarrow> collab_acc" where
  "cn_add_author sd acc a =
     (case author_key a of
        None \<Rightarrow> acc
      | Some k \<Rightarrow>
          acc\<lparr>ca_info := (if k \<in> set (map fst (ca_info acc)) then ca_info acc
                         else dict_set k (get_author_country a) (ca_info acc)),
              ca_counts := dict_set k (dict_incr sd (dict_get_default [] k (ca_counts acc))) (ca_counts acc)\<rparr>)"

text \<open>
  The pair loop: \<open>for author1, author2 in combinations(authors, 2)\<close>, keyed by
  \<open>tuple(sorted([id1, id2]))\<close> when both ids are present.
\<close>

definition cn_pair_step :: "collab_acc \<Rightarrow> authorship \<times> authorship \<Rightarrow> collab_acc" where
  "cn_pair_step acc p =
     (case author_key (fst p) of
        None \<Rightarrow> acc
      | Some id1 \<Rightarrow> (case author_key (snd p) of
          None \<Rightarrow> acc
        | Some id2 \<Rightarrow> acc\<lparr>ca_edges := dict_incr (min id1 id2, max id1 id2) (ca_edges acc)\<rparr>))"

definition cn_row_step :: "collab_acc \<Rightarrow> pub_row \<Rightarrow> collab_acc" where
  "cn_row_step acc r =
     (case row_authorships r of
        None \<Rightarrow> acc
      | Some authors \<Rightarrow>
          foldl cn_pair_step (foldl (cn_add_author (subfield_name r)) acc authors) (combinations2 authors))"

fun cn_rows :: "collab_acc \<Rightarrow> pub_row list \<Rightarrow> collab_acc" where
  "cn_rows acc [] = acc"
| "cn_rows acc (r # rs) = cn_rows (cn_row_step acc r) rs"

text \<open>The graph built from the dictionaries: nodes in the order first seen, then edges.\<close>

definition cn_graph :: "collab_acc \<Rightarrow> (string, collab_node) nxgraph" where
  "cn_graph acc =
     foldl (\<lambda>G ((a, b), w). add_edge G a b w)
       (foldl (\<lambda>G (k, c). add_node G k
                 \<lparr>cn_label1 = c,
                  cn_label2 = determine_primary_subfield (Some ''Unknown'') (dict_get_default [] k (ca_counts acc))\<rparr>)
          nx_empty (ca_info acc))
       (ca_edges acc)"

definition build_collaboration_network :: "pub_row list \<Rightarrow> (string, collab_node) nxgraph" where
  "build_collaboration_network rows = cn_graph (cn_rows cn_init rows)"

text \<open>
  \<open>filter_publications_by_citation_count\<close>: \<open>df["cited_by_count"] > n\<close>; NaN compares
  false.  The table is assumed to have the column: a CSV without it (such as the
  collector's output) raises \<open>KeyError\<close>, which a list of rows cannot express.
\<close>

definition filter_publications_by_citation_count :: "pub_row list \<Rightarrow> int \<Rightarrow> pub_row list" where
  "filter_publications_by_citation_count rows n =
     filter (\<lambda>r. case row_cited_by_count r of None \<Rightarrow> False | Some c \<Rightarrow> n < c) rows"

text \<open>
  \<open>filter_subfielf_publications\<close>: \<open>json.loads(x).get("display_name") == subfield\<close>
  on every row; a subfield column that does not parse raises out of the filter.
\<close>

definition filter_subfielf_publications :: "pub_row list \<Rightarrow> string \<Rightarrow> py_exception + pub_row list" where
  "filter_subfielf_publications rows target =
     (if list_ex (\<lambda>r. row_subfield r = None) rows then Inl JSONDecodeError
      else Inr (filter (\<lambda>r. case row_subfield r of None \<Rightarrow> False
                             | Some sd \<Rightarrow> py_get (sf_display_name sd) = Some target) rows))"

text \<open>\<open>main\<close> without its I/O: the citation filter with threshold 100, then the builder.\<close>

definition construct_network_main :: "pub_row list \<Rightarrow> (string, collab_node) nxgraph" where
  "construct_network_main rows =
     build_collaboration_network (filter_publications_by_citation_count rows 100)"

text \<open>
  The builder's invariant: the country and count dictionaries have the same keys in
  the same order; pair keys are sorted, positive and between known authors.
\<close>

definition cn_inv :: "collab_acc \<Rightarrow> bool" where
  "cn_inv acc = (distinct (map fst (ca_info acc))
     \<and> map fst (ca_counts acc) = map fst (ca_info acc)
     \<and> distinct (map fst (ca_edges acc))
     \<and> list_all (\<lambda>((a, b), w). a \<le> b \<and> 0 < w \<and> a \<in> set (map fst (ca_info acc))
                    \<and> b \<in> set (map fst (ca_info acc))) (ca_edges acc))"

abbreviation cn_count :: "collab_acc \<Rightarrow> string \<Rightarrow> cat \<Rightarrow> nat" where
  "cn_count acc x c \<equiv> dict_get_default 0 c (dict_get_default [] x (ca_counts acc))"

abbreviation pair_key :: "string \<Rightarrow> string \<Rightarrow> string \<times> string" where
  "pair_key u v \<equiv> (min u v, max u v)"

section \<open>The author loop\<close>

lemma cn_add_author_edges [simp]: "ca_edges (cn_add_author sd acc a) = ca_edges acc"
  by (simp add: cn_add_author_def split: option.splits)

lemma cn_add_author_keys:
  "fst ` set (ca_info (cn_add_author sd acc a))
     = fst ` set (ca_info acc) \<union> (case author_key a of None \<Rightarrow> {} | Some k \<Rightarrow> {k})"
  by (auto simp: cn_add_author_def keys_dict_set split: option.splits)

lemma cn_add_author_count:
  "cn_count (cn_add_author sd acc a) x c = cn_count acc x c + (if author_key a = Some x \<and> c = sd then 1 else 0)"
  by (auto simp: cn_add_author_def split: option.splits)

lemma cn_add_author_info:
  "map_of (ca_info (cn_add_author sd acc a)) x
     = (case map_of (ca_info acc) x of Some c \<Rightarrow> Some c
        | None \<Rightarrow> (if author_key a = Some x then Some (get_author_country a) else None))"
proof (cases "author_key a")
  case None
  then show ?thesis by (simp add: cn_add_author_def split: option.splits)
next
  case (Some k)
  show ?thesis
  proof (cases "k \<in> set (map fst (ca_info acc))")
    case True
    then have "map_of (ca_info acc) k \<noteq> None" by (simp add: map_of_eq_None_iff)
    with True Some show ?thesis by (auto simp: cn_add_author_def split: option.splits)
  next
    case False
    then have "map_of (ca_info acc) k = None" by (simp add: map_of_eq_None_iff)
    with False Some show ?thesis by (auto simp: cn_add_author_def split: option.splits)
  qed
qed

lemma cn_add_author_inv: "cn_inv acc \<Longrightarrow> cn_inv (cn_add_author sd acc a)"
proof (cases "author_key a")
  case None
  moreover assume "cn_inv acc"
  ultimately show ?thesis by (simp add: cn_add_author_def)
next
  case (Some k)
  assume inv: "cn_inv acc"
  let ?I = "ca_info acc" and ?C = "ca_counts acc"
  have keys: "map fst ?C = map fst ?I" using inv by (simp add: cn_inv_def)
  have mono: "set (map fst ?I) \<subseteq> set (map fst (ca_info (cn_add_author sd acc a)))"
    by (simp add: cn_add_author_keys)
  have edges: "list_all (\<lambda>((a, b), w). a \<le> b \<and> 0 < w \<and> a \<in> set (map fst ?I) \<and> b \<in> set (map fst ?I))
                  (ca_edges acc)"
    using inv by (simp add: cn_inv_def)
  have edges': "list_all (\<lambda>((a', b), w). a' \<le> b \<and> 0 < w
                  \<and> a' \<in> set (map fst (ca_info (cn_add_author sd acc a)))
                  \<and> b \<in> set (map fst (ca_info (cn_add_author sd acc a)))) (ca_edges acc)"
    using edges mono by (auto simp: list_all_iff)
  show ?thesis
  proof (cases "k \<in> set (map fst ?I)")
    case True
    with Some inv keys edges' show ?thesis
      by (simp add: cn_add_author_def cn_inv_def keys_dict_set)
  next
    case False
    with Some inv keys edges' show ?thesis
      by (simp add: cn_add_author_def cn_inv_def keys_dict_set)
  qed
qed

section \<open>The pair loop\<close>

definition pair_hits :: "string \<times> string \<Rightarrow> authorship \<times> authorship \<Rightarrow> bool" where
  "pair_hits p q = (case author_key (fst q) of None \<Rightarrow> False
                    | Some i \<Rightarrow> (case author_key (snd q) of None \<Rightarrow> False
                                | Some j \<Rightarrow> pair_key i j = p))"

lemma cn_pair_step_simps [simp]:
  "ca_info (cn_pair_step acc q) = ca_info acc"
  "ca_counts (cn_pair_step acc q) = ca_counts acc"
  by (simp_all add: cn_pair_step_def split: option.splits)

lemma cn_pairs_simps [simp]:
  "ca_info (foldl cn_pair_step acc qs) = ca_info acc"
  "ca_counts (foldl cn_pair_step acc qs) = ca_counts acc"
  by (induction qs arbitrary: acc) simp_all

lemma cn_pairs_edges:
  "dict_get_default 0 p (ca_edges (foldl cn_pair_step acc qs))
     = dict_get_default 0 p (ca_edges acc) + length (filter (pair_hits p) qs)"
  by (induction qs arbitrary: acc)
     (auto simp: cn_pair_step_def pair_hits_def split: option.splits)

lemma cn_pairs_inv:
  assumes "cn_inv acc"
    and "\<And>q. q \<in> set qs \<Longrightarrow> (\<And>k. author_key (fst q) = Some k \<or> author_key (snd q) = Some k
               \<Longrightarrow> k \<in> set (map fst (ca_info acc)))"
  shows "cn_inv (foldl cn_pair_step acc qs)"
  using assms
proof (induction qs arbitrary: acc)
  case Nil
  then show ?case by simp
next
  case (Cons q qs)
  have "cn_inv (cn_pair_step acc q)"
  proof (cases "author_key (fst q)")
    case None
    with Cons.prems show ?thesis by (simp add: cn_pair_step_def)
  next
    case (Some i)
    show ?thesis
    proof (cases "author_key (snd q)")
      case None
      with Some Cons.prems show ?thesis by (simp add: cn_pair_step_def)
    next
      case (Some j)
      have "i \<in> set (map fst (ca_info acc))" "j \<in> set (map fst (ca_info acc))"
        using Cons.prems(2) [of q] \<open>author_key (fst q) = Some i\<close> Some by auto
      with Cons.prems(1) \<open>author_key (fst q) = Some i\<close> Some show ?thesis
        by (auto simp: cn_pair_step_def cn_inv_def dict_incr_def list_all_iff min_def max_def
                 dest: set_dict_set_cases)
    qed
  qed
  then have "cn_inv (foldl cn_pair_step (cn_pair_step acc q) qs)"
  proof (rule Cons.IH)
    fix q' k
    assume "q' \<in> set qs" and "author_key (fst q') = Some k \<or> author_key (snd q') = Some k"
    then show "k \<in> set (map fst (ca_info (cn_pair_step acc q)))"
      using Cons.prems(2) [of q' k] by simp
  qed
  then show ?case by simp
qed

lemma pair_hits_key:
  "(case (case q of (a, b) \<Rightarrow> (case author_key a of None \<Rightarrow> None
          | Some x \<Rightarrow> (case author_key b of None \<Rightarrow> None | Some y \<Rightarrow> Some (x, y)))) of
      None \<Rightarrow> False | Some (a, b) \<Rightarrow> {a, b} = {u, v})
   = pair_hits (pair_key u v) q"
  by (cases q; cases "author_key (fst q)"; cases "author_key (snd q)")
     (simp_all add: pair_hits_def sorted_pair_eq del: prod.inject)

lemma pair_hits_count:
  "length (filter (pair_hits (pair_key u v)) (combinations2 as)) = pair_count (List.map_filter author_key as) u v"
  by (simp add: pair_count_def combinations2_map_filter length_filter_map_filter pair_hits_key)

section \<open>One row, all rows\<close>

lemma cn_authors_edges [simp]: "ca_edges (foldl (cn_add_author sd) acc as) = ca_edges acc"
  by (induction as arbitrary: acc) simp_all

lemma cn_authors_keys:
  "fst ` set (ca_info (foldl (cn_add_author sd) acc as)) = fst ` set (ca_info acc) \<union> set (List.map_filter author_key as)"
  by (induction as arbitrary: acc) (auto simp: cn_add_author_keys split: option.splits)

lemma cn_add_author_key_order:
  "map fst (ca_info (cn_add_author sd acc a))
     = first_seen (map fst (ca_info acc) @ (case author_key a of None \<Rightarrow> [] | Some k \<Rightarrow> [k]))"
  if "distinct (map fst (ca_info acc))"
  using that by (auto simp: cn_add_author_def keys_dict_set split: option.splits)

lemma cn_authors_key_order:
  "distinct (map fst (ca_info acc)) \<Longrightarrow>
   map fst (ca_info (foldl (cn_add_author sd) acc as)) = first_seen (map fst (ca_info acc) @ List.map_filter author_key as)"
proof (induction as rule: rev_induct)
  case Nil
  then show ?case by simp
next
  case (snoc a as)
  let ?acc = "foldl (cn_add_author sd) acc as"
  have "distinct (map fst (ca_info ?acc))" using snoc.IH snoc.prems by simp
  then have "map fst (ca_info (cn_add_author sd ?acc a))
             = first_seen (first_seen (map fst (ca_info acc) @ List.map_filter author_key as)
                           @ (case author_key a of None \<Rightarrow> [] | Some k \<Rightarrow> [k]))"
    by (simp add: cn_add_author_key_order snoc.IH snoc.prems)
  then show ?case by (simp add: first_seen_first_seen_append split: option.splits)
qed

lemma cn_authors_count:
  "cn_count (foldl (cn_add_author sd) acc as) x c
     = cn_count acc x c + (if c = sd then count_list (List.map_filter author_key as) x else 0)"
  by (induction as arbitrary: acc) (auto simp: cn_add_author_count split: option.splits)

lemma cn_authors_info:
  "map_of (ca_info (foldl (cn_add_author sd) acc as)) x
     = (case map_of (ca_info acc) x of Some c \<Rightarrow> Some c
        | None \<Rightarrow> map_option get_author_country (find (\<lambda>a. author_key a = Some x) as))"
  by (induction as arbitrary: acc) (auto simp: cn_add_author_info split: option.splits)

lemma cn_authors_inv: "cn_inv acc \<Longrightarrow> cn_inv (foldl (cn_add_author sd) acc as)"
  by (induction as arbitrary: acc) (simp_all add: cn_add_author_inv)

lemma cn_row_step_cases:
  "cn_row_step acc r = foldl cn_pair_step (foldl (cn_add_author (subfield_name r)) acc (row_authors r))
                                         (combinations2 (row_authors r))"
  by (simp add: cn_row_step_def row_authors_def split: option.splits)

lemma cn_row_step_edges:
  "dict_get_default 0 (pair_key u v) (ca_edges (cn_row_step acc r))
     = dict_get_default 0 (pair_key u v) (ca_edges acc) + pair_count (row_ids r) u v"
  by (simp add: cn_row_step_cases cn_pairs_edges pair_hits_count row_ids_row_authors)

lemma cn_row_step_keys:
  "fst ` set (ca_info (cn_row_step acc r)) = fst ` set (ca_info acc) \<union> set (row_ids r)"
  by (simp add: cn_row_step_cases cn_authors_keys row_ids_row_authors)

lemma cn_row_step_count:
  "cn_count (cn_row_step acc r) x c
     = cn_count acc x c + (if subfield_name r = c then count_list (row_ids r) x else 0)"
  by (auto simp: cn_row_step_cases cn_authors_count row_ids_row_authors)

lemma cn_row_step_info:
  "map_of (ca_info (cn_row_step acc r)) x
     = (case map_of (ca_info acc) x of Some c \<Rightarrow> Some c
        | None \<Rightarrow> map_option get_author_country (find (\<lambda>a. author_key a = Some x) (row_authors r)))"
  by (simp add: cn_row_step_cases cn_authors_info)

lemma cn_row_step_inv: "cn_inv acc \<Longrightarrow> cn_inv (cn_row_step acc r)"
proof -
  assume inv: "cn_inv acc"
  let ?as = "row_authors r"
  let ?acc1 = "foldl (cn_add_author (subfield_name r)) acc ?as"
  have inv1: "cn_inv ?acc1" using inv by (rule cn_authors_inv)
  have "cn_inv (foldl cn_pair_step ?acc1 (combinations2 ?as))"
  proof (rule cn_pairs_inv [OF inv1])
    fix q k
    assume q: "q \<in> set (combinations2 ?as)"
      and k: "author_key (fst q) = Some k \<or> author_key (snd q) = Some k"
    from q have "fst q \<in> set ?as \<and> snd q \<in> set ?as"
      using set_combinations2 [of "fst q" "snd q" ?as] by simp
    with k have "k \<in> set (List.map_filter author_key ?as)" by auto
    then show "k \<in> set (map fst (ca_info ?acc1))" by (simp add: cn_authors_keys)
  qed
  then show ?thesis by (simp add: cn_row_step_cases)
qed

lemma cn_rows_edges:
  "dict_get_default 0 (pair_key u v) (ca_edges (cn_rows acc rs))
     = dict_get_default 0 (pair_key u v) (ca_edges acc) + sum_list (map (\<lambda>r. pair_count (row_ids r) u v) rs)"
  by (induction rs arbitrary: acc) (simp_all add: cn_row_step_edges)

lemma cn_rows_keys:
  "fst ` set (ca_info (cn_rows acc rs)) = fst ` set (ca_info acc) \<union> set (concat (map row_ids rs))"
  by (induction rs arbitrary: acc) (auto simp: cn_row_step_keys)

lemma cn_rows_count:
  "cn_count (cn_rows acc rs) x c
     = cn_count acc x c + sum_list (map (\<lambda>r. if subfield_name r = c then count_list (row_ids r) x else 0) rs)"
  by (induction rs arbitrary: acc) (simp_all add: cn_row_step_count)

lemma cn_rows_info:
  "map_of (ca_info (cn_rows acc rs)) x
     = (case map_of (ca_info acc) x of Some c \<Rightarrow> Some c
        | None \<Rightarrow> map_option get_author_country (find (\<lambda>a. author_key a = Some x) (concat (map row_authors rs))))"
  by (induction rs arbitrary: acc) (auto simp: cn_row_step_info find_append_split split: option.splits)

lemma cn_rows_key_order:
  "cn_inv acc \<Longrightarrow>
   map fst (ca_info (cn_rows acc rs)) = first_seen (map fst (ca_info acc) @ concat (map row_ids rs))"
proof (induction rs arbitrary: acc)
  case Nil
  then show ?case by (simp add: cn_inv_def)
next
  case (Cons r rs)
  have inv: "cn_inv (cn_row_step acc r)" using Cons.prems by (rule cn_row_step_inv)
  have "map fst (ca_info (cn_row_step acc r)) = first_seen (map fst (ca_info acc) @ row_ids r)"
    using Cons.prems by (simp add: cn_row_step_cases cn_authors_key_order row_ids_row_authors cn_inv_def)
  then show ?case
    using Cons.IH [OF inv] by (simp add: first_seen_first_seen_append)
qed

lemma cn_rows_inv: "cn_inv acc \<Longrightarrow> cn_inv (cn_rows acc rs)"
  by (induction rs arbitrary: acc) (simp_all add: cn_row_step_inv)

lemma cn_inv_init [simp]: "cn_inv cn_init"
  by (simp add: cn_inv_def cn_init_def)

lemma cn_init_simps [simp]: "ca_info cn_init = []" "ca_counts cn_init = []" "ca_edges cn_init = []"
  by (simp_all add: cn_init_def)

section \<open>The graph built from the dictionaries\<close>

lemma g_edges_add_nodes [simp]: "g_edges (foldl (\<lambda>G (k, c). add_node G k (f k c)) G xs) = g_edges G"
  by (induction xs arbitrary: G) auto

lemma node_attr_add_nodes:
  "distinct (map fst xs) \<Longrightarrow>
   node_attr (foldl (\<lambda>G (k, c). add_node G k (f k c)) G xs) x
     = (case map_of xs x of None \<Rightarrow> node_attr G x | Some c \<Rightarrow> Some (f x c))"
  by (induction xs arbitrary: G) (force split: option.splits)+

lemma g_nodes_add_nodes:
  "distinct (map fst xs) \<Longrightarrow>
   map fst (g_nodes (foldl (\<lambda>G (k, c). add_node G k (f k c)) nx_empty xs)) = map fst xs"
proof -
  have "distinct (map fst xs) \<Longrightarrow> set (map fst xs) \<inter> set (map fst (g_nodes G)) = {} \<Longrightarrow>
        map fst (g_nodes (foldl (\<lambda>G (k, c). add_node G k (f k c)) G xs)) = map fst (g_nodes G) @ map fst xs"
    for G
    by (induction xs arbitrary: G) (auto simp: add_node_def keys_dict_set)
  then show "distinct (map fst xs) \<Longrightarrow> ?thesis" by simp
qed

lemma graph_wf_add_nodes: "graph_wf G \<Longrightarrow> graph_wf (foldl (\<lambda>G (k, c). add_node G k (f k c)) G xs)"
  by (induction xs arbitrary: G) (auto intro: graph_wf_add_node)

lemma sorted_key_eq: "a \<le> b \<Longrightarrow> (a, b) = pair_key u v \<longleftrightarrow> {a, b} = {u, v}"
  using sorted_pair_eq [of a b u v] by (simp add: min_def max_def)

lemma weight_add_edges:
  "list_all (\<lambda>((a, b), w). a \<le> b) es \<Longrightarrow> distinct (map fst es) \<Longrightarrow>
   weight (foldl (\<lambda>G ((a, b), w). add_edge G a b w) G es) u v
     = (if pair_key u v \<in> fst ` set es then dict_get_default 0 (pair_key u v) es else weight G u v)"
proof (induction es arbitrary: G)
  case Nil
  then show ?case by simp
next
  case (Cons e es)
  obtain a b w where e: "e = ((a, b), w)" by (cases e) auto
  with Cons.prems have ab: "a \<le> b" and fresh: "(a, b) \<notin> fst ` set es" by auto
  from Cons.prems have sorted: "list_all (\<lambda>((a, b), w). a \<le> b) es" and dist: "distinct (map fst es)"
    by simp_all
  have IH: "weight (foldl (\<lambda>G ((a, b), w). add_edge G a b w) (add_edge G a b w) es) u v
     = (if pair_key u v \<in> fst ` set es then dict_get_default 0 (pair_key u v) es
        else weight (add_edge G a b w) u v)"
    using sorted dist by (rule Cons.IH)
  show ?case
  proof (cases "(a, b) = pair_key u v")
    case True
    then have "{a, b} = {u, v}" using sorted_key_eq [OF ab] by blast
    with True fresh e IH show ?thesis by (simp add: weight_add_edge)
  next
    case False
    then have "{a, b} \<noteq> {u, v}" using sorted_key_eq [OF ab] by blast
    with False e IH show ?thesis by (auto simp: weight_add_edge)
  qed
qed

lemma g_nodes_add_edges [simp]: "g_nodes (foldl (\<lambda>G ((a, b), w). add_edge G a b w) G es) = g_nodes G"
  by (induction es arbitrary: G) auto

lemma graph_wf_add_edges:
  "graph_wf G \<Longrightarrow> list_all (\<lambda>((a, b), w). 0 < w \<and> has_node G a \<and> has_node G b) es \<Longrightarrow>
   graph_wf (foldl (\<lambda>G ((a, b), w). add_edge G a b w) G es)"
proof (induction es arbitrary: G)
  case Nil
  then show ?case by simp
next
  case (Cons e es)
  obtain a b w where e: "e = ((a, b), w)" by (cases e) auto
  with Cons.prems have "graph_wf (add_edge G a b w)" by (auto intro: graph_wf_add_edge)
  moreover from Cons.prems e have "list_all (\<lambda>((a, b), w). 0 < w \<and> has_node (add_edge G a b w) a \<and> has_node (add_edge G a b w) b) es"
    by simp
  ultimately show ?case using e by (simp add: Cons.IH)
qed

abbreviation cn_node_of :: "collab_acc \<Rightarrow> string \<Rightarrow> string \<Rightarrow> collab_node" where
  "cn_node_of acc k c \<equiv> \<lparr>cn_label1 = c,
     cn_label2 = determine_primary_subfield (Some ''Unknown'') (dict_get_default [] k (ca_counts acc))\<rparr>"

lemma cn_graph_unfold:
  "cn_graph acc = foldl (\<lambda>G ((a, b), w). add_edge G a b w)
       (foldl (\<lambda>G (k, c). add_node G k (cn_node_of acc k c)) nx_empty (ca_info acc)) (ca_edges acc)"
  by (simp add: cn_graph_def)

lemma cn_graph_weight:
  assumes inv: "cn_inv acc"
  shows "weight (cn_graph acc) u v = dict_get_default 0 (pair_key u v) (ca_edges acc)"
proof -
  have sorted: "list_all (\<lambda>((a, b), w). a \<le> b) (ca_edges acc)"
    using inv by (auto simp: cn_inv_def elim!: list.pred_mono_strong)
  have dist: "distinct (map fst (ca_edges acc))" using inv by (simp add: cn_inv_def)
  show ?thesis
    by (simp add: cn_graph_unfold weight_add_edges [OF sorted dist] dict_get_default_notin)
qed

lemma cn_graph_node_attr:
  "cn_inv acc \<Longrightarrow> node_attr (cn_graph acc) x = map_option (cn_node_of acc x) (map_of (ca_info acc) x)"
  by (simp add: cn_graph_unfold cn_inv_def node_attr_add_nodes nx_empty_def split: option.splits)

lemma cn_graph_nodes:
  "cn_inv acc \<Longrightarrow> map fst (g_nodes (cn_graph acc)) = map fst (ca_info acc)"
  by (simp add: cn_graph_unfold cn_inv_def g_nodes_add_nodes)

lemma cn_graph_wf: "cn_inv acc \<Longrightarrow> graph_wf (cn_graph acc)"
proof -
  assume inv: "cn_inv acc"
  let ?G = "foldl (\<lambda>G (k, c). add_node G k (cn_node_of acc k c)) nx_empty (ca_info acc)"
  have wf: "graph_wf ?G" by (simp add: graph_wf_add_nodes)
  have "has_node ?G k \<longleftrightarrow> k \<in> fst ` set (ca_info acc)" for k
    using inv by (force simp: has_node_node_attr node_attr_add_nodes cn_inv_def nx_empty_def
                      map_of_eq_None_iff split: option.splits)
  with inv have "list_all (\<lambda>((a, b), w). 0 < w \<and> has_node ?G a \<and> has_node ?G b) (ca_edges acc)"
    by (auto simp: cn_inv_def list_all_iff)
  with wf show ?thesis by (simp add: cn_graph_unfold graph_wf_add_edges)
qed

lemma cn_build_inv: "cn_inv (cn_rows cn_init rows)"
  by (rule cn_rows_inv [OF cn_inv_init])

lemma cn_build_info:
  "map_of (ca_info (cn_rows cn_init rows)) x
     = map_option get_author_country (find (\<lambda>a. author_key a = Some x) (concat (map row_authors rows)))"
  by (simp add: cn_rows_info)

lemma subfield_name_display: "row_subfield r = Some sd \<Longrightarrow> sf_display_name sd = Str t \<Longrightarrow> subfield_name r = Some t"
  by (simp add: subfield_name_def)

section \<open>The collaboration network\<close>

text \<open>
  C2. The sorted-pair dictionary refines the edge count: the weight of the edge
  \<open>{u, v}\<close> of the collaboration network is the number of times the pair occurs
  among the pairs of co-listed author ids, summed over the rows whose authorships
  parse, the same count as the incremental update of the full network.
\<close>

theorem build_collaboration_network_weight:
  "weight (build_collaboration_network rows) u v = sum_list (map (\<lambda>r. pair_count (row_ids r) u v) rows)"
  by (simp add: build_collaboration_network_def cn_graph_weight [OF cn_build_inv] cn_rows_edges)

text \<open>
  The nodes of the collaboration network are the author ids of the rows, each
  once, in the order in which the rows first list them.
\<close>

theorem build_collaboration_network_nodes:
  "map fst (g_nodes (build_collaboration_network rows)) = first_seen (concat (map row_ids rows))"
  using cn_rows_key_order [OF cn_inv_init, of rows]
  by (simp add: build_collaboration_network_def cn_graph_nodes [OF cn_build_inv])

text \<open>
  C6. Node labels: \<open>label1\<close> is the country of the first author entry, over the
  rows in order, that carries the node's id, and \<open>label2\<close> is the first subfield
  of maximum count in the node's count dictionary; ids never listed have no node.
\<close>

theorem build_collaboration_network_labels:
  "node_attr (build_collaboration_network rows) x
     = map_option (\<lambda>a. \<lparr>cn_label1 = get_author_country a,
                          cn_label2 = first_max (Some ''Unknown'')
                                        (dict_get_default [] x (ca_counts (cn_rows cn_init rows)))\<rparr>)
                  (find (\<lambda>a. author_key a = Some x) (concat (map row_authors rows)))"
  by (simp add: build_collaboration_network_def cn_graph_node_attr [OF cn_build_inv] cn_build_info
                option.map_comp o_def determine_primary_subfield_first_max)

text \<open>
  The builder's inline count update is the module's helper
  \<open>update_author_subfield_counts\<close>: the author loop of one row leaves the count
  dictionary that the helper computes.
\<close>

theorem cn_authors_update_counts:
  "ca_counts (foldl (cn_add_author sd) acc as) = update_author_subfield_counts (ca_counts acc) as sd"
proof (induction as arbitrary: acc)
  case Nil
  then show ?case by (simp add: update_author_subfield_counts_def)
next
  case (Cons a as)
  then show ?case
    by (cases "author_key a") (simp_all add: update_author_subfield_counts_def cn_add_author_def)
qed

text \<open>
  The count dictionary of the collaboration builder: author \<open>x\<close>'s count for
  subfield \<open>c\<close> is the number of times \<open>x\<close> is listed in rows whose subfield
  name is \<open>c\<close> (\<open>"Unknown"\<close> for a missing or unparsable subfield).
\<close>

theorem cn_rows_counts_init:
  "cn_count (cn_rows cn_init rows) x c
     = sum_list (map (\<lambda>r. if subfield_name r = c then count_list (row_ids r) x else 0) rows)"
  by (simp add: cn_rows_count)

text \<open>The collaboration network is simple, with positive weights and edges between nodes.\<close>

theorem build_collaboration_network_wf: "graph_wf (build_collaboration_network rows)"
  by (simp add: build_collaboration_network_def cn_graph_wf [OF cn_build_inv])

text \<open>
  The network of \<open>main\<close>: an author is a node exactly when some row with
  more than 100 citations lists the author's id; a row with no citation count is
  left out and does not raise.
\<close>

theorem construct_network_main_nodes:
  "has_node (construct_network_main rows) x
     \<longleftrightarrow> (\<exists>r \<in> set rows. (case row_cited_by_count r of None \<Rightarrow> False | Some c \<Rightarrow> 100 < c)
                         \<and> x \<in> set (row_ids r))"
proof -
  have "has_node (construct_network_main rows) x
        \<longleftrightarrow> x \<in> set (map fst (g_nodes (build_collaboration_network (filter_publications_by_citation_count rows 100))))"
    by (simp add: construct_network_main_def has_node_def)
  also have "\<dots> \<longleftrightarrow> x \<in> set (concat (map row_ids (filter_publications_by_citation_count rows 100)))"
    using cn_rows_key_order [OF cn_inv_init]
    by (simp add: build_collaboration_network_def cn_graph_nodes [OF cn_build_inv])
  finally show ?thesis by (auto simp: filter_publications_by_citation_count_def)
qed

text \<open>
  The subfield filter, when it does not raise, keeps only rows of the given
  subfield: rows of the input whose subfield the builder reads as the target.
\<close>

theorem filter_subfielf_publications_kept:
  assumes "filter_subfielf_publications rows t = Inr kept"
  shows "set kept \<subseteq> set rows \<and> list_all (\<lambda>r. subfield_name r = Some t) kept"
proof -
  from assms have kept: "kept = filter (\<lambda>r. case row_subfield r of None \<Rightarrow> False
                             | Some sd \<Rightarrow> py_get (sf_display_name sd) = Some t) rows"
    by (simp add: filter_subfielf_publications_def split: if_splits)
  have "subfield_name r = Some t" if "r \<in> set kept" for r
  proof -
    from that kept obtain sd where sd: "row_subfield r = Some sd" and g: "py_get (sf_display_name sd) = Some t"
      by (auto split: option.splits)
    from g have "sf_display_name sd = Str t" by (cases "sf_display_name sd") auto
    with sd show ?thesis by (rule subfield_name_display)
  qed
  with kept show ?thesis by (auto simp: list_all_iff)
qed

theorem filter_subfielf_publications_kept_witness:
  "set [sample_row ''W1'' [''A''] ''AI''] \<subseteq> set [sample_row ''W1'' [''A''] ''AI'', sample_row ''W2'' [''B''] ''DB'']
   \<and> list_all (\<lambda>r. subfield_name r = Some ''AI'') [sample_row ''W1'' [''A''] ''AI'']"
proof -
  have "filter_subfielf_publications [sample_row ''W1'' [''A''] ''AI'', sample_row ''W2'' [''B''] ''DB''] ''AI''
        = Inr [sample_row ''W1'' [''A''] ''AI'']"
    by (simp add: filter_subfielf_publications_def sample_row_def)
  then show ?thesis by (rule filter_subfielf_publications_kept)
qed



text \<open>
  The citation filter of the specification's example: with threshold 100, of
  the rows with 50 citations, 150 citations and no count, only the second is kept.
\<close>

theorem filter_publications_by_citation_count_example:
  "filter_publications_by_citation_count
     [sample_row ''W1'' [''A''] ''AI''\<lparr>row_cited_by_count := Some 50\<rparr>,
      sample_row ''W2'' [''B''] ''AI''\<lparr>row_cited_by_count := Some 150\<rparr>,
      sample_row ''W3'' [''C''] ''AI''] 100
   = [sample_row ''W2'' [''B''] ''AI''\<lparr>row_cited_by_count := Some 150\<rparr>]"
  by (simp add: filter_publications_by_citation_count_def sample_row_def)

end
