(* ===== verification/SubfieldNet.thy ===== *)
theory SubfieldNet
  imports Records Graph
begin

text \<open>
  \<open>src/src/construct_networks_open_alex.py\<close>: \<open>main\<close> groups the rows by the
  \<open>id\<close> of their subfield (rows whose subfield column does not parse are skipped),
  and writes one network per group, built by \<open>build_network_for_subfield\<close>, to a
  file named after the subfield id with \<open>'/'\<close> replaced by \<open>'_'\<close>.  The builder
  is the full network's row loop without the subfield counts and with a guard
  that skips rows with fewer than two author entries.
  The theory proves what each group holds, the weights and nodes of each group's
  network, that the groups' weights add up to the weights over all grouped rows,
  what the output file names are, and where \<open>main\<close> stops on a \<open>null\<close> id.
\<close>

record sub_node =
  sn_label :: "string option"
  sn_name :: "string option"

text \<open>\<open>G.add_node(a_id, label=a_name, name=a_name)\<close> with \<open>a_name = author.get("name", "")\<close>.\<close>

definition sub_node_of :: "authorship \<Rightarrow> sub_node" where
  "sub_node_of a = \<lparr>sn_label = py_get_or [] (au_name a), sn_name = py_get_or [] (au_name a)\<rparr>"

text \<open>One iteration of \<open>for author in authors\<close>: the node on first sight, the id collected.\<close>

definition sn_add_author ::
  "(string, sub_node) nxgraph \<times> string list \<Rightarrow> authorship \<Rightarrow> (string, sub_node) nxgraph \<times> string list" where
  "sn_add_author st a =
     (case author_key a of
        None \<Rightarrow> st
      | Some k \<Rightarrow>
          (let (G, ids) = st
           in (if has_node G k then G else add_node G k (sub_node_of a), ids @ [k])))"

text \<open>One iteration of \<open>for _, pub in publications.iterrows()\<close>, with the guard \<open>len(authors) < 2\<close>.\<close>

definition sn_row_step :: "(string, sub_node) nxgraph \<Rightarrow> pub_row \<Rightarrow> (string, sub_node) nxgraph" where
  "sn_row_step G r =
     (case row_authorships r of
        None \<Rightarrow> G
      | Some authors \<Rightarrow>
          (if length authors < 2 then G
           else (let (G1, ids) = foldl sn_add_author (G, []) authors in bump_pairs G1 ids)))"

definition build_network_for_subfield :: "pub_row list \<Rightarrow> (string, sub_node) nxgraph" where
  "build_network_for_subfield rows = foldl sn_row_step nx_empty rows"

text \<open>
  The group key and display name of a row: \<open>subfield_data.get("id", "unknown")\<close>
  and \<open>subfield_data.get("display_name", "unknown")\<close>; \<open>None\<close> when the column
  does not parse and the row is skipped.  A \<open>null\<close> id is Python's \<open>None\<close>.
\<close>

definition subfield_group_key :: "pub_row \<Rightarrow> (cat \<times> cat) option" where
  "subfield_group_key r =
     (case row_subfield r of
        None \<Rightarrow> None
      | Some sd \<Rightarrow> Some (py_get_or ''unknown'' (sf_id sd), py_get_or ''unknown'' (sf_display_name sd)))"

text \<open>One iteration of the grouping loop: a new group keeps the first display name.\<close>

definition sn_group_step ::
  "(cat, cat \<times> pub_row list) pydict \<Rightarrow> pub_row \<Rightarrow> (cat, cat \<times> pub_row list) pydict" where
  "sn_group_step groups r =
     (case subfield_group_key r of
        None \<Rightarrow> groups
      | Some (k, dn) \<Rightarrow>
          (let groups1 = (if k \<in> set (map fst groups) then groups else dict_set k (dn, []) groups);
               (d, rs) = dict_get_default (dn, []) k groups1
           in dict_set k (d, rs @ [r]) groups1))"

definition subfield_groups :: "pub_row list \<Rightarrow> (cat, cat \<times> pub_row list) pydict" where
  "subfield_groups rows = foldl sn_group_step [] rows"

text \<open>
  \<open>os.path.join(OUTPUT_DIR, f"{subfield_id.replace('/', '_')}_network.gexf")\<close>;
  on a \<open>None\<close> id the call \<open>.replace\<close> raises \<open>AttributeError\<close>, outside any
  \<open>try\<close>.
\<close>

definition OUTPUT_DIR :: string where
  "OUTPUT_DIR = ''../data/graphs/open_alex/''"

definition gexf_name :: "string \<Rightarrow> string" where
  "gexf_name s = OUTPUT_DIR @ py_replace ''/'' ''_'' s @ ''_network.gexf''"

definition gexf_file_name :: "cat \<Rightarrow> py_exception + string" where
  "gexf_file_name k = (case k of None \<Rightarrow> Inl AttributeError | Some s \<Rightarrow> Inr (gexf_name s))"

text \<open>
  The export loop of \<open>main\<close>: the files written, in order, and the error that ends
  the loop, if any; groups before the failing one have been written.
\<close>

fun sn_export ::
  "(cat, cat \<times> pub_row list) pydict \<Rightarrow> (string \<times> (string, sub_node) nxgraph) list \<times> py_exception option" where
  "sn_export [] = ([], None)"
| "sn_export ((k, d, rs) # gs) =
     (case gexf_file_name k of
        Inl e \<Rightarrow> ([], Some e)
      | Inr f \<Rightarrow> (let (outs, err) = sn_export gs in ((f, build_network_for_subfield rs) # outs, err)))"

definition subfield_networks_main ::
  "pub_row list \<Rightarrow> (string \<times> (string, sub_node) nxgraph) list \<times> py_exception option" where
  "subfield_networks_main rows = sn_export (subfield_groups rows)"

text \<open>The group key of a row, and whether the builder's guard lets the row through.\<close>

abbreviation group_of :: "pub_row \<Rightarrow> cat option" where
  "group_of r \<equiv> map_option fst (subfield_group_key r)"

definition two_authors :: "pub_row \<Rightarrow> bool" where
  "two_authors r = (case row_authorships r of None \<Rightarrow> False | Some as \<Rightarrow> 2 \<le> length as)"

section \<open>The builder\<close>

lemma sn_add_author_simps:
  "snd (sn_add_author (G, ids) a) = ids @ (case author_key a of None \<Rightarrow> [] | Some k \<Rightarrow> [k])"
  "g_edges (fst (sn_add_author (G, ids) a)) = g_edges G"
  "has_node (fst (sn_add_author (G, ids) a)) x = (has_node G x \<or> author_key a = Some x)"
  by (auto simp: sn_add_author_def split: option.splits)

lemma sn_add_author_wf: "graph_wf G \<Longrightarrow> graph_wf (fst (sn_add_author (G, ids) a))"
  by (auto simp: sn_add_author_def graph_wf_add_node split: option.splits)

lemma sn_foldl_ids: "snd (foldl sn_add_author (G, ids) as) = ids @ List.map_filter author_key as"
proof (induction as arbitrary: G ids)
  case Nil
  then show ?case by simp
next
  case (Cons a as)
  obtain G' ids' where st: "sn_add_author (G, ids) a = (G', ids')" by (cases "sn_add_author (G, ids) a")
  then have "ids' = ids @ (case author_key a of None \<Rightarrow> [] | Some k \<Rightarrow> [k])"
    using sn_add_author_simps(1) [of G ids a] by simp
  with st show ?case using Cons.IH [of G' ids'] by (simp split: option.splits)
qed

lemma sn_foldl_edges: "g_edges (fst (foldl sn_add_author (G, ids) as)) = g_edges G"
proof (induction as arbitrary: G ids)
  case Nil
  then show ?case by simp
next
  case (Cons a as)
  obtain G' ids' where st: "sn_add_author (G, ids) a = (G', ids')" by (cases "sn_add_author (G, ids) a")
  then have "g_edges G' = g_edges G" using sn_add_author_simps(2) [of G ids a] by simp
  with st show ?case using Cons.IH [of G' ids'] by simp
qed

lemma sn_foldl_has_node:
  "has_node (fst (foldl sn_add_author (G, ids) as)) x = (has_node G x \<or> x \<in> set (List.map_filter author_key as))"
proof (induction as arbitrary: G ids)
  case Nil
  then show ?case by simp
next
  case (Cons a as)
  obtain G' ids' where st: "sn_add_author (G, ids) a = (G', ids')" by (cases "sn_add_author (G, ids) a")
  then have "has_node G' x = (has_node G x \<or> author_key a = Some x)"
    using sn_add_author_simps(3) [of G ids a] by simp
  with st show ?case using Cons.IH [of G' ids'] by (auto split: option.splits)
qed

lemma sn_foldl_wf: "graph_wf G \<Longrightarrow> graph_wf (fst (foldl sn_add_author (G, ids) as))"
proof (induction as arbitrary: G ids)
  case Nil
  then show ?case by simp
next
  case (Cons a as)
  obtain G' ids' where st: "sn_add_author (G, ids) a = (G', ids')" by (cases "sn_add_author (G, ids) a")
  from sn_add_author_wf [OF Cons.prems, of ids a] st have "graph_wf G'" by simp
  with st show ?case by (simp add: Cons.IH)
qed

lemma sn_row_step_cases:
  "sn_row_step G r = (if two_authors r then bump_pairs (fst (foldl sn_add_author (G, []) (row_authors r))) (row_ids r) else G)"
proof (cases "row_authorships r")
  case None
  then show ?thesis by (simp add: sn_row_step_def two_authors_def)
next
  case (Some as)
  then show ?thesis
    by (simp add: sn_row_step_def two_authors_def Let_def case_prod_beta sn_foldl_ids)
qed

lemma sn_row_step_weight:
  "weight (sn_row_step G r) u v = weight G u v + (if two_authors r then pair_count (row_ids r) u v else 0)"
  by (simp add: sn_row_step_cases weight_bump_pairs sn_foldl_edges)

lemma sn_row_step_has_node:
  "has_node (sn_row_step G r) x = (has_node G x \<or> (two_authors r \<and> x \<in> set (row_ids r)))"
  by (auto simp: sn_row_step_cases sn_foldl_has_node row_ids_row_authors)

lemma sn_row_step_wf: "graph_wf G \<Longrightarrow> graph_wf (sn_row_step G r)"
proof -
  assume wf: "graph_wf G"
  let ?G1 = "fst (foldl sn_add_author (G, []) (row_authors r))"
  have "graph_wf ?G1" using wf by (rule sn_foldl_wf)
  moreover have "list_all (has_node ?G1) (row_ids r)"
    by (simp add: sn_foldl_has_node row_ids_row_authors list_all_iff)
  ultimately have "graph_wf (bump_pairs ?G1 (row_ids r))" by (rule graph_wf_bump_pairs)
  with wf show ?thesis by (simp add: sn_row_step_cases)
qed

lemma sn_rows_weight:
  "weight (foldl sn_row_step G rows) u v
     = weight G u v + sum_list (map (\<lambda>r. if two_authors r then pair_count (row_ids r) u v else 0) rows)"
  by (induction rows arbitrary: G) (simp_all add: sn_row_step_weight)

lemma sn_rows_has_node:
  "has_node (foldl sn_row_step G rows) x = (has_node G x \<or> (\<exists>r \<in> set rows. two_authors r \<and> x \<in> set (row_ids r)))"
  by (induction rows arbitrary: G) (auto simp: sn_row_step_has_node)

lemma sn_rows_wf: "graph_wf G \<Longrightarrow> graph_wf (foldl sn_row_step G rows)"
  by (induction rows arbitrary: G) (simp_all add: sn_row_step_wf)

section \<open>The grouping\<close>

lemma subfield_groups_snoc: "subfield_groups (rows @ [r]) = sn_group_step (subfield_groups rows) r"
  by (simp add: subfield_groups_def)

lemma dict_set_absent: "k \<notin> fst ` set g \<Longrightarrow> dict_set k v g = g @ [(k, v)]"
  by (induction g) auto

lemma sn_group_step_keys:
  "map fst (sn_group_step g r)
     = (case group_of r of None \<Rightarrow> map fst g | Some k \<Rightarrow> if k \<in> set (map fst g) then map fst g else map fst g @ [k])"
  by (auto simp: sn_group_step_def Let_def case_prod_beta keys_dict_set split: option.splits)

lemma sn_group_step_lookup:
  "map_of (sn_group_step g r) k
     = (case subfield_group_key r of
          None \<Rightarrow> map_of g k
        | Some (k', dn) \<Rightarrow>
            if k' \<noteq> k then map_of g k
            else (case map_of g k of None \<Rightarrow> Some (dn, [r]) | Some (d, rs) \<Rightarrow> Some (d, rs @ [r])))"
  by (auto simp: sn_group_step_def Let_def case_prod_beta dict_get_default_def map_of_eq_None_iff
           dest: map_of_Some_key split: option.splits)

lemma find_None_filter: "find P xs = None \<Longrightarrow> filter P xs = []"
  by (simp add: find_None_iff filter_empty_conv)

text \<open>
  The groups of \<open>main\<close> are the subfield ids of the rows whose subfield
  column parses, each once, in the order first seen.
\<close>

theorem subfield_groups_keys:
  "map fst (subfield_groups rows) = first_seen (List.map_filter group_of rows)"
proof (induction rows rule: rev_induct)
  case Nil
  then show ?case by (simp add: subfield_groups_def)
next
  case (snoc r rows)
  then show ?case
    by (simp add: subfield_groups_snoc sn_group_step_keys split: option.splits)
qed

text \<open>
  Each group holds exactly the rows of its subfield id, in input order, and
  keeps the display name of the first of them; an id no row has has no group.
\<close>

theorem subfield_groups_lookup:
  "map_of (subfield_groups rows) k
     = map_option (\<lambda>r0. (snd (the (subfield_group_key r0)), filter (\<lambda>r. group_of r = Some k) rows))
                  (find (\<lambda>r. group_of r = Some k) rows)"
proof (induction rows rule: rev_induct)
  case Nil
  then show ?case by (simp add: subfield_groups_def)
next
  case (snoc r rows)
  show ?case
  proof (cases "subfield_group_key r")
    case None
    with snoc.IH show ?thesis
      by (simp add: subfield_groups_snoc sn_group_step_lookup find_append_split split: option.splits)
  next
    case (Some p)
    obtain k' dn where p: "p = (k', dn)" by (cases p)
    show ?thesis
    proof (cases "k' = k")
      case False
      with snoc.IH Some p show ?thesis
        by (simp add: subfield_groups_snoc sn_group_step_lookup find_append_split split: option.splits)
    next
      case True
      with snoc.IH Some p show ?thesis
        by (auto simp: subfield_groups_snoc sn_group_step_lookup find_append_split find_None_filter
                 split: option.splits)
    qed
  qed
qed

lemma sum_dict_set_update:
  fixes F :: "'k \<times> 'v \<Rightarrow> nat"
  shows "map_of g k = Some v \<Longrightarrow> sum_list (map F (dict_set k v' g)) + F (k, v) = sum_list (map F g) + F (k, v')"
  by (induction g) (auto split: if_splits)

lemma sn_group_step_sum:
  fixes f :: "pub_row \<Rightarrow> nat"
  shows "sum_list (map (\<lambda>(k, d, rs). sum_list (map f rs)) (sn_group_step g r))
     = sum_list (map (\<lambda>(k, d, rs). sum_list (map f rs)) g) + (if group_of r = None then 0 else f r)"
proof (cases "subfield_group_key r")
  case None
  then show ?thesis by (simp add: sn_group_step_def)
next
  case (Some p)
  obtain k dn where p: "p = (k, dn)" by (cases p)
  let ?F = "\<lambda>(k :: cat, d :: cat, rs). sum_list (map f rs)"
  let ?g1 = "if k \<in> set (map fst g) then g else dict_set k (dn, []) g"
  have "map_of ?g1 k \<noteq> None"
    by (cases "map_of g k") (auto simp: map_of_eq_None_iff dest: map_of_Some_key)
  then obtain d rs where drs: "map_of ?g1 k = Some (d, rs)" by auto
  have g1: "sum_list (map ?F ?g1) = sum_list (map ?F g)"
    by (auto simp: dict_set_absent)
  have "sum_list (map ?F (dict_set k (d, rs @ [r]) ?g1)) + ?F (k, d, rs) = sum_list (map ?F ?g1) + ?F (k, d, rs @ [r])"
    using drs by (rule sum_dict_set_update [where F = "\<lambda>(k :: cat, d :: cat, rs). sum_list (map f rs)"])
  then have "sum_list (map ?F (dict_set k (d, rs @ [r]) ?g1)) = sum_list (map ?F g) + f r"
    using g1 by simp
  moreover have "sn_group_step g r = dict_set k (d, rs @ [r]) ?g1"
    using Some p drs by (simp add: sn_group_step_def Let_def dict_get_default_def)
  ultimately show ?thesis using Some p by simp
qed

lemma subfield_groups_sum:
  fixes f :: "pub_row \<Rightarrow> nat"
  shows "sum_list (map (\<lambda>(k, d, rs). sum_list (map f rs)) (subfield_groups rows))
     = sum_list (map f (filter (\<lambda>r. group_of r \<noteq> None) rows))"
  by (induction rows rule: rev_induct) (simp_all add: subfield_groups_def sn_group_step_sum)

lemma build_network_for_subfield_weight_sum:
  "weight (build_network_for_subfield rows) u v
     = sum_list (map (\<lambda>r. if two_authors r then pair_count (row_ids r) u v else 0) rows)"
  by (simp add: build_network_for_subfield_def sn_rows_weight)

lemma subfield_groups_key_set: "fst ` set (subfield_groups rows) = set (List.map_filter group_of rows)"
  by (induction rows rule: rev_induct)
     (auto simp: subfield_groups_def sn_group_step_def Let_def case_prod_beta split: option.splits)

lemma sn_export_takeWhile:
  "sn_export gs = (map (\<lambda>(k, d, rs). (gexf_name (the k), build_network_for_subfield rs))
                       (takeWhile (\<lambda>(k, _). k \<noteq> None) gs),
                   if list_ex (\<lambda>(k, _). k = None) gs then Some AttributeError else None)"
  by (induction gs rule: sn_export.induct) (auto simp: gexf_file_name_def split: option.splits)

section \<open>The per-subfield networks\<close>

text \<open>
  C10. The partition adds up: summed over the groups, the weight of \<open>{u, v}\<close> in
  the groups' networks is its weight in the network built from all rows whose
  subfield parses, so no co-authorship is lost or counted twice by the split.
\<close>

theorem subfield_networks_weight_sum:
  "sum_list (map (\<lambda>(k, d, rs). weight (build_network_for_subfield rs) u v) (subfield_groups rows))
     = weight (build_network_for_subfield (filter (\<lambda>r. group_of r \<noteq> None) rows)) u v"
  by (simp add: build_network_for_subfield_weight_sum subfield_groups_sum)

lemma subfield_networks_main_error:
  "snd (subfield_networks_main rows)
     = (if list_ex (\<lambda>r. group_of r = Some None) rows then Some AttributeError else None)"
proof -
  have "list_ex (\<lambda>(k, _). k = None) (subfield_groups rows) \<longleftrightarrow> None \<in> fst ` set (subfield_groups rows)"
    by (force simp: list_ex_iff)
  also have "\<dots> \<longleftrightarrow> list_ex (\<lambda>r. group_of r = Some None) rows"
    by (simp only: subfield_groups_key_set set_map_filter_iff list_ex_iff)
  finally show ?thesis by (simp add: subfield_networks_main_def sn_export_takeWhile)
qed

text \<open>
  C14. A node of a subfield network exists exactly for an author id listed by a
  row of the group with at least two author entries: the \<open>len(authors) < 2\<close>
  guard drops the authors of single-author publications.
\<close>

theorem build_network_for_subfield_nodes:
  "has_node (build_network_for_subfield rows) x \<longleftrightarrow> list_ex (\<lambda>r. two_authors r \<and> x \<in> set (row_ids r)) rows"
  by (simp add: build_network_for_subfield_def sn_rows_has_node list_ex_iff)

text \<open>
  C24. What \<open>main\<close> writes: one file per group in the order of the groups, up to
  the first group whose subfield id is \<open>null\<close>; there \<open>subfield_id.replace\<close>
  raises and ends the run, so the groups after it are never written.
\<close>

theorem subfield_networks_main_exports:
  "subfield_networks_main rows
     = (map (\<lambda>(k, d, rs). (gexf_name (the k), build_network_for_subfield rs))
            (takeWhile (\<lambda>(k, _). k \<noteq> None) (subfield_groups rows)),
        if list_ex (\<lambda>r. group_of r = Some None) rows then Some AttributeError else None)"
proof -
  have "list_ex (\<lambda>(k, _). k = None) (subfield_groups rows) \<longleftrightarrow> None \<in> fst ` set (subfield_groups rows)"
    by (force simp: list_ex_iff)
  also have "\<dots> \<longleftrightarrow> list_ex (\<lambda>r. group_of r = Some None) rows"
    by (simp only: subfield_groups_key_set set_map_filter_iff list_ex_iff)
  finally show ?thesis by (simp add: subfield_networks_main_def sn_export_takeWhile)
qed

text \<open>
  C31. Output file names are path-safe but not injective: the name is the output
  directory, the id with every \<open>'/'\<close> replaced, and the suffix, so no \<open>'/'\<close>
  is left in the part taken from the id; the ids \<open>a/b\<close> and \<open>a_b\<close> get the
  same file, and the later group overwrites the earlier one.
\<close>

theorem gexf_name_path:
  "(\<exists>n. gexf_name s = OUTPUT_DIR @ n @ ''_network.gexf'' \<and> CHR ''/'' \<notin> set n)
   \<and> gexf_name ''a/b'' = gexf_name ''a_b''"
proof
  show "\<exists>n. gexf_name s = OUTPUT_DIR @ n @ ''_network.gexf'' \<and> CHR ''/'' \<notin> set n"
    using py_replace_single_notin [of "CHR ''/''" "''_''" s] by (auto simp: gexf_name_def)
  show "gexf_name ''a/b'' = gexf_name ''a_b''"
    by (simp add: gexf_name_def py_replace_Cons startswith_def)
qed

end
