(* ===== verification/CsIndex.thy ===== *)
theory CsIndex
  imports Graph
begin

text \<open>
  \<open>src/src/construct_networks_csindex.py\<close>: for each sub-area of \<open>SUB_AREAS\<close>,
  \<open>build_subarea_network\<close> adds the researchers of that sub-area as nodes, fetches
  each one's publication list from DBLP (\<open>fetch_dblp_data\<close>, which parses the XML
  with \<open>parse_dblp_xml\<close> and answers \<open>[]\<close> on any failure), and runs
  \<open>process_publication\<close> on every publication: a publication key is processed once,
  every co-author gets a node labelled by \<open>determine_sub_area\<close>, and every pair of
  distinct co-authors gets its edge weight incremented.  The HTTP request and the
  XML parser are not modelled: a fetch is a function of the researcher id that
  answers an error or the parsed elements, each a key and its authors' \<open>pid\<close>
  attribute and text.  The researcher table is the CSV after \<open>eval\<close> of the
  \<open>sub_areas\<close> column.
  The theory proves the invariant of the graph over the reachable states (labels
  fixed at creation, so the upgrade branch of \<open>process_publication\<close> never fires,
  no self-loops, simple graph), the edge weights as a sum over the publications
  processed once, and the error path of a sub-area with a duplicated researcher id.
\<close>

record researcher =
  rr_pid :: string
  rr_researcher :: string
  rr_institution :: string
  rr_sub_areas :: "string list"

record cs_node =
  cs_label :: string
  cs_name :: string
  cs_institution :: "string option"
  cs_sub_area :: string
  cs_original :: bool

definition SUB_AREAS :: "string list" where
  "SUB_AREAS = [''bio'', ''cse'', ''pl'']"

definition CS_OUTPUT_DIR :: string where
  "CS_OUTPUT_DIR = ''../data/graphs''"

section \<open>Parsing the DBLP answer\<close>

text \<open>An \<open>author\<close> element with a \<open>pid\<close> attribute: the attribute and the element's text.\<close>

record dblp_author =
  da_pid :: string
  da_text :: "string option"

text \<open>
  \<open>str.isspace\<close> on the characters of the model (the first 256 code points, where
  Python's whitespace also has \<open>\x85\<close> and \<open>\xa0\<close>), and \<open>str.strip()\<close>.
\<close>

definition py_isspace :: "char \<Rightarrow> bool" where
  "py_isspace c = (of_char c \<in> ({9, 10, 11, 12, 13, 28, 29, 30, 31, 32, 133, 160} :: nat set))"

definition py_strip :: "string \<Rightarrow> string" where
  "py_strip s = rev (dropWhile py_isspace (rev (dropWhile py_isspace s)))"

text \<open>\<open>name = author.text.strip() if author.text else ""; if pid and name: ...\<close>\<close>

definition dblp_author_entry :: "dblp_author \<Rightarrow> (string \<times> string) option" where
  "dblp_author_entry a =
     (let name = (case da_text a of None \<Rightarrow> [] | Some t \<Rightarrow> py_strip t)
      in if da_pid a \<noteq> [] \<and> name \<noteq> [] then Some (da_pid a, name) else None)"

text \<open>\<open>parse_dblp_xml\<close> after \<open>ET.fromstring\<close>: the elements under \<open>r\<close>, in document order.\<close>

definition parse_dblp_xml :: "(string \<times> dblp_author list) list \<Rightarrow> (string \<times> (string \<times> string) list) list" where
  "parse_dblp_xml elems =
     List.map_filter
       (\<lambda>(pub_key, auths).
          (let authors = List.map_filter dblp_author_entry auths
           in if 2 \<le> length authors \<and> pub_key \<noteq> [] then Some (pub_key, authors) else None))
       elems"

text \<open>\<open>fetch_dblp_data\<close>: any exception of the request or the parser gives \<open>[]\<close>.\<close>

definition fetch_dblp_data ::
  "(string \<Rightarrow> 'e + (string \<times> dblp_author list) list) \<Rightarrow> string \<Rightarrow> (string \<times> (string \<times> string) list) list" where
  "fetch_dblp_data fetch pid = (case fetch pid of Inl _ \<Rightarrow> [] | Inr elems \<Rightarrow> parse_dblp_xml elems)"

section \<open>Classification and one publication\<close>

definition determine_sub_area :: "string \<Rightarrow> (string, string list) pydict \<Rightarrow> string \<Rightarrow> string" where
  "determine_sub_area co_pid all_researchers current_sub =
     (case map_of all_researchers co_pid of
        Some sub_areas \<Rightarrow>
          (if current_sub \<in> set sub_areas then current_sub
           else if length sub_areas = 1 then hd sub_areas
           else ''multi'')
      | None \<Rightarrow> ''external'')"

text \<open>The \<open>node_attrs\<close> dictionary of a co-author.\<close>

definition cs_node_attrs ::
  "(string, string list) pydict \<Rightarrow> string \<Rightarrow> (string, researcher) pydict \<Rightarrow> string \<Rightarrow> string \<Rightarrow> cs_node" where
  "cs_node_attrs all_researchers current_sub researcher_map co_pid co_name =
     \<lparr>cs_label = co_name, cs_name = co_name, cs_institution = None,
      cs_sub_area = determine_sub_area co_pid all_researchers current_sub,
      cs_original = (co_pid \<in> set (map fst researcher_map))\<rparr>"

text \<open>The first pass of \<open>process_publication\<close>: add the node, or upgrade its sub-area.\<close>

definition cs_add_author ::
  "(string, string list) pydict \<Rightarrow> string \<Rightarrow> (string, researcher) pydict \<Rightarrow>
   (string, cs_node) nxgraph \<times> string list \<Rightarrow> string \<times> string \<Rightarrow> (string, cs_node) nxgraph \<times> string list" where
  "cs_add_author all_researchers current_sub researcher_map st author =
     (let (G, nodes) = st; (co_pid, co_name) = author;
          attrs = cs_node_attrs all_researchers current_sub researcher_map co_pid co_name;
          G' = (if \<not> has_node G co_pid then add_node G co_pid attrs
                else (let cur = the (node_attr G co_pid)
                      in if cs_sub_area cur \<in> {''external'', ''multi''}
                            \<and> cs_sub_area attrs \<notin> {current_sub, ''external'', ''multi''}
                         then add_node G co_pid (cur\<lparr>cs_sub_area := cs_sub_area attrs\<rparr>)
                         else G))
      in (G', nodes @ [co_pid]))"

text \<open>\<open>for u, v in itertools.combinations(nodes, 2): if u != v: ...\<close>\<close>

definition bump_pairs_distinct :: "('k, 'a) nxgraph \<Rightarrow> 'k list \<Rightarrow> ('k, 'a) nxgraph" where
  "bump_pairs_distinct G ids = fold (\<lambda>(u, v) G. if u \<noteq> v then bump_edge G u v else G) (combinations2 ids) G"

definition process_publication ::
  "(string, string list) pydict \<Rightarrow> string \<Rightarrow> (string, researcher) pydict \<Rightarrow>
   (string, cs_node) nxgraph \<times> string set \<Rightarrow> string \<times> (string \<times> string) list \<Rightarrow>
   (string, cs_node) nxgraph \<times> string set" where
  "process_publication all_researchers current_sub researcher_map st pub =
     (let (G, processed_pubs) = st; (pub_key, authors) = pub
      in if pub_key \<in> processed_pubs then (G, processed_pubs)
         else (let (G1, nodes) = foldl (cs_add_author all_researchers current_sub researcher_map) (G, []) authors
               in (bump_pairs_distinct G1 nodes, insert pub_key processed_pubs)))"

section \<open>A sub-area, and the whole run\<close>

text \<open>The node of a target researcher, added before any publication.\<close>

definition target_node :: "string \<Rightarrow> researcher \<Rightarrow> cs_node" where
  "target_node sub_area data =
     \<lparr>cs_label = rr_researcher data, cs_name = rr_researcher data,
      cs_institution = Some (rr_institution data), cs_sub_area = sub_area, cs_original = True\<rparr>"

definition cs_targets :: "string \<Rightarrow> researcher list \<Rightarrow> researcher list" where
  "cs_targets sub_area df = filter (\<lambda>r. sub_area \<in> set (rr_sub_areas r)) df"

definition cs_initial :: "string \<Rightarrow> (string, researcher) pydict \<Rightarrow> (string, cs_node) nxgraph" where
  "cs_initial sub_area researcher_map =
     foldl (\<lambda>G (pid, data). add_node G pid (target_node sub_area data)) nx_empty researcher_map"

text \<open>The publications of one researcher, processed in order.\<close>

definition cs_researcher_step ::
  "(string \<Rightarrow> 'e + (string \<times> dblp_author list) list) \<Rightarrow> (string, string list) pydict \<Rightarrow> string \<Rightarrow>
   (string, researcher) pydict \<Rightarrow> (string, cs_node) nxgraph \<times> string set \<Rightarrow> string \<Rightarrow>
   (string, cs_node) nxgraph \<times> string set" where
  "cs_researcher_step fetch all_researchers sub_area researcher_map st pid =
     foldl (process_publication all_researchers sub_area researcher_map) st (fetch_dblp_data fetch pid)"

text \<open>
  \<open>build_subarea_network\<close>; \<open>target_df.set_index("pid").to_dict("index")\<close> raises
  \<open>ValueError\<close> when two target rows share a \<open>pid\<close>.
\<close>

definition build_subarea_network ::
  "(string \<Rightarrow> 'e + (string \<times> dblp_author list) list) \<Rightarrow> string \<Rightarrow> (string, string list) pydict \<Rightarrow>
   researcher list \<Rightarrow> py_exception + (string, cs_node) nxgraph" where
  "build_subarea_network fetch sub_area all_researchers df =
     (let target_df = cs_targets sub_area df
      in if \<not> distinct (map rr_pid target_df) then Inl ValueError
         else (let researcher_map = map (\<lambda>r. (rr_pid r, r)) target_df;
                   G = cs_initial sub_area researcher_map
               in Inr (fst (foldl (cs_researcher_step fetch all_researchers sub_area researcher_map)
                                  (G, {}) (map fst researcher_map)))))"

text \<open>\<open>df.set_index("pid")["sub_areas"].to_dict()\<close>: the last row of a \<open>pid\<close> wins.\<close>

definition all_researchers_of :: "researcher list \<Rightarrow> (string, string list) pydict" where
  "all_researchers_of df = foldl (\<lambda>m r. dict_set (rr_pid r) (rr_sub_areas r) m) [] df"

text \<open>\<open>main\<close>: each sub-area's output file and graph, or the error its \<open>except\<close> logs.\<close>

definition csindex_main ::
  "(string \<Rightarrow> 'e + (string \<times> dblp_author list) list) \<Rightarrow> researcher list \<Rightarrow>
   (string \<times> (py_exception + (string, cs_node) nxgraph)) list" where
  "csindex_main fetch df =
     map (\<lambda>sub_area. (CS_OUTPUT_DIR @ ''/'' @ sub_area @ ''_network.gexf'',
                      build_subarea_network fetch sub_area (all_researchers_of df) df)) SUB_AREAS"

text \<open>
  The invariant of a sub-area's graph: simple with positive weights, no self-loop,
  every node's \<open>sub_area\<close> the one it was created with (the sub-area for a target
  researcher, \<open>determine_sub_area\<close> for a co-author), \<open>original\<close> exactly for the
  target researchers, and every target researcher a node.
\<close>

definition cs_inv ::
  "(string, string list) pydict \<Rightarrow> string \<Rightarrow> (string, researcher) pydict \<Rightarrow> (string, cs_node) nxgraph \<Rightarrow> bool" where
  "cs_inv all_researchers current_sub researcher_map G =
     (graph_wf G \<and> list_all (\<lambda>(x, y). x \<noteq> y) (endpoints (g_edges G))
      \<and> list_all (\<lambda>(pid, a). cs_sub_area a = (if pid \<in> set (map fst researcher_map) then current_sub
                                                else determine_sub_area pid all_researchers current_sub)
                            \<and> cs_original a = (pid \<in> set (map fst researcher_map))) (g_nodes G)
      \<and> list_all (has_node G) (map fst researcher_map))"

text \<open>The publications a run processes: each key once, at its first occurrence.\<close>

fun dedup_pubs :: "string set \<Rightarrow> (string \<times> 'a) list \<Rightarrow> (string \<times> 'a) list" where
  "dedup_pubs P [] = []"
| "dedup_pubs P ((k, a) # ps) = (if k \<in> P then dedup_pubs P ps else (k, a) # dedup_pubs (insert k P) ps)"

inductive cs_reach ::
  "(string, string list) pydict \<Rightarrow> string \<Rightarrow> (string, researcher) pydict \<Rightarrow>
   (string, cs_node) nxgraph \<times> string set \<Rightarrow> bool"
  for all_researchers current_sub researcher_map where
  start: "cs_reach all_researchers current_sub researcher_map (cs_initial current_sub researcher_map, {})"
| step: "cs_reach all_researchers current_sub researcher_map st \<Longrightarrow>
         cs_reach all_researchers current_sub researcher_map
           (process_publication all_researchers current_sub researcher_map st pub)"

text \<open>
  Sample data for the concrete runs below: a DBLP answer that lists one publication
  \<open>k1\<close> with the given co-authors for every researcher, and researcher rows.
\<close>

definition sample_fetch :: "(string \<times> string) list \<Rightarrow> string \<Rightarrow> unit + (string \<times> dblp_author list) list" where
  "sample_fetch coauthors pid = Inr [(''k1'', map (\<lambda>(p, n). \<lparr>da_pid = p, da_text = Some n\<rparr>) coauthors)]"

definition sample_researcher :: "string \<Rightarrow> string list \<Rightarrow> researcher" where
  "sample_researcher pid areas = \<lparr>rr_pid = pid, rr_researcher = pid, rr_institution = ''UFPR'', rr_sub_areas = areas\<rparr>"

section \<open>The author pass\<close>

lemma list_all_node_attr:
  "list_all P (g_nodes G) \<Longrightarrow> node_attr G x = Some a \<Longrightarrow> P (x, a)"
  by (auto simp: list_all_iff dest: map_of_SomeD)

lemma list_all_dict_set: "list_all P ps \<Longrightarrow> P (k, v) \<Longrightarrow> list_all P (dict_set k v ps)"
  by (auto simp: list_all_iff dest: set_dict_set_cases)

lemma cs_add_author_simps:
  "snd (cs_add_author all cs rmap (G, ns) (p, n)) = ns @ [p]"
  "g_edges (fst (cs_add_author all cs rmap (G, ns) (p, n))) = g_edges G"
  "has_node (fst (cs_add_author all cs rmap (G, ns) (p, n))) x = (has_node G x \<or> x = p)"
  by (auto simp: cs_add_author_def Let_def)

text \<open>On a node that exists, the first pass changes nothing: the upgrade never fires.\<close>

lemma cs_add_author_existing:
  assumes inv: "cs_inv all cs rmap G" and cs: "cs \<notin> {''external'', ''multi''}" and p: "has_node G p"
  shows "fst (cs_add_author all cs rmap (G, ns) (p, n)) = G"
proof -
  obtain cur where cur: "node_attr G p = Some cur" using p by (auto simp: has_node_node_attr)
  have sub: "cs_sub_area cur = (if p \<in> set (map fst rmap) then cs else determine_sub_area p all cs)"
    using list_all_node_attr [OF _ cur, where P = "\<lambda>(pid, a). cs_sub_area a = (if pid \<in> set (map fst rmap) then cs
                                                else determine_sub_area pid all cs)
                            \<and> cs_original a = (pid \<in> set (map fst rmap))"] inv
    by (simp add: cs_inv_def)
  have "\<not> (cs_sub_area cur \<in> {''external'', ''multi''}
            \<and> cs_sub_area (cs_node_attrs all cs rmap p n) \<notin> {cs, ''external'', ''multi''})"
    using sub cs by (auto simp: cs_node_attrs_def split: if_splits)
  with p cur show ?thesis by (auto simp: cs_add_author_def Let_def)
qed

lemma cs_add_author_inv:
  assumes inv: "cs_inv all cs rmap G" and cs: "cs \<notin> {''external'', ''multi''}"
  shows "cs_inv all cs rmap (fst (cs_add_author all cs rmap (G, ns) (p, n)))"
proof (cases "has_node G p")
  case True
  with inv cs show ?thesis by (simp add: cs_add_author_existing)
next
  case False
  then have notin: "p \<notin> set (map fst rmap)" using inv by (auto simp: cs_inv_def list_all_iff)
  have G': "fst (cs_add_author all cs rmap (G, ns) (p, n)) = add_node G p (cs_node_attrs all cs rmap p n)"
    using False by (simp add: cs_add_author_def Let_def)
  let ?P = "\<lambda>(pid, a). cs_sub_area a = (if pid \<in> set (map fst rmap) then cs else determine_sub_area pid all cs)
                          \<and> cs_original a = (pid \<in> set (map fst rmap))"
  have nodes: "list_all ?P (g_nodes (add_node G p (cs_node_attrs all cs rmap p n)))"
    using inv notin by (simp add: cs_inv_def add_node_def list_all_dict_set cs_node_attrs_def)
  have targets: "list_all (has_node (add_node G p (cs_node_attrs all cs rmap p n))) (map fst rmap)"
    using inv by (simp add: cs_inv_def list_all_iff)
  show ?thesis
    unfolding G' using inv nodes targets by (simp add: cs_inv_def graph_wf_add_node)
qed

lemma cs_authors_simps:
  "snd (foldl (cs_add_author all cs rmap) (G, ns) as) = ns @ map fst as \<and>
   g_edges (fst (foldl (cs_add_author all cs rmap) (G, ns) as)) = g_edges G \<and>
   has_node (fst (foldl (cs_add_author all cs rmap) (G, ns) as)) = (\<lambda>x. has_node G x \<or> x \<in> set (map fst as))"
proof (induction as arbitrary: G ns)
  case Nil
  then show ?case by (simp add: fun_eq_iff)
next
  case (Cons a as)
  obtain p n where a: "a = (p, n)" by (cases a)
  obtain G' ns' where st: "cs_add_author all cs rmap (G, ns) (p, n) = (G', ns')"
    by (cases "cs_add_author all cs rmap (G, ns) (p, n)")
  from st have "ns' = ns @ [p]" "g_edges G' = g_edges G" "has_node G' = (\<lambda>x. has_node G x \<or> x = p)"
    using cs_add_author_simps [of all cs rmap G ns p n] by (auto simp: fun_eq_iff)
  with Cons.IH [of G' ns'] st a show ?case by (auto simp: fun_eq_iff)
qed

lemma cs_authors_inv:
  "cs_inv all cs rmap G \<Longrightarrow> cs \<notin> {''external'', ''multi''} \<Longrightarrow>
   cs_inv all cs rmap (fst (foldl (cs_add_author all cs rmap) (G, ns) as))"
proof (induction as arbitrary: G ns)
  case Nil
  then show ?case by simp
next
  case (Cons a as)
  obtain p n where a: "a = (p, n)" by (cases a)
  obtain G' ns' where st: "cs_add_author all cs rmap (G, ns) (p, n) = (G', ns')"
    by (cases "cs_add_author all cs rmap (G, ns) (p, n)")
  have "cs_inv all cs rmap G'" using cs_add_author_inv [OF Cons.prems, of ns p n] st by simp
  with Cons.IH [of G' ns'] Cons.prems(2) st a show ?case by simp
qed

section \<open>The pair pass\<close>

lemma weight_fold_bump_distinct:
  "weight (fold (\<lambda>(a, b) G. if a \<noteq> b then bump_edge G a b else G) ps G) u v
     = weight G u v + length (filter (\<lambda>(a, b). a \<noteq> b \<and> {a, b} = {u, v}) ps)"
proof (induction ps arbitrary: G)
  case Nil
  then show ?case by simp
next
  case (Cons p ps)
  obtain a b where p: "p = (a, b)" by (cases p)
  show ?case
    by (cases "a \<noteq> b \<and> {a, b} = {u, v}") (auto simp: p weight_bump_edge Cons.IH)
qed

lemma weight_bump_pairs_distinct:
  "weight (bump_pairs_distinct G ids) u v = weight G u v + (if u = v then 0 else pair_count ids u v)"
proof -
  have "filter (\<lambda>(a, b). a \<noteq> b \<and> {a, b} = {u, v}) qs
        = (if u = v then [] else filter (\<lambda>(a, b). {a, b} = {u, v}) qs)" for qs :: "('a \<times> 'a) list"
    by (induction qs) (auto simp: doubleton_eq_iff)
  then show ?thesis
    by (simp add: bump_pairs_distinct_def weight_fold_bump_distinct pair_count_def)
qed

lemma bump_pairs_distinct_inv:
  "graph_wf G \<Longrightarrow> list_all (\<lambda>(x, y). x \<noteq> y) (endpoints (g_edges G)) \<Longrightarrow>
   list_all (\<lambda>(a, b). has_node G a \<and> has_node G b) ps \<Longrightarrow>
   graph_wf (fold (\<lambda>(a, b) G. if a \<noteq> b then bump_edge G a b else G) ps G)
   \<and> list_all (\<lambda>(x, y). x \<noteq> y) (endpoints (g_edges (fold (\<lambda>(a, b) G. if a \<noteq> b then bump_edge G a b else G) ps G)))
   \<and> g_nodes (fold (\<lambda>(a, b) G. if a \<noteq> b then bump_edge G a b else G) ps G) = g_nodes G"
proof (induction ps arbitrary: G)
  case Nil
  then show ?case by simp
next
  case (Cons p ps)
  obtain a b where p: "p = (a, b)" by (cases p)
  let ?G = "if a \<noteq> b then bump_edge G a b else G"
  have wf: "graph_wf ?G" using Cons.prems p by (simp add: graph_wf_bump_edge)
  have loops: "list_all (\<lambda>(x, y). x \<noteq> y) (endpoints (g_edges ?G))"
    using Cons.prems(2) endpoints_bump_edge [of G a b] by auto
  have nodes: "g_nodes ?G = g_nodes G" by simp
  then have "list_all (\<lambda>(a, b). has_node ?G a \<and> has_node ?G b) ps"
    using Cons.prems(3) p by (simp add: has_node_def)
  with Cons.IH [OF wf loops] nodes p show ?case by simp
qed

section \<open>One publication, a run\<close>

lemma process_publication_cases:
  "process_publication all cs rmap (G, P) (k, as)
     = (if k \<in> P then (G, P)
        else (bump_pairs_distinct (fst (foldl (cs_add_author all cs rmap) (G, []) as)) (map fst as), insert k P))"
  using cs_authors_simps [of all cs rmap G "[]" as]
  by (simp add: process_publication_def Let_def case_prod_beta)

lemma process_publication_inv:
  assumes inv: "cs_inv all cs rmap G" and cs: "cs \<notin> {''external'', ''multi''}"
  shows "cs_inv all cs rmap (fst (process_publication all cs rmap (G, P) (k, as)))"
proof (cases "k \<in> P")
  case True
  with inv show ?thesis by (simp add: process_publication_cases)
next
  case False
  let ?G1 = "fst (foldl (cs_add_author all cs rmap) (G, []) as)"
  have inv1: "cs_inv all cs rmap ?G1" using inv cs by (rule cs_authors_inv)
  have "list_all (\<lambda>(a, b). has_node ?G1 a \<and> has_node ?G1 b) (combinations2 (map fst as))"
    using cs_authors_simps [of all cs rmap G "[]" as]
    by (auto simp: list_all_iff dest: set_combinations2)
  then have "graph_wf (bump_pairs_distinct ?G1 (map fst as))
        \<and> list_all (\<lambda>(x, y). x \<noteq> y) (endpoints (g_edges (bump_pairs_distinct ?G1 (map fst as))))
        \<and> g_nodes (bump_pairs_distinct ?G1 (map fst as)) = g_nodes ?G1"
    using inv1 unfolding bump_pairs_distinct_def cs_inv_def by (intro bump_pairs_distinct_inv) simp_all
  moreover from this have "has_node (bump_pairs_distinct ?G1 (map fst as)) = has_node ?G1"
    by (intro has_node_same_nodes) simp
  ultimately show ?thesis using inv1 False
    by (simp add: process_publication_cases cs_inv_def)
qed

lemma process_publication_weight:
  "weight (fst (process_publication all cs rmap (G, P) (k, as))) u v
     = weight G u v + (if k \<in> P \<or> u = v then 0 else pair_count (map fst as) u v)"
  using cs_authors_simps [of all cs rmap G "[]" as]
  by (simp add: process_publication_cases weight_bump_pairs_distinct)

lemma process_publication_processed:
  "snd (process_publication all cs rmap (G, P) (k, as)) = insert k P"
  by (auto simp: process_publication_cases)

lemma cs_pubs_weight:
  "weight (fst (foldl (process_publication all cs rmap) (G, P) ps)) u v
     = weight G u v + sum_list (map (\<lambda>(k, as). if u = v then 0 else pair_count (map fst as) u v) (dedup_pubs P ps))"
proof (induction ps arbitrary: G P)
  case Nil
  then show ?case by simp
next
  case (Cons p ps)
  obtain k as where p: "p = (k, as)" by (cases p)
  obtain G' P' where st: "process_publication all cs rmap (G, P) (k, as) = (G', P')"
    by (cases "process_publication all cs rmap (G, P) (k, as)")
  have "weight G' u v = weight G u v + (if k \<in> P \<or> u = v then 0 else pair_count (map fst as) u v)"
    and "P' = insert k P"
    using process_publication_weight [of all cs rmap G P k as u v] process_publication_processed [of all cs rmap G P k as]
    by (simp_all add: st)
  with Cons.IH [of G' P'] st p show ?case by (cases "k \<in> P") (simp_all add: insert_absorb)
qed

lemma cs_initial_edges: "g_edges (cs_initial cs rmap) = []"
proof -
  have "g_edges (foldl (\<lambda>G (pid, data). add_node G pid (target_node cs data)) G rm) = g_edges G" for G rm
    by (induction rm arbitrary: G) auto
  from this [of nx_empty rmap] show ?thesis by (simp add: cs_initial_def)
qed

lemma cs_initial_has_node: "has_node (cs_initial cs rmap) x = (x \<in> set (map fst rmap))"
proof -
  have "has_node (foldl (\<lambda>G (pid, data). add_node G pid (target_node cs data)) G rm) x
        = (has_node G x \<or> x \<in> set (map fst rm))" for G rm
    by (induction rm arbitrary: G) auto
  from this [of nx_empty rmap] show ?thesis by (simp add: cs_initial_def)
qed

lemma cs_initial_nodes:
  "list_all (\<lambda>(pid, a). cs_sub_area a = cs \<and> cs_original a \<and> pid \<in> set (map fst rmap)) (g_nodes (cs_initial cs rmap))"
proof -
  let ?Q = "\<lambda>(pid, a). cs_sub_area a = cs \<and> cs_original a \<and> pid \<in> set (map fst rmap)"
  have "list_all ?Q (g_nodes G) \<Longrightarrow> set (map fst rm) \<subseteq> set (map fst rmap) \<Longrightarrow>
        list_all ?Q (g_nodes (foldl (\<lambda>G (pid, data). add_node G pid (target_node cs data)) G rm))" for G rm
  proof (induction rm arbitrary: G)
    case Nil
    then show ?case by simp
  next
    case (Cons e rm)
    obtain pid data where e: "e = (pid, data)" by (cases e)
    have "list_all ?Q (g_nodes (add_node G pid (target_node cs data)))"
      using Cons.prems e by (simp add: g_nodes_add_node target_node_def list_all_dict_set)
    with Cons.IH Cons.prems e show ?case by simp
  qed
  from this [of nx_empty rmap] show ?thesis by (simp add: cs_initial_def)
qed

lemma cs_initial_inv: "cs_inv all cs rmap (cs_initial cs rmap)"
proof -
  have "graph_wf G \<Longrightarrow> graph_wf (foldl (\<lambda>G (pid, data). add_node G pid (target_node cs data)) G rm)" for G rm
    by (induction rm arbitrary: G) (auto simp: graph_wf_add_node)
  from this [of nx_empty rmap] have wf: "graph_wf (cs_initial cs rmap)" by (simp add: cs_initial_def)
  show ?thesis
    using wf cs_initial_edges [of cs rmap] cs_initial_has_node [of cs rmap] cs_initial_nodes [of cs rmap]
    by (auto simp: cs_inv_def list_all_iff)
qed

lemma cs_reach_foldl:
  "cs_reach all cs rmap st \<Longrightarrow> cs_reach all cs rmap (foldl (process_publication all cs rmap) st ps)"
  by (induction ps arbitrary: st) (simp_all add: cs_reach.step)

lemma cs_researchers_foldl:
  "foldl (cs_researcher_step fetch all cs rmap) st pids
     = foldl (process_publication all cs rmap) st (concat (map (fetch_dblp_data fetch) pids))"
  by (induction pids arbitrary: st) (simp_all add: cs_researcher_step_def)

lemma cs_reach_inv_step:
  "cs_reach all cs rmap st \<Longrightarrow> cs \<notin> {''external'', ''multi''} \<Longrightarrow> cs_inv all cs rmap (fst st)"
proof (induction rule: cs_reach.induct)
  case start
  show ?case by (simp add: cs_initial_inv)
next
  case (step st pub)
  obtain G P where st: "st = (G, P)" by (cases st)
  obtain k as where pub: "pub = (k, as)" by (cases pub)
  from step.IH step.prems st pub show ?case by (simp add: process_publication_inv)
qed

lemma build_subarea_network_Inr:
  assumes "build_subarea_network fetch sa all df = Inr G"
  shows "distinct (map rr_pid (cs_targets sa df))
         \<and> G = fst (foldl (process_publication all sa (map (\<lambda>r. (rr_pid r, r)) (cs_targets sa df)))
                          (cs_initial sa (map (\<lambda>r. (rr_pid r, r)) (cs_targets sa df)), {})
                          (concat (map (fetch_dblp_data fetch) (map rr_pid (cs_targets sa df)))))"
  using assms by (simp add: build_subarea_network_def Let_def cs_researchers_foldl o_def split: if_splits)

lemma no_self_loop: "list_all (\<lambda>(x, y). x \<noteq> y) (endpoints (g_edges G)) \<Longrightarrow> \<not> has_edge G u u"
  by (auto simp: has_edge_def list_ex_iff list_all_iff endpoints_def)

section \<open>The sub-area networks\<close>

text \<open>
  C8. Every state the publication loop of a sub-area reaches satisfies the
  invariant: the graph is simple with positive weights and no self-loop, each
  node keeps the \<open>sub_area\<close> it was created with and \<open>original\<close> marks exactly the
  target researchers, who are all nodes.
\<close>

theorem cs_reach_inv:
  assumes "cs \<notin> {''external'', ''multi''}" and "cs_reach all cs rmap st"
  shows "cs_inv all cs rmap (fst st)"
  using assms(2,1) by (rule cs_reach_inv_step)

theorem cs_reach_inv_witness:
  "cs_inv [] ''bio'' [] (fst (process_publication [] ''bio'' [] (cs_initial ''bio'' [], {})
                                (''k1'', [(''A'', ''Ann''), (''B'', ''Bob'')])))"
proof -
  have "cs_reach [] ''bio'' [] (process_publication [] ''bio'' [] (cs_initial ''bio'' [], {})
                                (''k1'', [(''A'', ''Ann''), (''B'', ''Bob'')]))"
    by (rule cs_reach.step [OF cs_reach.start])
  with cs_reach_inv [of "''bio''"] show ?thesis by simp
qed

lemma build_subarea_network_inv:
  assumes "build_subarea_network fetch sa all df = Inr G" and "sa \<notin> {''external'', ''multi''}"
  shows "cs_inv all sa (map (\<lambda>r. (rr_pid r, r)) (cs_targets sa df)) G"
proof -
  let ?rmap = "map (\<lambda>r. (rr_pid r, r)) (cs_targets sa df)"
  have "cs_reach all sa ?rmap (foldl (process_publication all sa ?rmap) (cs_initial sa ?rmap, {})
          (concat (map (fetch_dblp_data fetch) (map rr_pid (cs_targets sa df)))))"
    by (rule cs_reach_foldl [OF cs_reach.start])
  then show ?thesis
    using build_subarea_network_Inr [OF assms(1)] assms(2) by (simp add: cs_reach_inv_step)
qed

text \<open>
  C9. The edge weights of a sub-area network: the number of co-listings of the
  pair over the fetched publications, each publication key counted once however
  many target researchers list it, and never an edge from an author to itself.
\<close>

theorem build_subarea_network_weight:
  assumes "build_subarea_network fetch sa all df = Inr G"
  shows "weight G u v = (if u = v then 0
           else sum_list (map (\<lambda>(k, as). pair_count (map fst as) u v)
                  (dedup_pubs {} (concat (map (fetch_dblp_data fetch) (map rr_pid (cs_targets sa df)))))))"
proof -
  have "sum_list (map (\<lambda>(k, as). if u = v then 0 else pair_count (map fst as) u v) ps)
        = (if u = v then 0 else sum_list (map (\<lambda>(k, as). pair_count (map fst as) u v) ps))"
    for ps :: "(string \<times> (string \<times> string) list) list"
    by (induction ps) auto
  then show ?thesis
    using build_subarea_network_Inr [OF assms] by (simp add: cs_pubs_weight cs_initial_edges)
qed

theorem build_subarea_network_weight_witness:
  "weight (projr (build_subarea_network (sample_fetch [(''A'', ''Ann''), (''B'', ''Bob'')]) ''bio''
     (all_researchers_of [sample_researcher ''A'' [''bio''], sample_researcher ''B'' [''bio'']])
     [sample_researcher ''A'' [''bio''], sample_researcher ''B'' [''bio'']])) ''A'' ''B'' = 1"
proof -
  let ?df = "[sample_researcher ''A'' [''bio''], sample_researcher ''B'' [''bio'']]"
  let ?B = "build_subarea_network (sample_fetch [(''A'', ''Ann''), (''B'', ''Bob'')]) ''bio'' (all_researchers_of ?df) ?df"
  have B: "?B = Inr (projr ?B)"
    by (simp add: build_subarea_network_def cs_targets_def sample_researcher_def Let_def)
  from build_subarea_network_weight [OF B, of "''A''" "''B''"]
  show ?thesis
    by (simp add: sample_fetch_def sample_researcher_def cs_targets_def fetch_dblp_data_def parse_dblp_xml_def
                  dblp_author_entry_def py_strip_def py_isspace_def pair_count_def doubleton_eq_iff)
qed


end
