(* ===== verification/Normalizer.thy ===== *)
theory Normalizer
  imports Records
begin

text \<open>
  The record normalizer of \<open>src/src/collect_publications_open_alex.py\<close>:
  \<open>process_doi\<close> and \<open>process_openalex_id\<close> strip the two URL prefixes with
  \<open>str.replace\<close>, and \<open>process_work\<close> flattens one OpenAlex work into the row the
  builders read (\<open>pub_row\<close> of \<open>Records\<close>).  A work is the JSON object the API
  answers: each nested object or list may be absent (\<open>.get\<close> then gives the
  default), \<open>null\<close> (Python's \<open>None\<close>) or present (\<open>jval\<close>).  Calling \<open>.get\<close> on
  \<open>None\<close> raises \<open>AttributeError\<close> and iterating over it raises \<open>TypeError\<close>;
  \<open>process_work\<close> catches neither, so the error is a \<open>py_exception\<close> value.
  \<open>json.dumps\<close> of the nested fields followed by the builders' \<open>json.loads\<close> turns
  \<open>None\<close> into \<open>null\<close> and keeps strings (\<open>to_jfield\<close>).  The column
  \<open>primary_topic\<close>, which no builder reads, is not kept in the row.
\<close>

definition DOI_PREFIX :: string where
  "DOI_PREFIX = ''https://doi.org/''"

definition OPENALEX_PREFIX :: string where
  "OPENALEX_PREFIX = ''https://openalex.org/''"

text \<open>\<open>if doi and doi.startswith(prefix): return doi.replace(prefix, "")\<close>\<close>

definition process_doi :: "string option \<Rightarrow> string option" where
  "process_doi doi =
     (case doi of
        None \<Rightarrow> None
      | Some d \<Rightarrow> (if d \<noteq> [] \<and> startswith d DOI_PREFIX then Some (py_replace DOI_PREFIX [] d) else Some d))"

definition process_openalex_id :: "string option \<Rightarrow> string option" where
  "process_openalex_id openalex_id =
     (case openalex_id of
        None \<Rightarrow> None
      | Some i \<Rightarrow> (if i \<noteq> [] \<and> startswith i OPENALEX_PREFIX then Some (py_replace OPENALEX_PREFIX [] i) else Some i))"

section \<open>The work as the API answers it\<close>

datatype 'a jval = JAbsent | JNull | JVal 'a

text \<open>\<open>obj.get(key, default)\<close> on an object- or list-valued key; \<open>None\<close> for \<open>null\<close>.\<close>

fun jget_or :: "'a \<Rightarrow> 'a jval \<Rightarrow> 'a option" where
  "jget_or d JAbsent = Some d"
| "jget_or d JNull = None"
| "jget_or d (JVal v) = Some v"

record raw_author =
  ra_id :: jfield
  ra_display_name :: jfield

record raw_inst =
  ri_id :: jfield
  ri_display_name :: jfield

record raw_authorship =
  rs_author :: "raw_author jval"
  rs_institutions :: "raw_inst list jval"
  rs_countries :: "string list jval"

record raw_subfield =
  rsf_id :: jfield
  rsf_display_name :: jfield

record raw_topic =
  rt_id :: jfield
  rt_display_name :: jfield
  rt_subfield :: "raw_subfield jval"

record work =
  w_id :: jfield
  w_doi :: jfield
  w_title :: jfield
  w_publication_year :: "int option"
  w_authorships :: "raw_authorship list jval"
  w_primary_topic :: "raw_topic jval"

text \<open>A value written by \<open>json.dumps\<close> and read back by \<open>json.loads\<close>.\<close>

fun to_jfield :: "string option \<Rightarrow> jfield" where
  "to_jfield None = Null"
| "to_jfield (Some s) = Str s"

text \<open>The first error of a loop over a list, or the list of results.\<close>

fun map_until_error :: "('a \<Rightarrow> 'e + 'b) \<Rightarrow> 'a list \<Rightarrow> 'e + 'b list" where
  "map_until_error f [] = Inr []"
| "map_until_error f (x # xs) =
     (case f x of Inl e \<Rightarrow> Inl e | Inr y \<Rightarrow> (case map_until_error f xs of Inl e \<Rightarrow> Inl e | Inr ys \<Rightarrow> Inr (y # ys)))"

section \<open>process_work\<close>

definition process_inst :: "raw_inst \<Rightarrow> institution" where
  "process_inst inst =
     \<lparr>inst_id = to_jfield (process_openalex_id (py_get (ri_id inst))),
      inst_display_name = to_jfield (py_get (ri_display_name inst))\<rparr>"

text \<open>
  One iteration of \<open>for authorship in authorships\<close>: the institutions are listed
  (\<open>TypeError\<close> on a \<open>null\<close> list) before \<open>author_info.get\<close> is called
  (\<open>AttributeError\<close> on a \<open>null\<close> author).  A \<open>null\<close> countries list is written
  as \<open>null\<close>, which the builders read like the empty list.
\<close>

definition process_authorship :: "raw_authorship \<Rightarrow> py_exception + authorship" where
  "process_authorship a =
     (case jget_or [] (rs_institutions a) of
        None \<Rightarrow> Inl TypeError
      | Some insts \<Rightarrow>
          (case jget_or \<lparr>ra_id = Absent, ra_display_name = Absent\<rparr> (rs_author a) of
             None \<Rightarrow> Inl AttributeError
           | Some author_info \<Rightarrow>
               Inr \<lparr>au_id = to_jfield (process_openalex_id (py_get (ra_id author_info))),
                    au_name = to_jfield (py_get (ra_display_name author_info)),
                    au_institutions = map process_inst insts,
                    au_countries = (case jget_or [] (rs_countries a) of None \<Rightarrow> [] | Some cs \<Rightarrow> cs)\<rparr>))"

definition process_work :: "work \<Rightarrow> py_exception + pub_row" where
  "process_work w =
     (case jget_or [] (w_authorships w) of
        None \<Rightarrow> Inl TypeError
      | Some authorships \<Rightarrow>
          (case map_until_error process_authorship authorships of
             Inl e \<Rightarrow> Inl e
           | Inr processed_authors \<Rightarrow>
               (case jget_or \<lparr>rt_id = Absent, rt_display_name = Absent, rt_subfield = JAbsent\<rparr> (w_primary_topic w) of
                  None \<Rightarrow> Inl AttributeError
                | Some primary_topic \<Rightarrow>
                    (case jget_or \<lparr>rsf_id = Absent, rsf_display_name = Absent\<rparr> (rt_subfield primary_topic) of
                       None \<Rightarrow> Inl AttributeError
                     | Some subfield \<Rightarrow>
                         Inr \<lparr>row_id = process_openalex_id (py_get (w_id w)),
                              row_doi = process_doi (py_get (w_doi w)),
                              row_title = py_get (w_title w),
                              row_publication_year = w_publication_year w,
                              row_authorships = Some processed_authors,
                              row_subfield = Some \<lparr>sf_id = to_jfield (process_openalex_id (py_get (rsf_id subfield))),
                                                   sf_display_name = to_jfield (py_get (rsf_display_name subfield))\<rparr>,
                              row_cited_by_count = None\<rparr>))))"

text \<open>The id a builder reads off a raw authorship after \<open>process_work\<close>.\<close>

definition raw_author_key :: "raw_authorship \<Rightarrow> string option" where
  "raw_author_key a =
     (case rs_author a of
        JVal ai \<Rightarrow> (case process_openalex_id (py_get (ra_id ai)) of
                     None \<Rightarrow> None
                   | Some s \<Rightarrow> (if s = [] then None else Some s))
      | _ \<Rightarrow> None)"

text \<open>Sample data: a work with the given authors (ids and names) and a subfield.\<close>

definition sample_work :: "(string \<times> string) list \<Rightarrow> raw_topic jval \<Rightarrow> work" where
  "sample_work authors topic =
     \<lparr>w_id = Str ''https://openalex.org/W1'', w_doi = Str ''https://doi.org/10.1/x'', w_title = Str ''T'',
      w_publication_year = Some 2019,
      w_authorships = JVal (map (\<lambda>(i, n). \<lparr>rs_author = JVal \<lparr>ra_id = Str i, ra_display_name = Str n\<rparr>,
                                           rs_institutions = JVal [], rs_countries = JVal [''BR'']\<rparr>) authors),
      w_primary_topic = topic\<rparr>"

lemma jget_or_None [simp]: "jget_or d v = None \<longleftrightarrow> v = JNull"
  by (cases v) simp_all

lemma py_get_to_jfield [simp]: "py_get (to_jfield x) = x"
  by (cases x) simp_all

section \<open>The prefix strippers\<close>

text \<open>
  C16. Round trip: an identifier written with the DOI resolver prefix, and with no
  other occurrence of it, comes back as the bare identifier.
\<close>

theorem process_doi_strip:
  assumes "\<forall>i. \<not> startswith (drop i d) DOI_PREFIX"
  shows "process_doi (Some (DOI_PREFIX @ d)) = Some d"
proof -
  have ne: "DOI_PREFIX \<noteq> []" by (simp add: DOI_PREFIX_def)
  have "py_replace DOI_PREFIX [] (DOI_PREFIX @ d) = d"
    using py_replace_prefix [OF ne, of "[]" d] py_replace_absent [OF ne assms] by simp
  with ne show ?thesis by (simp add: process_doi_def startswith_def)
qed

theorem process_doi_strip_witness: "process_doi (Some (DOI_PREFIX @ ''10.1/x'')) = Some ''10.1/x''"
proof -
  have "\<forall>i. \<not> startswith (drop i ''10.1/x'') DOI_PREFIX"
    by (intro allI startswith_short) (simp add: DOI_PREFIX_def)
  then show ?thesis by (rule process_doi_strip)
qed

section \<open>process_work\<close>

lemma map_until_error_isl: "isl (map_until_error f xs) \<longleftrightarrow> list_ex (\<lambda>x. isl (f x)) xs"
  by (induction xs) (auto split: sum.splits)

lemma map_until_error_Inr: "map_until_error f xs = Inr ys \<Longrightarrow> list_all2 (\<lambda>x y. f x = Inr y) xs ys"
  by (induction xs arbitrary: ys) (auto split: sum.splits)

lemma process_authorship_isl:
  "isl (process_authorship a) \<longleftrightarrow> rs_institutions a = JNull \<or> rs_author a = JNull"
  by (cases "rs_institutions a"; cases "rs_author a") (simp_all add: process_authorship_def)

lemma process_authorship_key:
  "process_authorship a = Inr b \<Longrightarrow> author_key b = raw_author_key a"
  by (cases "rs_institutions a"; cases "rs_author a")
     (auto simp: process_authorship_def raw_author_key_def author_key_def process_openalex_id_def
           split: option.splits)

text \<open>
  C11. \<open>process_work\<close> raises exactly when the authorships list is \<open>null\<close>, an
  authorship's author or institution list is \<open>null\<close>, the primary topic is
  \<open>null\<close>, or its subfield is \<open>null\<close>; \<open>main\<close> re-raises, so one such work ends
  the whole collection run (the specification skips a malformed record).
\<close>

theorem process_work_raises:
  "isl (process_work w) \<longleftrightarrow>
     (case jget_or [] (w_authorships w) of
        None \<Rightarrow> True
      | Some authorships \<Rightarrow>
          list_ex (\<lambda>a. rs_institutions a = JNull \<or> rs_author a = JNull) authorships
          \<or> w_primary_topic w = JNull
          \<or> (case w_primary_topic w of JVal t \<Rightarrow> rt_subfield t = JNull | _ \<Rightarrow> False))"
proof (cases "jget_or [] (w_authorships w)")
  case None
  then show ?thesis by (simp add: process_work_def)
next
  case (Some authorships)
  have ok: "isl (map_until_error process_authorship authorships)
            \<longleftrightarrow> list_ex (\<lambda>a. rs_institutions a = JNull \<or> rs_author a = JNull) authorships"
    by (simp add: map_until_error_isl process_authorship_isl)
  show ?thesis
  proof (cases "map_until_error process_authorship authorships")
    case (Inl e)
    with Some ok show ?thesis by (simp add: process_work_def)
  next
    case (Inr ys)
    with Some ok show ?thesis
      by (cases "w_primary_topic w") (auto simp: process_work_def split: jval.splits option.splits)
  qed
qed

text \<open>
  C12. A processed work keeps every authorship, also one without an author id
  (the specification drops such an author); the ids the builders read off the row
  are the authors' OpenAlex ids without the URL prefix, where they are non-empty.
\<close>

theorem process_work_authors:
  assumes "process_work w = Inr r"
  shows "length (row_authors r) = length (case w_authorships w of JVal as \<Rightarrow> as | _ \<Rightarrow> [])
         \<and> row_ids r = List.map_filter raw_author_key (case w_authorships w of JVal as \<Rightarrow> as | _ \<Rightarrow> [])"
proof -
  obtain as where as: "jget_or [] (w_authorships w) = Some as"
    and list: "(case w_authorships w of JVal as \<Rightarrow> as | _ \<Rightarrow> []) = as"
    using assms by (cases "w_authorships w") (auto simp: process_work_def)
  obtain ys where ys: "map_until_error process_authorship as = Inr ys" and r: "row_authorships r = Some ys"
    using assms as by (auto simp: process_work_def split: sum.splits option.splits)
  have rel: "list_all2 (\<lambda>x y. process_authorship x = Inr y) as ys" using ys by (rule map_until_error_Inr)
  then have "List.map_filter author_key ys = List.map_filter raw_author_key as"
    by (induction rule: list_all2_induct) (simp_all add: process_authorship_key split: option.splits)
  with rel r list show ?thesis by (simp add: list_all2_lengthD)
qed

theorem process_work_authors_witness:
  "length (row_authors (projr (process_work (sample_work [(''https://openalex.org/A1'', ''Ann''), ([], ''Nobody'')]
                                                (JVal \<lparr>rt_id = Absent, rt_display_name = Absent, rt_subfield = JAbsent\<rparr>)))))
     = 2
   \<and> row_ids (projr (process_work (sample_work [(''https://openalex.org/A1'', ''Ann''), ([], ''Nobody'')]
                                    (JVal \<lparr>rt_id = Absent, rt_display_name = Absent, rt_subfield = JAbsent\<rparr>))))
     = [''A1'']"
proof -
  let ?w = "sample_work [(''https://openalex.org/A1'', ''Ann''), ([], ''Nobody'')]
              (JVal \<lparr>rt_id = Absent, rt_display_name = Absent, rt_subfield = JAbsent\<rparr>)"
  have "process_work ?w = Inr (projr (process_work ?w))"
    by (simp add: process_work_def sample_work_def process_authorship_def)
  from process_work_authors [OF this] show ?thesis
    by (simp add: sample_work_def raw_author_key_def process_openalex_id_def OPENALEX_PREFIX_def
                  py_replace_Cons startswith_def)
qed

text \<open>A work without a subfield gets the subfield \<open>{id: null, display_name: null}\<close>.\<close>

lemma process_work_no_subfield:
  assumes "process_work w = Inr r"
    and "w_primary_topic w = JAbsent \<or> (\<exists>t. w_primary_topic w = JVal t \<and> rt_subfield t = JAbsent)"
  shows "row_subfield r = Some \<lparr>sf_id = Null, sf_display_name = Null\<rparr>"
  using assms by (auto simp: process_work_def process_openalex_id_def split: option.splits sum.splits)

end
