(* ===== verification/JsonText.thy ===== *)
theory JsonText
  imports Records
begin

text \<open>
  The JSON text of the two embedded columns.  \<open>process_work\<close>
  (\<open>src/src/collect_publications_open_alex.py\<close>) writes \<open>authorships\<close> and
  \<open>subfield\<close> with \<open>json.dumps\<close>; the builders read them back with
  \<open>json.loads\<close> (\<open>src/src/construct_full_net_open_alex.py\<close>,
  \<open>parse_json_field\<close> in \<open>src/src/construct_network.py\<close>) and look fields up
  with \<open>.get\<close>.  The record model of the other theories (\<open>pub_row\<close>) takes a
  column as its parse result; this theory gives the text and proves that the
  builders read back what the collector wrote.

  \<^item> \<open>json\<close> is a JSON value; an object keeps its members in order, and a
    lookup takes the last member with the key, as a Python \<open>dict\<close> built by
    \<open>json.loads\<close> does.
  \<^item> \<open>json_dumps\<close> is \<open>json.dumps\<close> with its defaults: separators \<open>", "\<close> and
    \<open>": "\<close>, and \<open>ensure_ascii\<close>, which writes every character outside
    \<open>' '..'~'\<close> as \<open>\uXXXX\<close> unless it has a two-character escape.
  \<^item> \<open>json_loads\<close> is \<open>json.loads\<close> as a recursive-descent parser over the
    JSON grammar (values, elements, members, whitespace), with fuel: each call
    consumes a character, so the length of the text plus one is enough fuel.
\<close>

datatype json = JNull | JBool bool | JInt int | JString string | JArray "json list"
  | JObject "(string \<times> json) list"

section \<open>json.dumps\<close>

definition hex_digit :: "nat \<Rightarrow> char" where
  "hex_digit n = (if n < 10 then char_of (48 + n) else char_of (87 + n))"

text \<open>\<open>'\\u{0:04x}'.format(n)\<close> for a character code below 256.\<close>

definition u_escape :: "char \<Rightarrow> string" where
  "u_escape c = [CHR 0x5C, CHR ''u'', CHR ''0'', CHR ''0'', hex_digit (of_char c div 16), hex_digit (of_char c mod 16)]"

text \<open>\<open>ESCAPE_DCT\<close> and the \<open>ESCAPE_ASCII\<close> pattern \<open>([\\"]|[^\ -~])\<close> of \<open>json.encoder\<close>.\<close>

definition escape_char :: "char \<Rightarrow> string" where
  "escape_char c =
     (if c = CHR 0x22 then [CHR 0x5C, CHR 0x22]
      else if c = CHR 0x5C then [CHR 0x5C, CHR 0x5C]
      else if c = CHR 0x0A then [CHR 0x5C, CHR ''n'']
      else if c = CHR 0x0D then [CHR 0x5C, CHR ''r'']
      else if c = CHR 0x09 then [CHR 0x5C, CHR ''t'']
      else if c = CHR 0x08 then [CHR 0x5C, CHR ''b'']
      else if c = CHR 0x0C then [CHR 0x5C, CHR ''f'']
      else if c < CHR 0x20 \<or> CHR 0x7E < c then u_escape c
      else [c])"

definition dumps_string :: "string \<Rightarrow> string" where
  "dumps_string s = CHR 0x22 # concat (map escape_char s) @ [CHR 0x22]"

fun nat_digits :: "nat \<Rightarrow> string" where
  "nat_digits n = (if n < 10 then [char_of (48 + n)] else nat_digits (n div 10) @ [char_of (48 + n mod 10)])"

declare nat_digits.simps [simp del]

definition dumps_int :: "int \<Rightarrow> string" where
  "dumps_int i = (if i < 0 then CHR ''-'' # nat_digits (nat (- i)) else nat_digits (nat i))"

text \<open>\<open>sep.join(parts)\<close>.\<close>

fun join_sep :: "string \<Rightarrow> string list \<Rightarrow> string" where
  "join_sep sep [] = []"
| "join_sep sep [x] = x"
| "join_sep sep (x # y # zs) = x @ sep @ join_sep sep (y # zs)"

fun json_dumps :: "json \<Rightarrow> string" where
  "json_dumps JNull = ''null''"
| "json_dumps (JBool b) = (if b then ''true'' else ''false'')"
| "json_dumps (JInt i) = dumps_int i"
| "json_dumps (JString s) = dumps_string s"
| "json_dumps (JArray vs) = CHR ''['' # join_sep '', '' (map json_dumps vs) @ '']''"
| "json_dumps (JObject kvs) =
     CHR ''{'' # join_sep '', '' (map (\<lambda>(k, v). dumps_string k @ '': '' @ json_dumps v) kvs) @ ''}''"

section \<open>json.loads\<close>

text \<open>The whitespace \<open>json.decoder\<close> skips between tokens.\<close>

definition json_ws :: "char \<Rightarrow> bool" where
  "json_ws c \<longleftrightarrow> c = CHR 0x20 \<or> c = CHR 0x09 \<or> c = CHR 0x0A \<or> c = CHR 0x0D"

fun skip_ws :: "string \<Rightarrow> string" where
  "skip_ws [] = []"
| "skip_ws (c # cs) = (if json_ws c then skip_ws cs else c # cs)"

definition hex_val :: "char \<Rightarrow> nat option" where
  "hex_val c =
     (if CHR ''0'' \<le> c \<and> c \<le> CHR ''9'' then Some (of_char c - 48)
      else if CHR ''a'' \<le> c \<and> c \<le> CHR ''f'' then Some (of_char c - 87)
      else if CHR ''A'' \<le> c \<and> c \<le> CHR ''F'' then Some (of_char c - 55)
      else None)"

text \<open>The character of a two-character escape \<open>\\e\<close>.\<close>

definition unescape :: "char \<Rightarrow> char option" where
  "unescape e =
     (if e = CHR 0x22 then Some (CHR 0x22)
      else if e = CHR 0x5C then Some (CHR 0x5C)
      else if e = CHR ''/'' then Some (CHR ''/'')
      else if e = CHR ''b'' then Some (CHR 0x08)
      else if e = CHR ''f'' then Some (CHR 0x0C)
      else if e = CHR ''n'' then Some (CHR 0x0A)
      else if e = CHR ''r'' then Some (CHR 0x0D)
      else if e = CHR ''t'' then Some (CHR 0x09)
      else None)"

definition cons_result :: "char \<Rightarrow> (string \<times> string) option \<Rightarrow> (string \<times> string) option" where
  "cons_result c r = map_option (\<lambda>(s, rest). (c # s, rest)) r"

text \<open>
  \<open>py_scanstring\<close> after the opening quote: the string up to the closing quote
  and the text after it.  A raw control character is an error (\<open>strict\<close>), and
  so is a \<open>\uXXXX\<close> escape above 255, which the character type of this model
  cannot hold.
\<close>

fun parse_string :: "string \<Rightarrow> (string \<times> string) option" where
  "parse_string [] = None"
| "parse_string (c # cs) =
     (if c = CHR 0x22 then Some ([], cs)
      else if c = CHR 0x5C then
        (case cs of
           [] \<Rightarrow> None
         | e # cs' \<Rightarrow>
             (if e = CHR ''u'' then
                (case cs' of
                   a # b # c' # d # rest \<Rightarrow>
                     (case (hex_val a, hex_val b, hex_val c', hex_val d) of
                        (Some x1, Some x2, Some x3, Some x4) \<Rightarrow>
                          (if x1 * 4096 + x2 * 256 + x3 * 16 + x4 < 256
                           then cons_result (char_of (x1 * 4096 + x2 * 256 + x3 * 16 + x4)) (parse_string rest)
                           else None)
                      | _ \<Rightarrow> None)
                 | _ \<Rightarrow> None)
              else (case unescape e of None \<Rightarrow> None | Some ch \<Rightarrow> cons_result ch (parse_string cs'))))
      else if c < CHR 0x20 then None
      else cons_result c (parse_string cs))"

definition is_digit :: "char \<Rightarrow> bool" where
  "is_digit c \<longleftrightarrow> CHR ''0'' \<le> c \<and> c \<le> CHR ''9''"

fun digits_val :: "nat \<Rightarrow> string \<Rightarrow> nat \<times> string" where
  "digits_val acc [] = (acc, [])"
| "digits_val acc (c # cs) = (if is_digit c then digits_val (10 * acc + (of_char c - 48)) cs else (acc, c # cs))"

text \<open>
  An integer: an optional minus sign, then \<open>0\<close> or a non-zero digit and more
  digits.  A fraction or an exponent after it would make a \<open>float\<close>, which this
  model does not hold: the parse fails there.
\<close>

definition parse_int :: "string \<Rightarrow> (json \<times> string) option" where
  "parse_int s =
     (let (neg, t) = (case s of c # cs \<Rightarrow> (if c = CHR ''-'' then (True, cs) else (False, s)) | [] \<Rightarrow> (False, s))
      in case t of
           [] \<Rightarrow> None
         | d # ds \<Rightarrow>
             (if \<not> is_digit d then None
              else (let (n, rest) = (if d = CHR ''0'' then (0, ds) else digits_val 0 (d # ds))
                    in if rest \<noteq> [] \<and> hd rest \<in> set ''.eE'' then None
                       else Some (JInt (if neg then - int n else int n), rest))))"

text \<open>
  The recursive descent of \<open>json.decoder\<close>: a value, the rest of an array after
  \<open>[\<close> or a comma, the rest of an object after \<open>{\<close> or a comma.  The first
  argument is the fuel.
\<close>

fun parse_value :: "nat \<Rightarrow> string \<Rightarrow> (json \<times> string) option"
and parse_elems :: "nat \<Rightarrow> json list \<Rightarrow> string \<Rightarrow> (json \<times> string) option"
and parse_members :: "nat \<Rightarrow> (string \<times> json) list \<Rightarrow> string \<Rightarrow> (json \<times> string) option" where
  "parse_value 0 s = None"
| "parse_value (Suc n) s =
     (case skip_ws s of
        [] \<Rightarrow> None
      | c # cs \<Rightarrow>
          (if c = CHR 0x22 then map_option (\<lambda>(str, rest). (JString str, rest)) (parse_string cs)
           else if c = CHR ''['' then
             (case skip_ws cs of
                d # r \<Rightarrow> (if d = CHR '']'' then Some (JArray [], r) else parse_elems n [] cs)
              | [] \<Rightarrow> None)
           else if c = CHR ''{'' then
             (case skip_ws cs of
                d # r \<Rightarrow> (if d = CHR ''}'' then Some (JObject [], r) else parse_members n [] cs)
              | [] \<Rightarrow> None)
           else if startswith (c # cs) ''null'' then Some (JNull, drop 4 (c # cs))
           else if startswith (c # cs) ''true'' then Some (JBool True, drop 4 (c # cs))
           else if startswith (c # cs) ''false'' then Some (JBool False, drop 5 (c # cs))
           else parse_int (c # cs)))"
| "parse_elems 0 acc s = None"
| "parse_elems (Suc n) acc s =
     (case parse_value n s of
        None \<Rightarrow> None
      | Some (v, r) \<Rightarrow>
          (case skip_ws r of
             d # r' \<Rightarrow> (if d = CHR '','' then parse_elems n (acc @ [v]) r'
                       else if d = CHR '']'' then Some (JArray (acc @ [v]), r') else None)
           | [] \<Rightarrow> None))"
| "parse_members 0 acc s = None"
| "parse_members (Suc n) acc s =
     (case skip_ws s of
        d # r \<Rightarrow>
          (if d \<noteq> CHR 0x22 then None
           else (case parse_string r of
                   None \<Rightarrow> None
                 | Some (k, r1) \<Rightarrow>
                     (case skip_ws r1 of
                        e # r2 \<Rightarrow>
                          (if e \<noteq> CHR '':'' then None
                           else (case parse_value n r2 of
                                   None \<Rightarrow> None
                                 | Some (v, r3) \<Rightarrow>
                                     (case skip_ws r3 of
                                        f # r4 \<Rightarrow>
                                          (if f = CHR '','' then parse_members n (acc @ [(k, v)]) r4
                                           else if f = CHR ''}'' then Some (JObject (acc @ [(k, v)]), r4)
                                           else None)
                                      | [] \<Rightarrow> None)))
                      | [] \<Rightarrow> None)))
      | [] \<Rightarrow> None)"

text \<open>\<open>json.loads\<close>: one value, then only whitespace (\<open>"Extra data"\<close> otherwise).\<close>

definition json_loads :: "string \<Rightarrow> json option" where
  "json_loads s =
     (case parse_value (Suc (length s)) s of
        None \<Rightarrow> None
      | Some (v, rest) \<Rightarrow> (if skip_ws rest = [] then Some v else None))"

text \<open>\<open>parse_json_field\<close> of \<open>construct_network.py\<close>: \<open>json.loads\<close>, \<open>None\<close> when it raises.\<close>

definition parse_json_field :: "string \<Rightarrow> json option" where
  "parse_json_field field_str = json_loads field_str"

section \<open>The two columns\<close>

text \<open>
  What \<open>process_work\<close> dumps: an author entry as the object \<open>{"id", "name",
  "institutions", "countries"}\<close>, an institution as \<open>{"id", "display_name"}\<close>,
  the subfield as \<open>{"id", "display_name"}\<close>.  A field the record marks
  absent is left out of the object.
\<close>

definition field_json :: "string \<Rightarrow> jfield \<Rightarrow> (string \<times> json) list" where
  "field_json k f = (case f of Absent \<Rightarrow> [] | Null \<Rightarrow> [(k, JNull)] | Str s \<Rightarrow> [(k, JString s)])"

definition inst_json :: "institution \<Rightarrow> json" where
  "inst_json i = JObject (field_json ''id'' (inst_id i) @ field_json ''display_name'' (inst_display_name i))"

definition authorship_json :: "authorship \<Rightarrow> json" where
  "authorship_json a =
     JObject (field_json ''id'' (au_id a) @ field_json ''name'' (au_name a)
              @ [(''institutions'', JArray (map inst_json (au_institutions a))),
                 (''countries'', JArray (map JString (au_countries a)))])"

definition subfield_json :: "subfield_obj \<Rightarrow> json" where
  "subfield_json sd = JObject (field_json ''id'' (sf_id sd) @ field_json ''display_name'' (sf_display_name sd))"

definition write_authorships :: "authorship list \<Rightarrow> string" where
  "write_authorships as = json_dumps (JArray (map authorship_json as))"

definition write_subfield :: "subfield_obj \<Rightarrow> string" where
  "write_subfield sd = json_dumps (subfield_json sd)"

text \<open>
  \<open>obj.get(key)\<close> on a parsed object: the last member with the key.  A field the
  record model holds is absent, \<open>null\<close> or a string; any other JSON value
  there is outside the model (\<open>None\<close>).
\<close>

definition json_get :: "(string \<times> json) list \<Rightarrow> string \<Rightarrow> json option" where
  "json_get kvs k = map_of (rev kvs) k"

fun jfield_of :: "json option \<Rightarrow> jfield option" where
  "jfield_of None = Some Absent"
| "jfield_of (Some JNull) = Some Null"
| "jfield_of (Some (JString s)) = Some (Str s)"
| "jfield_of (Some _) = None"

text \<open>
  \<open>author.get("institutions", [])\<close> and \<open>author.get("countries", [])\<close>: a
  missing key or \<open>null\<close> is read as the empty list (the builders test the
  list's truth value only).
\<close>

definition list_of :: "(json \<Rightarrow> 'a option) \<Rightarrow> json option \<Rightarrow> 'a list option" where
  "list_of f v = (case v of None \<Rightarrow> Some [] | Some JNull \<Rightarrow> Some [] | Some (JArray vs) \<Rightarrow> those (map f vs) | Some _ \<Rightarrow> None)"

definition string_of :: "json \<Rightarrow> string option" where
  "string_of v = (case v of JString s \<Rightarrow> Some s | _ \<Rightarrow> None)"

definition inst_of_json :: "json \<Rightarrow> institution option" where
  "inst_of_json v =
     (case v of
        JObject kvs \<Rightarrow>
          (case (jfield_of (json_get kvs ''id''), jfield_of (json_get kvs ''display_name'')) of
             (Some i, Some d) \<Rightarrow> Some \<lparr>inst_id = i, inst_display_name = d\<rparr>
           | _ \<Rightarrow> None)
      | _ \<Rightarrow> None)"

definition authorship_of_json :: "json \<Rightarrow> authorship option" where
  "authorship_of_json v =
     (case v of
        JObject kvs \<Rightarrow>
          (case (jfield_of (json_get kvs ''id''), jfield_of (json_get kvs ''name''),
                 list_of inst_of_json (json_get kvs ''institutions''), list_of string_of (json_get kvs ''countries'')) of
             (Some i, Some n, Some insts, Some cs) \<Rightarrow>
               Some \<lparr>au_id = i, au_name = n, au_institutions = insts, au_countries = cs\<rparr>
           | _ \<Rightarrow> None)
      | _ \<Rightarrow> None)"

definition subfield_of_json :: "json \<Rightarrow> subfield_obj option" where
  "subfield_of_json v =
     (case v of
        JObject kvs \<Rightarrow>
          (case (jfield_of (json_get kvs ''id''), jfield_of (json_get kvs ''display_name'')) of
             (Some i, Some d) \<Rightarrow> Some \<lparr>sf_id = i, sf_display_name = d\<rparr>
           | _ \<Rightarrow> None)
      | _ \<Rightarrow> None)"

text \<open>
  Reading a column back: \<open>None\<close> when \<open>json.loads\<close> raises (the builders skip
  the row or read the subfield as unknown), \<open>Some None\<close> when the text parses
  to a value outside the record model, \<open>Some (Some x)\<close> for the model's value.
\<close>

definition read_authorships :: "string \<Rightarrow> authorship list option option" where
  "read_authorships text =
     map_option (\<lambda>v. case v of JArray vs \<Rightarrow> those (map authorship_of_json vs) | _ \<Rightarrow> None) (parse_json_field text)"

definition read_subfield :: "string \<Rightarrow> subfield_obj option option" where
  "read_subfield text = map_option subfield_of_json (parse_json_field text)"

text \<open>Text that may follow a value inside the dumps of a container, or end it.\<close>

definition json_follow :: "string \<Rightarrow> bool" where
  "json_follow r \<longleftrightarrow> r = [] \<or> hd r \<in> set '',]}''"

section \<open>Strings read back\<close>

lemma hex_val_hex_digit: "n < 16 \<Longrightarrow> hex_val (hex_digit n) = Some n"
  by (auto simp: hex_val_def hex_digit_def less_eq_char_def of_char_of)

lemma parse_string_u:
  "hex_val a = Some x1 \<Longrightarrow> hex_val b = Some x2 \<Longrightarrow> hex_val c = Some x3 \<Longrightarrow> hex_val d = Some x4 \<Longrightarrow>
   x1 * 4096 + x2 * 256 + x3 * 16 + x4 < 256 \<Longrightarrow>
   parse_string (CHR 0x5C # CHR ''u'' # a # b # c # d # rest)
     = cons_result (char_of (x1 * 4096 + x2 * 256 + x3 * 16 + x4)) (parse_string rest)"
  by simp

lemma parse_string_u_escape: "parse_string (u_escape c @ t) = cons_result c (parse_string t)"
proof -
  let ?h = "(of_char c :: nat) div 16" and ?l = "(of_char c :: nat) mod 16"
  have lo: "?l < 16" and hi: "?h < 16"
    using nat_of_char_less_256 [of c] by (simp, linarith)
  have z: "hex_val (CHR ''0'') = Some 0" by (simp add: hex_val_def)
  have code: "0 * 4096 + 0 * 256 + ?h * 16 + ?l = of_char c" by simp
  have bound: "0 * 4096 + 0 * 256 + ?h * 16 + ?l < 256" using code nat_of_char_less_256 [of c] by simp
  have "parse_string (u_escape c @ t) = cons_result (char_of (0 * 4096 + 0 * 256 + ?h * 16 + ?l)) (parse_string t)"
    unfolding u_escape_def append.simps
    by (rule parse_string_u [OF z z hex_val_hex_digit [OF hi] hex_val_hex_digit [OF lo] bound])
  then show ?thesis by (simp only: code char_of_char)
qed

lemma parse_string_escape_char: "parse_string (escape_char c @ t) = cons_result c (parse_string t)"
  by (simp add: escape_char_def parse_string_u_escape unescape_def)

lemma parse_string_dumps: "parse_string (concat (map escape_char s) @ CHR 0x22 # r) = Some (s, r)"
  by (induction s) (simp_all add: parse_string_escape_char cons_result_def)

section \<open>Integers read back\<close>

lemma digit_char: "(k :: nat) < 10 \<Longrightarrow> is_digit (char_of (48 + k)) \<and> of_char (char_of (48 + k)) - 48 = k"
  by (simp add: is_digit_def less_eq_char_def of_char_of)

lemma nat_digits_less: "n < 10 \<Longrightarrow> nat_digits n = [char_of (48 + n)]"
  by (subst nat_digits.simps) simp

lemma nat_digits_ge: "\<not> n < 10 \<Longrightarrow> nat_digits n = nat_digits (n div 10) @ [char_of (48 + n mod 10)]"
  by (subst nat_digits.simps) simp

lemma nat_digits_digits: "list_all is_digit (nat_digits n)"
proof (induction n rule: nat_digits.induct)
  case (1 n)
  then show ?case by (cases "n < 10") (simp_all add: digit_char nat_digits_less nat_digits_ge)
qed

lemma nat_digits_not_Nil: "nat_digits n \<noteq> []"
  by (cases "n < 10") (simp_all add: nat_digits_less nat_digits_ge)

lemma digits_val_append:
  "list_all is_digit ds \<Longrightarrow> digits_val acc (ds @ r) = digits_val (foldl (\<lambda>a c. 10 * a + (of_char c - 48)) acc ds) r"
  by (induction ds arbitrary: acc) simp_all

lemma foldl_nat_digits: "foldl (\<lambda>a c. 10 * a + (of_char c - 48)) 0 (nat_digits n) = n"
proof (induction n rule: nat_digits.induct)
  case (1 n)
  show ?case
  proof (cases "n < 10")
    case True
    then show ?thesis using digit_char [of n] by (simp add: nat_digits_less)
  next
    case False
    have "n mod 10 < 10" by simp
    with 1 False show ?thesis using digit_char [of "n mod 10"] by (simp add: nat_digits_ge)
  qed
qed

lemma digits_val_stop: "r = [] \<or> \<not> is_digit (hd r) \<Longrightarrow> digits_val acc r = (acc, r)"
  by (cases r) auto

lemma nat_digits_hd_zero: "hd (nat_digits n) = CHR ''0'' \<Longrightarrow> n = 0"
proof (induction n rule: nat_digits.induct)
  case (1 n)
  show ?case
  proof (cases "n < 10")
    case True
    then have "of_char (char_of (48 + n)) = (48 :: nat)" using 1(2) by (simp add: nat_digits_less)
    with True show ?thesis by (simp add: of_char_of)
  next
    case False
    then have "hd (nat_digits (n div 10)) = CHR ''0''"
      using 1(2) nat_digits_not_Nil [of "n div 10"] by (simp add: nat_digits_ge)
    with 1(1) False have "n div 10 = 0" by simp
    with False show ?thesis by simp
  qed
qed

lemma json_follow_stop: "json_follow r \<Longrightarrow> (r = [] \<or> \<not> is_digit (hd r)) \<and> \<not> (r \<noteq> [] \<and> hd r \<in> set ''.eE'')"
  by (auto simp: json_follow_def is_digit_def)

lemma digits_val_nat_digits:
  assumes "json_follow r"
  shows "digits_val 0 (nat_digits n @ r) = (n, r)"
proof -
  have s: "r = [] \<or> \<not> is_digit (hd r)" using json_follow_stop [OF assms] by blast
  have "digits_val 0 (nat_digits n @ r) = digits_val (foldl (\<lambda>a c. 10 * a + (of_char c - 48)) 0 (nat_digits n)) r"
    by (rule digits_val_append [OF nat_digits_digits])
  also have "\<dots> = digits_val n r" by (simp only: foldl_nat_digits)
  also have "\<dots> = (n, r)" by (rule digits_val_stop [OF s])
  finally show ?thesis .
qed

lemma parse_int_digits:
  assumes "is_digit d" and x: "(if d = CHR ''0'' then (0, ds @ r) else digits_val 0 (d # ds @ r)) = (n, r)"
    and "\<not> (r \<noteq> [] \<and> hd r \<in> set ''.eE'')"
  shows "parse_int (d # ds @ r) = Some (JInt (int n), r) \<and> parse_int (CHR ''-'' # d # ds @ r) = Some (JInt (- int n), r)"
proof -
  have "d \<noteq> CHR ''-''" using assms(1) by (auto simp: is_digit_def)
  then show ?thesis using assms(1,3) by (simp add: parse_int_def x del: digits_val.simps)
qed

lemma parse_int_nat_digits:
  assumes "json_follow r"
  shows "parse_int (nat_digits n @ r) = Some (JInt (int n), r)
         \<and> parse_int (CHR ''-'' # nat_digits n @ r) = Some (JInt (- int n), r)"
proof -
  obtain d ds where nd: "nat_digits n = d # ds" using nat_digits_not_Nil [of n] by (cases "nat_digits n") auto
  have dig: "is_digit d" using nat_digits_digits [of n] nd by simp
  have stop: "\<not> (r \<noteq> [] \<and> hd r \<in> set ''.eE'')" using json_follow_stop [OF assms(1)] by blast
  have "(if d = CHR ''0'' then (0, ds @ r) else digits_val 0 (d # ds @ r)) = (n, r)"
  proof (cases "d = CHR ''0''")
    case True
    then have "n = 0" using nat_digits_hd_zero [of n] nd by simp
    then have "ds = []" using nd by (simp add: nat_digits_less)
    with True \<open>n = 0\<close> show ?thesis by simp
  next
    case False
    then show ?thesis using digits_val_nat_digits [OF assms(1), of n] nd by simp
  qed
  from parse_int_digits [OF dig this stop] show ?thesis by (simp only: nd append_Cons)
qed

lemma parse_int_dumps: "json_follow r \<Longrightarrow> parse_int (dumps_int i @ r) = Some (JInt i, r)"
  using parse_int_nat_digits [of r "nat (- i)"] parse_int_nat_digits [of r "nat i"]
  by (simp add: dumps_int_def)

section \<open>Values read back\<close>

lemma parse_value_space: "parse_value n (CHR 0x20 # s) = parse_value n s"
  by (cases n) (simp_all add: json_ws_def)

lemma parse_elems_space: "parse_elems n acc (CHR 0x20 # s) = parse_elems n acc s"
  by (cases n) (simp_all add: parse_value_space)

lemma parse_members_space: "parse_members n acc (CHR 0x20 # s) = parse_members n acc s"
  by (cases n) (simp_all add: json_ws_def)

lemma join_sep_Cons: "join_sep sep (x # xs) = x @ (if xs = [] then [] else sep @ join_sep sep xs)"
  by (cases xs) simp_all

lemma dumps_int_hd: "\<exists>c cs. dumps_int i = c # cs \<and> (c = CHR ''-'' \<or> is_digit c)"
proof -
  obtain d ds where "nat_digits (if i < 0 then nat (- i) else nat i) = d # ds"
    using nat_digits_not_Nil by (cases "nat_digits (if i < 0 then nat (- i) else nat i)") auto
  moreover have "list_all is_digit (nat_digits (if i < 0 then nat (- i) else nat i))" by (rule nat_digits_digits)
  ultimately show ?thesis by (cases "i < 0") (auto simp: dumps_int_def)
qed

text \<open>Every text \<open>json_dumps\<close> writes starts with a character that opens a value.\<close>

lemma json_dumps_hd: "\<exists>c cs. json_dumps v = c # cs \<and> \<not> json_ws c \<and> c \<noteq> CHR '']'' \<and> c \<noteq> CHR ''}''"
proof (cases v)
  case (JInt i)
  then show ?thesis using dumps_int_hd [of i] by (auto simp: is_digit_def json_ws_def)
qed (auto simp: dumps_string_def json_ws_def)

lemma skip_ws_dumps: "skip_ws (json_dumps v @ r) = json_dumps v @ r"
  using json_dumps_hd [of v] by auto

lemma parse_int_value:
  assumes "json_follow r"
  shows "parse_value (Suc m) (dumps_int i @ r) = Some (JInt i, r)"
proof -
  obtain c cs where ci: "dumps_int i = c # cs" and c: "c = CHR ''-'' \<or> is_digit c" using dumps_int_hd [of i] by blast
  then have "\<not> json_ws c" "c \<noteq> CHR 0x22" "c \<noteq> CHR ''[''" "c \<noteq> CHR ''{''" "c \<noteq> CHR ''n''" "c \<noteq> CHR ''t''" "c \<noteq> CHR ''f''"
    by (auto simp: is_digit_def json_ws_def)
  then have "parse_value (Suc m) (dumps_int i @ r) = parse_int (dumps_int i @ r)"
    by (simp add: ci startswith_def)
  also have "\<dots> = Some (JInt i, r)" by (rule parse_int_dumps [OF assms])
  finally show ?thesis .
qed

lemma parse_elems_dumps:
  assumes ih: "\<And>v n r. v \<in> set vs \<Longrightarrow> size v < n \<Longrightarrow> json_follow r \<Longrightarrow> parse_value n (json_dumps v @ r) = Some (v, r)"
    and "vs \<noteq> []" and "size_list size vs < n"
  shows "parse_elems n acc (join_sep '', '' (map json_dumps vs) @ CHR '']'' # r) = Some (JArray (acc @ vs), r)"
  using assms
proof (induction vs arbitrary: acc n)
  case Nil
  then show ?case by simp
next
  case (Cons v vs)
  obtain m where n: "n = Suc m" using Cons.prems(3) by (cases n) auto
  have sv: "size v < m" using Cons.prems(3) n by simp
  show ?case
  proof (cases "vs = []")
    case True
    have "parse_value m (json_dumps v @ CHR '']'' # r) = Some (v, CHR '']'' # r)"
      by (rule Cons.prems(1)) (simp_all add: sv json_follow_def)
    with True n show ?thesis by (simp add: json_ws_def)
  next
    case False
    have pv: "parse_value m (json_dumps v @ '', '' @ join_sep '', '' (map json_dumps vs) @ CHR '']'' # r)
        = Some (v, '', '' @ join_sep '', '' (map json_dumps vs) @ CHR '']'' # r)"
      by (rule Cons.prems(1)) (simp_all add: sv json_follow_def)
    have "parse_elems m (acc @ [v]) (join_sep '', '' (map json_dumps vs) @ CHR '']'' # r) = Some (JArray ((acc @ [v]) @ vs), r)"
      using Cons.prems(3) n False by (intro Cons.IH) (auto intro: Cons.prems(1))
    with pv n False show ?thesis by (simp add: join_sep_Cons parse_elems_space json_ws_def)
  qed
qed

lemma parse_members_dumps:
  assumes ih: "\<And>k v n r. (k, v) \<in> set kvs \<Longrightarrow> size v < n \<Longrightarrow> json_follow r \<Longrightarrow> parse_value n (json_dumps v @ r) = Some (v, r)"
    and "kvs \<noteq> []" and "size_list (size_prod (\<lambda>x. 0) size) kvs < n"
  shows "parse_members n acc (join_sep '', '' (map (\<lambda>(k, v). dumps_string k @ '': '' @ json_dumps v) kvs) @ CHR ''}'' # r)
           = Some (JObject (acc @ kvs), r)"
  using assms
proof (induction kvs arbitrary: acc n)
  case Nil
  then show ?case by simp
next
  case (Cons kv kvs)
  obtain k v where kv: "kv = (k, v)" by (cases kv)
  obtain m where n: "n = Suc m" using Cons.prems(3) by (cases n) auto
  have sv: "size v < m" using Cons.prems(3) n kv by simp
  have key: "parse_string (concat (map escape_char k) @ CHR 0x22 # t) = Some (k, t)" for t
    by (rule parse_string_dumps)
  show ?case
  proof (cases "kvs = []")
    case True
    have "parse_value m (json_dumps v @ CHR ''}'' # r) = Some (v, CHR ''}'' # r)"
      by (rule Cons.prems(1) [of k]) (simp_all add: kv sv json_follow_def)
    with True n kv key show ?thesis by (simp add: dumps_string_def parse_value_space json_ws_def)
  next
    case False
    let ?rest = "join_sep '', '' (map (\<lambda>(k, v). dumps_string k @ '': '' @ json_dumps v) kvs) @ CHR ''}'' # r"
    have pv: "parse_value m (json_dumps v @ '', '' @ ?rest) = Some (v, '', '' @ ?rest)"
      by (rule Cons.prems(1) [of k]) (simp_all add: kv sv json_follow_def)
    have "parse_members m (acc @ [(k, v)]) ?rest = Some (JObject ((acc @ [(k, v)]) @ kvs), r)"
      using Cons.prems(3) n kv False by (intro Cons.IH) (auto intro: Cons.prems(1))
    with pv n False kv key show ?thesis
      by (simp add: join_sep_Cons parse_members_space parse_value_space dumps_string_def json_ws_def)
  qed
qed

lemma parse_value_dumps: "size v < n \<Longrightarrow> json_follow r \<Longrightarrow> parse_value n (json_dumps v @ r) = Some (v, r)"
proof (induction v arbitrary: n r)
  case JNull
  then show ?case by (cases n) (simp_all add: startswith_def json_ws_def)
next
  case (JBool b)
  then show ?case by (cases n; cases b) (simp_all add: startswith_def json_ws_def)
next
  case (JInt i)
  then show ?case using parse_int_value [of r _ i] by (cases n) simp_all
next
  case (JString s)
  then show ?case by (cases n) (simp_all add: dumps_string_def parse_string_dumps json_ws_def)
next
  case (JArray vs)
  obtain m where n: "n = Suc m" using JArray.prems(1) by (cases n) auto
  show ?case
  proof (cases "vs = []")
    case True
    with n show ?thesis by (simp add: json_ws_def)
  next
    case False
    then obtain v vs' where vs: "vs = v # vs'" by (cases vs) auto
    have el: "parse_elems m [] (join_sep '', '' (map json_dumps vs) @ CHR '']'' # r) = Some (JArray vs, r)"
      using parse_elems_dumps [of vs m "[]" r] JArray.IH JArray.prems(1) n False by simp
    have "skip_ws (join_sep '', '' (map json_dumps vs) @ CHR '']'' # r) = join_sep '', '' (map json_dumps vs) @ CHR '']'' # r"
      using skip_ws_dumps [of v] vs by (simp add: join_sep_Cons)
    moreover obtain c cs where "json_dumps v = c # cs" "c \<noteq> CHR '']''" using json_dumps_hd [of v] by blast
    ultimately show ?thesis using el n vs by (simp add: join_sep_Cons json_ws_def)
  qed
next
  case (JObject kvs)
  obtain m where n: "n = Suc m" using JObject.prems(1) by (cases n) auto
  show ?case
  proof (cases "kvs = []")
    case True
    with n show ?thesis by (simp add: json_ws_def)
  next
    case False
    then obtain k v kvs' where kvs: "kvs = (k, v) # kvs'" by (cases kvs) auto
    have ih: "\<And>k v n r. (k, v) \<in> set kvs \<Longrightarrow> size v < n \<Longrightarrow> json_follow r \<Longrightarrow> parse_value n (json_dumps v @ r) = Some (v, r)"
      by (rule JObject.IH) (auto simp: prod_set_simps)
    have el: "parse_members m [] (join_sep '', '' (map (\<lambda>(k, v). dumps_string k @ '': '' @ json_dumps v) kvs) @ CHR ''}'' # r)
        = Some (JObject kvs, r)"
      using parse_members_dumps [of kvs m "[]" r] ih JObject.prems(1) n False by simp
    with n kvs show ?thesis by (simp add: join_sep_Cons dumps_string_def json_ws_def)
  qed
qed

text \<open>The fuel: a value has fewer constructors than its text has characters.\<close>

lemma length_join_sep: "sum_list (map length xs) \<le> length (join_sep sep xs)"
  by (induction sep xs rule: join_sep.induct) auto

lemma size_list_less_sum: "(\<And>x. x \<in> set xs \<Longrightarrow> f x < g x) \<Longrightarrow> size_list f xs \<le> sum_list (map g xs)"
  by (induction xs) fastforce+

lemma size_json_dumps: "size v < length (json_dumps v)"
proof (induction v)
  case (JInt i)
  then show ?case using dumps_int_hd [of i] by auto
next
  case (JString s)
  then show ?case by (simp add: dumps_string_def)
next
  case (JArray vs)
  have "size_list size vs \<le> sum_list (map (length \<circ> json_dumps) vs)"
    by (rule size_list_less_sum) (simp add: JArray.IH)
  also have "\<dots> \<le> length (join_sep '', '' (map json_dumps vs))"
    using length_join_sep [of "map json_dumps vs" "'', ''"] by (simp add: comp_def)
  finally show ?case by simp
next
  case (JObject kvs)
  have "size_list (size_prod (\<lambda>x. 0) size) kvs
      \<le> sum_list (map (length \<circ> (\<lambda>(k, v). dumps_string k @ '': '' @ json_dumps v)) kvs)"
  proof (rule size_list_less_sum)
    fix kv assume m: "kv \<in> set kvs"
    obtain k v where kv: "kv = (k, v)" by (cases kv)
    have "size v < length (json_dumps v)" using JObject.IH [OF m [unfolded kv]] by (simp add: prod_set_simps)
    then show "size_prod (\<lambda>x. 0) size kv < (length \<circ> (\<lambda>(k, v). dumps_string k @ '': '' @ json_dumps v)) kv"
      using kv by (simp add: dumps_string_def)
  qed
  also have "\<dots> \<le> length (join_sep '', '' (map (\<lambda>(k, v). dumps_string k @ '': '' @ json_dumps v) kvs))"
    using length_join_sep [of "map (\<lambda>(k, v). dumps_string k @ '': '' @ json_dumps v) kvs" "'', ''"]
    by (simp add: comp_def)
  finally show ?case by simp
qed simp_all

lemma loads_dumps: "json_loads (json_dumps v) = Some v"
  using parse_value_dumps [of v "Suc (length (json_dumps v))" "[]"] size_json_dumps [of v]
  by (simp add: json_loads_def json_follow_def)

section \<open>The columns read back\<close>

lemma those_map_inverse: "(\<And>x. x \<in> set xs \<Longrightarrow> f (g x) = Some x) \<Longrightarrow> those (map f (map g xs)) = Some xs"
  by (induction xs) auto

lemma inst_of_inst_json: "inst_of_json (inst_json i) = Some i"
  by (cases "inst_id i"; cases "inst_display_name i") (simp_all add: inst_of_json_def inst_json_def field_json_def json_get_def)

lemma authorship_of_authorship_json: "authorship_of_json (authorship_json a) = Some a"
proof -
  have "those (map inst_of_json (map inst_json (au_institutions a))) = Some (au_institutions a)"
    by (rule those_map_inverse) (rule inst_of_inst_json)
  moreover have "those (map string_of (map JString (au_countries a))) = Some (au_countries a)"
    by (rule those_map_inverse) (simp add: string_of_def)
  ultimately show ?thesis
    by (cases "au_id a"; cases "au_name a") (simp_all add: authorship_of_json_def authorship_json_def field_json_def json_get_def list_of_def)
qed

lemma subfield_of_subfield_json: "subfield_of_json (subfield_json sd) = Some sd"
  by (cases "sf_id sd"; cases "sf_display_name sd") (simp_all add: subfield_of_json_def subfield_json_def field_json_def json_get_def)

text \<open>
  C20. The builders read back what the collector wrote: \<open>json.loads\<close> of the
  \<open>authorships\<close> column as \<open>process_work\<close> dumps it gives every author entry with its
  id, name, institutions and countries, and the \<open>subfield\<close> column gives the
  subfield object, so the record model of a row is the builders' view of its text.
\<close>

theorem read_write_columns:
  "read_authorships (write_authorships as) = Some (Some as)
   \<and> read_subfield (write_subfield sd) = Some (Some sd)"
proof -
  have "those (map authorship_of_json (map authorship_json as)) = Some as"
    by (rule those_map_inverse) (rule authorship_of_authorship_json)
  moreover have "json_loads (write_authorships as) = Some (JArray (map authorship_json as))"
    unfolding write_authorships_def by (rule loads_dumps)
  moreover have "json_loads (write_subfield sd) = Some (subfield_json sd)"
    unfolding write_subfield_def by (rule loads_dumps)
  ultimately show ?thesis
    by (simp add: read_authorships_def read_subfield_def parse_json_field_def subfield_of_subfield_json del: map_map)
qed

end
