(* ===== verification/Stats.thy ===== *)
theory Stats
  imports Collector JsonText
begin

text \<open>
  The two reporting scripts: \<open>src/src/get_big_numbers.py\<close> (works and citation
  sums per country, ranked) and \<open>src/src/get_publication_subfield_counts.py\<close>
  (works and citation sums per year and subfield for one country).  Both read
  only the \<open>meta\<close> object of an API answer; the request is a parameter, an
  answer being the exception it raised or the \<open>meta\<close> field (absent, \<open>null\<close> or
  an object whose \<open>count\<close> and \<open>cited_by_count_sum\<close> fields may be absent,
  \<open>null\<close> or integers).  Python's \<open>None\<close> is \<open>None\<close>.  The float
  \<open>round(citations / total, 2)\<close> is kept as its two operands.  The output files
  of both scripts are a store from file names to the rows written; printing and
  sleeps are not modelled.  \<open>get_publication_subfield_counts.py\<close> has its own
  copy of \<open>read_email_from_json\<close>, the same code as the collector's.

  For \<open>get_big_numbers.py\<close>: every error of the country loop is the
  \<open>TypeError\<close> of unpacking, one failed request is enough to end the run with no
  file (\<open>big_numbers_run_fails\<close>), and otherwise the rows carry the countries and
  ranks 1 to 15 in list order and are written sorted by publications
  (\<open>big_numbers_run_file\<close>).
\<close>

type_synonym meta_answer = "py_exception + (int jval \<times> int jval) jval"

definition COUNTRY_CODES :: "string list" where
  "COUNTRY_CODES = [''CN'', ''US'', ''ID'', ''IN'', ''GB'', ''DE'', ''JP'', ''RU'', ''CA'', ''FR'',
                    ''KR'', ''BR'', ''IT'', ''ES'', ''AU'']"

text \<open>\<open>data.get("meta", {}).get(key, 0)\<close> on both keys; \<open>None\<close> when \<open>meta\<close> is \<open>null\<close>.\<close>

definition meta_counts :: "(int jval \<times> int jval) jval \<Rightarrow> (int option \<times> int option) option" where
  "meta_counts meta =
     (case jget_or (JAbsent, JAbsent) meta of
        None \<Rightarrow> None
      | Some (c, s) \<Rightarrow> Some (jget_or 0 c, jget_or 0 s))"

section \<open>get_big_numbers.py\<close>

text \<open>\<open>get_count\<close>: the pair of counts, or the integer \<open>0\<close> of its \<open>except\<close> branch.\<close>

datatype count_result = CountPair "int option" "int option" | CountZero

definition get_count :: "meta_answer \<Rightarrow> count_result" where
  "get_count answer =
     (case answer of
        Inl _ \<Rightarrow> CountZero
      | Inr meta \<Rightarrow> (case meta_counts meta of None \<Rightarrow> CountZero | Some (t, c) \<Rightarrow> CountPair t c))"

record big_row =
  br_rank :: int
  br_country :: string
  br_total_publications :: int
  br_citation_count :: "int option"
  br_ratio :: "(int \<times> int) option"

text \<open>
  One iteration of the country loop: unpacking \<open>0\<close> into two names raises
  \<open>TypeError\<close>, and so do \<open>None > 0\<close> and \<open>None / total\<close>; with no publications
  the ratio is \<open>0\<close> and a \<open>null\<close> citation sum is stored as \<open>None\<close>.
\<close>

definition big_numbers_row :: "int \<Rightarrow> string \<Rightarrow> count_result \<Rightarrow> py_exception + big_row" where
  "big_numbers_row rank country r =
     (case r of
        CountZero \<Rightarrow> Inl TypeError
      | CountPair None _ \<Rightarrow> Inl TypeError
      | CountPair (Some t) c \<Rightarrow>
          (if 0 < t then (case c of None \<Rightarrow> Inl TypeError
                          | Some cs \<Rightarrow> Inr \<lparr>br_rank = rank, br_country = country, br_total_publications = t,
                                            br_citation_count = Some cs, br_ratio = Some (cs, t)\<rparr>)
           else Inr \<lparr>br_rank = rank, br_country = country, br_total_publications = t,
                     br_citation_count = c, br_ratio = None\<rparr>))"

text \<open>The loop with its running \<open>rank\<close>, then \<open>results.sort(key=..., reverse=True)\<close>, which is stable.\<close>

fun big_numbers_loop :: "(string \<Rightarrow> meta_answer) \<Rightarrow> int \<Rightarrow> string list \<Rightarrow> py_exception + big_row list" where
  "big_numbers_loop answers rank [] = Inr []"
| "big_numbers_loop answers rank (country # cs) =
     (case big_numbers_row rank country (get_count (answers country)) of
        Inl e \<Rightarrow> Inl e
      | Inr row \<Rightarrow> (case big_numbers_loop answers (rank + 1) cs of Inl e \<Rightarrow> Inl e | Inr rows \<Rightarrow> Inr (row # rows)))"

definition big_numbers_main :: "(string \<Rightarrow> meta_answer) \<Rightarrow> py_exception + big_row list" where
  "big_numbers_main answers =
     (case big_numbers_loop answers 1 COUNTRY_CODES of
        Inl e \<Rightarrow> Inl e
      | Inr results \<Rightarrow> Inr (sort_key (\<lambda>x. - br_total_publications x) results))"

definition BIG_OUTPUT_FILE :: string where
  "BIG_OUTPUT_FILE = ''../data/csv/big_numbers.csv''"

definition BIG_FIELDNAMES :: "string list" where
  "BIG_FIELDNAMES = [''rank'', ''country'', ''total_publications'', ''citation_count'', ''ratio'']"

text \<open>
  A row as \<open>csv.DictWriter\<close> writes it: the values of the fields in the order
  of \<open>fieldnames\<close>: the ratio \<open>round(c / t, 2)\<close> as its two operands \<open>c/t\<close>, and
  the integer \<open>0\<close> of the \<open>else\<close> branch when there are no publications; a
  \<open>None\<close> citation sum is written as an empty cell.
\<close>

definition big_csv_row :: "big_row \<Rightarrow> string list" where
  "big_csv_row r =
     [dumps_int (br_rank r), br_country r, dumps_int (br_total_publications r),
      (case br_citation_count r of None \<Rightarrow> [] | Some c \<Rightarrow> dumps_int c),
      (case br_ratio r of None \<Rightarrow> ''0'' | Some (c, t) \<Rightarrow> dumps_int c @ ''/'' @ dumps_int t)]"

text \<open>
  The whole script: the loop and sort of \<open>main\<close>, then the CSV file with its
  header.  An exception of the loop is not caught, so no file is written; a
  failed write is only printed, which the store \<open>fs\<close> left unchanged models.
\<close>

definition big_numbers_run ::
  "(string \<Rightarrow> meta_answer) \<Rightarrow> bool \<Rightarrow> (string \<rightharpoonup> string list list) \<Rightarrow>
   (string \<rightharpoonup> string list list) \<times> py_exception option" where
  "big_numbers_run answers write_ok fs =
     (case big_numbers_main answers of
        Inl e \<Rightarrow> (fs, Some e)
      | Inr results \<Rightarrow>
          (if write_ok then (fs(BIG_OUTPUT_FILE \<mapsto> BIG_FIELDNAMES # map big_csv_row results), None)
           else (fs, None)))"

section \<open>get_publication_subfield_counts.py\<close>

definition SC_COUNTRY_CODE :: string where
  "SC_COUNTRY_CODE = ''IN''"

definition SC_PUBLICATION_YEAR :: "string list" where
  "SC_PUBLICATION_YEAR = [''2024'', ''2023'', ''2022'', ''2021'', ''2020'', ''2019'']"

text \<open>\<open>fetch_publication_count\<close>: no \<open>except\<close> here, so a \<open>null\<close> meta raises.\<close>

definition fetch_publication_count :: "meta_answer \<Rightarrow> py_exception + (int option \<times> int option)" where
  "fetch_publication_count answer =
     (case answer of
        Inl e \<Rightarrow> Inl e
      | Inr meta \<Rightarrow> (case meta_counts meta of None \<Rightarrow> Inl AttributeError | Some p \<Rightarrow> Inr p))"

record count_row =
  sc_year :: string
  sc_subfield_id :: string
  sc_subfield_display_name :: string
  sc_count :: "int option"
  sc_citation_count :: "int option"

text \<open>
  The two loops of \<open>main\<close>; a failed request is logged and its row left out.
  An empty subfield table makes \<open>main\<close> return without output.
\<close>

definition subfield_counts_main ::
  "(string \<Rightarrow> string \<Rightarrow> meta_answer) \<Rightarrow> (string \<times> string) list \<Rightarrow> count_row list option" where
  "subfield_counts_main answers subfields =
     (if subfields = [] then None
      else Some (concat (map (\<lambda>year. List.map_filter
               (\<lambda>(subfield_id, subfield_display_name).
                  (case fetch_publication_count (answers year subfield_id) of
                     Inl _ \<Rightarrow> None
                   | Inr (count, citation_count) \<Rightarrow>
                       Some \<lparr>sc_year = year, sc_subfield_id = subfield_id,
                             sc_subfield_display_name = subfield_display_name,
                             sc_count = count, sc_citation_count = citation_count\<rparr>))
               subfields) SC_PUBLICATION_YEAR)))"

text \<open>
  The script's own \<open>read_email_from_json\<close>, a copy of the collector's function
  (\<open>sc_read_email_agrees\<close> below shows the two agree).
\<close>

definition sc_read_email_from_json :: "py_exception + email_doc \<Rightarrow> py_exception + string" where
  "sc_read_email_from_json loaded =
     (case loaded of
        Inl JSONDecodeError \<Rightarrow> Inl ValueError
      | Inl e \<Rightarrow> Inl e
      | Inr EmailOther \<Rightarrow> Inl AttributeError
      | Inr (EmailObject email) \<Rightarrow>
          (case email of JVal s \<Rightarrow> (if s = [] then Inl ValueError else Inr s) | _ \<Rightarrow> Inl ValueError))"

definition SC_OUTPUT_CSV :: string where
  "SC_OUTPUT_CSV = ''../data/csv/publication_counts_'' @ SC_COUNTRY_CODE @ ''.csv''"

text \<open>
  \<open>main\<close> of \<open>get_publication_subfield_counts.py\<close> around the loops: the e-mail
  (sent as \<open>mailto\<close>), the subfield table (its rows, or the exception of
  \<open>pd.read_csv\<close>), the \<open>country_code\<close> column added to every row, and the
  file written.  The outer \<open>except\<close> logs and re-raises.
\<close>

definition publication_counts_main ::
  "py_exception + email_doc \<Rightarrow> py_exception + (string \<times> string) list \<Rightarrow>
   (string \<Rightarrow> string \<Rightarrow> string \<Rightarrow> meta_answer) \<Rightarrow> (string \<rightharpoonup> (count_row \<times> string) list) \<Rightarrow>
   (string \<rightharpoonup> (count_row \<times> string) list) \<times> py_exception option" where
  "publication_counts_main email_file subfields_csv answers fs =
     (case sc_read_email_from_json email_file of
        Inl e \<Rightarrow> (fs, Some e)
      | Inr email \<Rightarrow>
          (case subfields_csv of
             Inl e \<Rightarrow> (fs, Some e)
           | Inr subfields \<Rightarrow>
               (case subfield_counts_main (answers email) subfields of
                  None \<Rightarrow> (fs, None)
                | Some results \<Rightarrow> (fs(SC_OUTPUT_CSV \<mapsto> map (\<lambda>r. (r, SC_COUNTRY_CODE)) results), None))))"

text \<open>Sample answers: every country gets the given counts, \<open>CN\<close> and \<open>US\<close> their own.\<close>

definition sample_answers :: "meta_answer \<Rightarrow> meta_answer \<Rightarrow> string \<Rightarrow> meta_answer" where
  "sample_answers cn us country =
     (if country = ''CN'' then cn else if country = ''US'' then us else Inr (JVal (JVal 1, JVal 0)))"

lemma sc_read_email_agrees: "sc_read_email_from_json = read_email_from_json"
  by (rule ext) (simp add: sc_read_email_from_json_def read_email_from_json_def)

lemma big_numbers_row_Inl: "big_numbers_row rank country r = Inl e \<Longrightarrow> e = TypeError"
  by (auto simp: big_numbers_row_def split: count_result.splits option.splits if_splits)

lemma big_numbers_loop_Inl: "big_numbers_loop answers rank cs = Inl e \<Longrightarrow> e = TypeError"
  by (induction answers rank cs rule: big_numbers_loop.induct)
     (auto split: sum.splits dest: big_numbers_row_Inl)

lemma big_numbers_loop_fails:
  "c \<in> set cs \<Longrightarrow> get_count (answers c) = CountZero \<Longrightarrow> big_numbers_loop answers rank cs = Inl TypeError"
proof (induction answers rank cs rule: big_numbers_loop.induct)
  case (1 answers rank)
  then show ?case by simp
next
  case (2 answers rank country cs)
  show ?case
  proof (cases "big_numbers_loop answers rank (country # cs)")
    case (Inl e)
    then show ?thesis using big_numbers_loop_Inl by blast
  next
    case (Inr rows)
    with 2 show ?thesis
      by (auto simp: big_numbers_row_def split: sum.splits count_result.splits if_splits)
  qed
qed

lemma big_numbers_loop_rows:
  "big_numbers_loop answers rank cs = Inr rows \<Longrightarrow>
     map br_country rows = cs \<and> map br_rank rows = [rank..rank + int (length cs) - 1]"
proof (induction answers rank cs arbitrary: rows rule: big_numbers_loop.induct)
  case (1 answers rank)
  then show ?case by simp
next
  case (2 answers rank country cs)
  then obtain row rows' where row: "big_numbers_row rank country (get_count (answers country)) = Inr row"
    and rest: "big_numbers_loop answers (rank + 1) cs = Inr rows'" and rows: "rows = row # rows'"
    by (auto split: sum.splits)
  have "br_country row = country \<and> br_rank row = rank"
    using row by (auto simp: big_numbers_row_def split: count_result.splits option.splits if_splits)
  moreover have "[rank..rank + int (length (country # cs)) - 1] = rank # [rank + 1..rank + 1 + int (length cs) - 1]"
    by (simp add: upto.simps [of rank] algebra_simps)
  ultimately show ?case using "2.IH" [OF row rest] rows by simp
qed

text \<open>
  C29. One failed request ends \<open>get_big_numbers.py\<close>: \<open>get_count\<close> then returns
  the integer \<open>0\<close>, which \<open>main\<close> cannot unpack into two counts, so the run dies
  with \<open>TypeError\<close> and writes no file, whatever the other countries answered.
\<close>

theorem big_numbers_run_fails:
  assumes "c \<in> set COUNTRY_CODES" and "get_count (answers c) = CountZero"
  shows "big_numbers_run answers write_ok fs = (fs, Some TypeError)"
  using assms by (simp add: big_numbers_run_def big_numbers_main_def big_numbers_loop_fails)

theorem big_numbers_run_fails_witness:
  "''US'' \<in> set COUNTRY_CODES
   \<and> get_count (sample_answers (Inr (JVal (JVal 10, JVal 5))) (Inl RequestException) ''US'') = CountZero
   \<and> big_numbers_run (sample_answers (Inr (JVal (JVal 10, JVal 5))) (Inl RequestException)) True Map.empty
       = (Map.empty, Some TypeError)"
proof -
  have c: "''US'' \<in> set COUNTRY_CODES" by (simp add: COUNTRY_CODES_def)
  have z: "get_count (sample_answers (Inr (JVal (JVal 10, JVal 5))) (Inl RequestException) ''US'') = CountZero"
    by (simp add: sample_answers_def get_count_def)
  from big_numbers_run_fails [of "''US''" "sample_answers (Inr (JVal (JVal 10, JVal 5))) (Inl RequestException)"
                                True Map.empty, OF c z] c z
  show ?thesis by simp
qed

text \<open>
  C30. What \<open>get_big_numbers.py\<close> writes when every request succeeds: the header,
  then the rows sorted by publications (ties in list order); each row keeps the
  rank of its country's position in \<open>COUNTRY_CODES\<close>, assigned before the sort,
  so the rank column need not follow the order of the file.
\<close>

theorem big_numbers_run_file:
  assumes "big_numbers_loop answers 1 COUNTRY_CODES = Inr rows"
  shows "big_numbers_run answers True fs
           = (fs(BIG_OUTPUT_FILE \<mapsto> BIG_FIELDNAMES # map big_csv_row (sort_key (\<lambda>x. - br_total_publications x) rows)), None)
         \<and> map br_country rows = COUNTRY_CODES \<and> map br_rank rows = [1..15]"
  using assms big_numbers_loop_rows [OF assms]
  by (simp add: big_numbers_run_def big_numbers_main_def COUNTRY_CODES_def)

theorem big_numbers_run_file_witness:
  "big_numbers_loop (sample_answers (Inr (JVal (JVal 10, JVal 5))) (Inr (JVal (JVal 20, JVal 5)))) 1 COUNTRY_CODES
     = Inr (projr (big_numbers_loop (sample_answers (Inr (JVal (JVal 10, JVal 5))) (Inr (JVal (JVal 20, JVal 5))))
                     1 COUNTRY_CODES))
   \<and> map (\<lambda>r. (br_rank r, br_country r))
       (take 2 (sort_key (\<lambda>x. - br_total_publications x)
          (projr (big_numbers_loop (sample_answers (Inr (JVal (JVal 10, JVal 5))) (Inr (JVal (JVal 20, JVal 5))))
                    1 COUNTRY_CODES))))
     = [(2, ''US''), (1, ''CN'')]"
proof -
  let ?a = "sample_answers (Inr (JVal (JVal 10, JVal 5))) (Inr (JVal (JVal 20, JVal 5)))"
  have run: "big_numbers_loop ?a 1 COUNTRY_CODES = Inr (projr (big_numbers_loop ?a 1 COUNTRY_CODES))"
    by (simp add: COUNTRY_CODES_def sample_answers_def get_count_def meta_counts_def big_numbers_row_def)
  from big_numbers_run_file [OF run, of Map.empty] run show ?thesis
    by (simp add: COUNTRY_CODES_def sample_answers_def get_count_def meta_counts_def big_numbers_row_def)
qed

end
