(* ===== verification/Researchers.thy ===== *)
theory Researchers
  imports CsIndex
begin

text \<open>
  \<open>src/src/collect_researchers.py\<close> builds the researcher table that
  \<open>construct_networks_csindex.py\<close> reads: it loads the CSIndex researcher list
  (name, institution, \<open>pid\<close>), then for each sub-area loads that sub-area's list of
  (name, institution) pairs and appends the sub-area to every researcher whose
  pair is listed; a sub-area whose list fails to load is logged and skipped, and
  finally researchers with no sub-area are dropped.  The downloads are
  parameters: the main table or its exception, and each sub-area's pairs or the
  exception.  The rows are the \<open>researcher\<close> records of \<open>CsIndex\<close>.
\<close>

definition CR_SUB_AREAS :: "string list" where
  "CR_SUB_AREAS = [''ai'', ''arch'', ''bio'', ''chi'', ''cse'', ''data'', ''dbis'', ''ds'', ''formal'',
                   ''graphics'', ''hardware'', ''ir'', ''net'', ''or'', ''pl'', ''robotics'', ''se'',
                   ''security'', ''theory'', ''vision'']"

text \<open>One iteration of the sub-area loop: \<open>df.at[idx, "sub_areas"].append(sub_area)\<close> on a match.\<close>

definition cr_sub_area_step ::
  "(string \<Rightarrow> py_exception + (string \<times> string) list) \<Rightarrow> researcher list \<Rightarrow> string \<Rightarrow> researcher list" where
  "cr_sub_area_step sub_csv df sub_area =
     (case sub_csv sub_area of
        Inl _ \<Rightarrow> df
      | Inr sub_df \<Rightarrow>
          map (\<lambda>row. if (rr_researcher row, rr_institution row) \<in> set sub_df
                     then row\<lparr>rr_sub_areas := rr_sub_areas row @ [sub_area]\<rparr> else row) df)"

text \<open>\<open>main\<close>: \<open>None\<close> when the main table fails to load (the script returns).\<close>

definition collect_researchers_main ::
  "py_exception + (string \<times> string \<times> string) list \<Rightarrow> (string \<Rightarrow> py_exception + (string \<times> string) list)
   \<Rightarrow> researcher list option" where
  "collect_researchers_main main_csv sub_csv =
     (case main_csv of
        Inl _ \<Rightarrow> None
      | Inr rows \<Rightarrow>
          (let df = map (\<lambda>(researcher, institution, pid).
                       \<lparr>rr_pid = pid, rr_researcher = researcher, rr_institution = institution, rr_sub_areas = []\<rparr>) rows;
               df' = foldl (cr_sub_area_step sub_csv) df CR_SUB_AREAS
           in Some (filter (\<lambda>row. rr_sub_areas row \<noteq> []) df')))"

text \<open>Whether a sub-area's list loaded and lists the pair.\<close>

definition listed_in :: "(string \<Rightarrow> py_exception + (string \<times> string) list) \<Rightarrow> string \<times> string \<Rightarrow> string \<Rightarrow> bool" where
  "listed_in sub_csv key sub_area = (case sub_csv sub_area of Inl _ \<Rightarrow> False | Inr sub_df \<Rightarrow> key \<in> set sub_df)"

lemma cr_steps:
  "foldl (cr_sub_area_step sub_csv) df sas
     = map (\<lambda>row. row\<lparr>rr_sub_areas := rr_sub_areas row
                        @ filter (listed_in sub_csv (rr_researcher row, rr_institution row)) sas\<rparr>) df"
proof (induction sas arbitrary: df rule: rev_induct)
  case Nil
  then show ?case by simp
next
  case (snoc sa sas)
  then show ?case
    by (auto simp: cr_sub_area_step_def listed_in_def split: sum.splits)
qed

text \<open>
  C28. The researcher table: each researcher's sub-areas are, in the order of
  \<open>sub_areas\<close>, those whose list loaded and lists the researcher's (name,
  institution) pair; exactly the researchers with at least one sub-area are kept,
  in the order of the main table.
\<close>

theorem collect_researchers_table:
  "collect_researchers_main (Inr rows) sub_csv
     = Some (filter (\<lambda>row. rr_sub_areas row \<noteq> [])
               (map (\<lambda>(researcher, institution, pid).
                       \<lparr>rr_pid = pid, rr_researcher = researcher, rr_institution = institution,
                        rr_sub_areas = filter (listed_in sub_csv (researcher, institution)) CR_SUB_AREAS\<rparr>) rows))"
  by (simp add: collect_researchers_main_def cr_steps o_def split_def)

end
