(* ===== verification/PyLiteral.thy ===== *)
theory PyLiteral
  imports JsonText
begin

text \<open>
  The \<open>sub_areas\<close> column of the researcher table.  \<open>collect_researchers.py\<close>
  writes a list of strings with \<open>df.to_csv\<close>, that is as \<open>str(list)\<close>: the
  \<open>repr\<close> of each string between \<open>[\<close> and \<open>]\<close>, separated by \<open>", "\<close>.
  \<open>construct_networks_csindex.py\<close> reads it back with \<open>eval\<close>.

  \<^item> \<open>py_repr_str\<close> is CPython's \<open>unicode_repr\<close> on a string of Latin-1
    characters: single quotes unless the string holds a single quote and no
    double quote; the quote and the backslash escaped; \<open>\t\<close>, \<open>\n\<close>, \<open>\r\<close>; every
    other non-printable character as \<open>\xhh\<close>.
  \<^item> \<open>py_eval_list\<close> is \<open>eval\<close> on the list displays of string literals: string
    literals in either quote with the escapes \<open>\\\<close>, \<open>\'\<close>, \<open>\"\<close>, \<open>\a\<close>,
    \<open>\b\<close>, \<open>\f\<close>, \<open>\n\<close>, \<open>\r\<close>, \<open>\t\<close>, \<open>\v\<close> and \<open>\xhh\<close>, a backslash before any
    other letter kept as it is, whitespace between tokens and a trailing comma.
    Octal and \<open>\N\<close>, \<open>\u\<close>, \<open>\U\<close> escapes, implicit concatenation of literals,
    prefixes such as \<open>r\<close> and every other expression are outside the model
    (\<open>None\<close>, as for a text \<open>eval\<close> rejects).
\<close>

section \<open>repr\<close>

text \<open>\<open>Py_UNICODE_ISPRINTABLE\<close> on the first 256 code points.\<close>

definition py_printable :: "char \<Rightarrow> bool" where
  "py_printable c \<longleftrightarrow> (CHR 0x20 \<le> c \<and> c \<le> CHR 0x7E) \<or> (CHR 0xA1 \<le> c \<and> c \<noteq> CHR 0xAD)"

definition repr_quote :: "string \<Rightarrow> char" where
  "repr_quote s = (if CHR 0x27 \<in> set s \<and> CHR 0x22 \<notin> set s then CHR 0x22 else CHR 0x27)"

definition repr_char :: "char \<Rightarrow> char \<Rightarrow> string" where
  "repr_char q c =
     (if c = q \<or> c = CHR 0x5C then [CHR 0x5C, c]
      else if c = CHR 0x09 then [CHR 0x5C, CHR ''t'']
      else if c = CHR 0x0A then [CHR 0x5C, CHR ''n'']
      else if c = CHR 0x0D then [CHR 0x5C, CHR ''r'']
      else if \<not> py_printable c then [CHR 0x5C, CHR ''x'', hex_digit (of_char c div 16), hex_digit (of_char c mod 16)]
      else [c])"

definition py_repr_str :: "string \<Rightarrow> string" where
  "py_repr_str s = repr_quote s # concat (map (repr_char (repr_quote s)) s) @ [repr_quote s]"

text \<open>\<open>str(xs)\<close> for a list of strings.\<close>

definition py_repr_list :: "string list \<Rightarrow> string" where
  "py_repr_list xs = CHR ''['' # join_sep '', '' (map py_repr_str xs) @ '']''"

section \<open>eval\<close>

definition py_ws :: "char \<Rightarrow> bool" where
  "py_ws c \<longleftrightarrow> c = CHR 0x20 \<or> c = CHR 0x09 \<or> c = CHR 0x0C \<or> c = CHR 0x0A \<or> c = CHR 0x0D"

fun skip_py_ws :: "string \<Rightarrow> string" where
  "skip_py_ws [] = []"
| "skip_py_ws (c # cs) = (if py_ws c then skip_py_ws cs else c # cs)"

text \<open>
  The character of an escape \<open>\e\<close>: \<open>Some None\<close> keeps the backslash (an
  unknown escape), \<open>None\<close> is an escape outside the model.
\<close>

definition py_unescape :: "char \<Rightarrow> char option option" where
  "py_unescape e =
     (if e = CHR 0x5C then Some (Some (CHR 0x5C))
      else if e = CHR 0x27 then Some (Some (CHR 0x27))
      else if e = CHR 0x22 then Some (Some (CHR 0x22))
      else if e = CHR ''a'' then Some (Some (CHR 0x07))
      else if e = CHR ''b'' then Some (Some (CHR 0x08))
      else if e = CHR ''f'' then Some (Some (CHR 0x0C))
      else if e = CHR ''n'' then Some (Some (CHR 0x0A))
      else if e = CHR ''r'' then Some (Some (CHR 0x0D))
      else if e = CHR ''t'' then Some (Some (CHR 0x09))
      else if e = CHR ''v'' then Some (Some (CHR 0x0B))
      else if e \<in> set ''01234567NuU'' \<or> e = CHR 0x0A then None
      else Some None)"

text \<open>A string literal after its opening quote \<open>q\<close>: the string and the text after it.\<close>

fun parse_py_str :: "char \<Rightarrow> string \<Rightarrow> (string \<times> string) option" where
  "parse_py_str q [] = None"
| "parse_py_str q (c # cs) =
     (if c = q then Some ([], cs)
      else if c = CHR 0x5C then
        (case cs of
           [] \<Rightarrow> None
         | e # cs' \<Rightarrow>
             (if e = CHR ''x'' then
                (case cs' of
                   a # b # rest \<Rightarrow>
                     (case (hex_val a, hex_val b) of
                        (Some x, Some y) \<Rightarrow> cons_result (char_of (16 * x + y)) (parse_py_str q rest)
                      | _ \<Rightarrow> None)
                 | _ \<Rightarrow> None)
              else (case py_unescape e of
                      None \<Rightarrow> None
                    | Some (Some ch) \<Rightarrow> cons_result ch (parse_py_str q cs')
                    | Some None \<Rightarrow> cons_result (CHR 0x5C) (parse_py_str q cs))))
      else if c = CHR 0x0A then None
      else cons_result c (parse_py_str q cs))"

lemma cons_result_Some: "cons_result c r = Some (x, rest) \<longleftrightarrow> (\<exists>x'. r = Some (x', rest) \<and> x = c # x')"
  by (cases r) (auto simp: cons_result_def)

lemma parse_py_str_shorter: "parse_py_str q s = Some (x, r) \<Longrightarrow> length r < length s"
proof (induction "length s" arbitrary: s x r rule: less_induct)
  case less
  have step: "length r' < length s"
    if "cons_result ch (parse_py_str q t) = Some (y, r')" "length t < length s" for ch t y r'
    using that less.hyps [of t] by (fastforce simp: cons_result_Some)
  show ?case
  proof (cases s)
    case Nil
    with less.prems show ?thesis by simp
  next
    case (Cons c cs)
    have p: "parse_py_str q (c # cs) = Some (x, r)" using less.prems Cons by simp
    show ?thesis
    proof (cases "c = q \<or> c = CHR 0x0A")
      case True
      with p Cons show ?thesis by (auto split: if_splits)
    next
      case nq: False
      show ?thesis
      proof (cases "c = CHR 0x5C")
        case nbs: False
        show ?thesis using p nq nbs Cons step [of c cs x r] by simp
      next
        case bs: True
        then obtain e cs' where cs: "cs = e # cs'" using p nq by (cases cs) auto
        show ?thesis
        proof (cases "e = CHR ''x''")
          case True
          then obtain a b rest ha hb where "cs' = a # b # rest" "hex_val a = Some ha" "hex_val b = Some hb"
            "cons_result (char_of (16 * ha + hb)) (parse_py_str q rest) = Some (x, r)"
            using p nq bs cs by (auto split: list.splits option.splits)
          then show ?thesis using Cons cs step [of "char_of (16 * ha + hb)" rest x r] by simp
        next
          case False
          then consider ch where "cons_result ch (parse_py_str q cs') = Some (x, r)"
            | "cons_result (CHR 0x5C) (parse_py_str q cs) = Some (x, r)"
            using p nq bs cs by (auto split: option.splits)
          then show ?thesis
          proof cases
            case (1 ch)
            then show ?thesis using Cons cs step [of ch cs' x r] by simp
          next
            case 2
            then show ?thesis using Cons step [of "CHR 0x5C" cs x r] by simp
          qed
        qed
      qed
    qed
  qed
qed

lemma skip_py_ws_length: "length (skip_py_ws s) \<le> length s"
  by (induction s) auto

lemma py_list_elems_shorter:
  assumes "skip_py_ws s = q # cs" "parse_py_str q cs = Some (x, r)" "skip_py_ws r = d # r'"
  shows "length r' < length s"
proof -
  have "length (q # cs) \<le> length s" "length (d # r') \<le> length r"
    using skip_py_ws_length [of s] skip_py_ws_length [of r] assms by simp_all
  moreover have "length r < length cs" using parse_py_str_shorter assms(2) .
  ultimately show ?thesis by simp
qed

text \<open>The elements of a list display after \<open>[\<close> or a comma, up to the closing \<open>]\<close>.\<close>

function py_list_elems :: "string list \<Rightarrow> string \<Rightarrow> (string list \<times> string) option" where
  "py_list_elems acc s =
     (case skip_py_ws s of
        [] \<Rightarrow> None
      | q # cs \<Rightarrow>
          (if q \<noteq> CHR 0x27 \<and> q \<noteq> CHR 0x22 then None
           else (case parse_py_str q cs of
                   None \<Rightarrow> None
                 | Some (x, r) \<Rightarrow>
                     (case skip_py_ws r of
                        [] \<Rightarrow> None
                      | d # r' \<Rightarrow>
                          (if d = CHR '']'' then Some (acc @ [x], r')
                           else if d \<noteq> CHR '','' then None
                           else (case skip_py_ws r' of
                                   e # r'' \<Rightarrow> (if e = CHR '']'' then Some (acc @ [x], r'') else py_list_elems (acc @ [x]) r')
                                 | [] \<Rightarrow> None))))))"
  by pat_completeness auto
termination
  by (relation "measure (\<lambda>(acc, s). length s)") (auto dest: py_list_elems_shorter)

text \<open>\<open>eval(cell)\<close> for a list of strings: the display, then only whitespace.\<close>

definition py_eval_list :: "string \<Rightarrow> string list option" where
  "py_eval_list cell =
     (case skip_py_ws cell of
        c # cs \<Rightarrow>
          (if c \<noteq> CHR ''['' then None
           else (case skip_py_ws cs of
                   d # r \<Rightarrow>
                     (if d = CHR '']'' then (if skip_py_ws r = [] then Some [] else None)
                      else (case py_list_elems [] cs of
                              None \<Rightarrow> None
                            | Some (xs, rest) \<Rightarrow> (if skip_py_ws rest = [] then Some xs else None)))
                 | [] \<Rightarrow> None))
      | [] \<Rightarrow> None)"

section \<open>The round trip\<close>

lemma py_unescape_simple:
  "py_unescape (CHR 0x5C) = Some (Some (CHR 0x5C))" "py_unescape (CHR 0x27) = Some (Some (CHR 0x27))"
  "py_unescape (CHR 0x22) = Some (Some (CHR 0x22))" "py_unescape (CHR ''t'') = Some (Some (CHR 0x09))"
  "py_unescape (CHR ''n'') = Some (Some (CHR 0x0A))" "py_unescape (CHR ''r'') = Some (Some (CHR 0x0D))"
  by (simp_all add: py_unescape_def)

lemma py_quote_cases:
  assumes "q = CHR 0x27 \<or> q = CHR 0x22"
  shows "q \<noteq> CHR 0x5C" "q \<noteq> CHR 0x09" "q \<noteq> CHR 0x0A" "q \<noteq> CHR 0x0D" "q \<noteq> CHR ''x''"
    "py_unescape q = Some (Some q)"
  using assms by (auto simp: py_unescape_simple)

lemma parse_py_str_hex:
  assumes "q \<noteq> CHR 0x5C"
  shows "parse_py_str q ([CHR 0x5C, CHR ''x'', hex_digit (of_char c div 16), hex_digit (of_char c mod 16)] @ t)
           = cons_result c (parse_py_str q t)"
proof -
  let ?h = "(of_char c :: nat) div 16" and ?l = "(of_char c :: nat) mod 16"
  have lo: "?l < 16" and hi: "?h < 16"
    using nat_of_char_less_256 [of c] by (simp, linarith)
  have code: "16 * ?h + ?l = of_char c" by simp
  have "parse_py_str q ([CHR 0x5C, CHR ''x'', hex_digit ?h, hex_digit ?l] @ t)
      = cons_result (char_of (16 * ?h + ?l)) (parse_py_str q t)"
    using assms by (simp add: hex_val_hex_digit [OF hi] hex_val_hex_digit [OF lo])
  then show ?thesis by (simp only: code char_of_char)
qed

lemma parse_py_str_repr_char:
  assumes "q = CHR 0x27 \<or> q = CHR 0x22"
  shows "parse_py_str q (repr_char q c @ t) = cons_result c (parse_py_str q t)"
proof -
  note q = py_quote_cases [OF assms]
  consider "c = q \<or> c = CHR 0x5C" | "c = CHR 0x09" | "c = CHR 0x0A" | "c = CHR 0x0D"
    | "c \<noteq> q" "c \<noteq> CHR 0x5C" "c \<noteq> CHR 0x09" "c \<noteq> CHR 0x0A" "c \<noteq> CHR 0x0D" by blast
  then show ?thesis
  proof cases
    case 1
    then have "repr_char q c = [CHR 0x5C, c]" by (simp add: repr_char_def)
    with 1 q show ?thesis by (auto simp: py_unescape_simple)
  next
    case 2
    with q show ?thesis by (simp add: repr_char_def py_unescape_simple)
  next
    case 3
    with q show ?thesis by (simp add: repr_char_def py_unescape_simple)
  next
    case 4
    with q show ?thesis by (simp add: repr_char_def py_unescape_simple)
  next
    case 5
    show ?thesis
    proof (cases "py_printable c")
      case True
      with 5 q show ?thesis by (simp add: repr_char_def)
    next
      case False
      with 5 q parse_py_str_hex [of q c t] show ?thesis by (simp add: repr_char_def)
    qed
  qed
qed

lemma parse_py_str_repr:
  assumes "q = CHR 0x27 \<or> q = CHR 0x22"
  shows "parse_py_str q (concat (map (repr_char q) s) @ q # t) = Some (s, t)"
  by (induction s) (simp_all add: parse_py_str_repr_char [OF assms] cons_result_def)
declare py_list_elems.simps [simp del]

lemma repr_quote_cases: "repr_quote s = CHR 0x27 \<or> repr_quote s = CHR 0x22"
  by (simp add: repr_quote_def)

lemma py_repr_str_parts: "\<exists>q body. py_repr_str s = q # body \<and> (q = CHR 0x27 \<or> q = CHR 0x22)
    \<and> (\<forall>t. parse_py_str q (body @ t) = Some (s, t))"
  using parse_py_str_repr [OF repr_quote_cases [of s]] repr_quote_cases [of s]
  by (auto simp: py_repr_str_def)

lemma skip_py_ws_quote: "q = CHR 0x27 \<or> q = CHR 0x22 \<Longrightarrow> skip_py_ws (q # t) = q # t"
  by (auto simp: py_ws_def)

lemma py_list_elems_ws: "skip_py_ws s = skip_py_ws s' \<Longrightarrow> py_list_elems acc s = py_list_elems acc s'"
  by (simp add: py_list_elems.simps [of acc s] py_list_elems.simps [of acc s'])

lemma py_list_elems_step:
  assumes "skip_py_ws s = q # cs" "q = CHR 0x27 \<or> q = CHR 0x22" "parse_py_str q cs = Some (x, r)"
    "skip_py_ws r = d # r'"
  shows "py_list_elems acc s =
    (if d = CHR '']'' then Some (acc @ [x], r')
     else if d \<noteq> CHR '','' then None
     else (case skip_py_ws r' of
             e # r'' \<Rightarrow> (if e = CHR '']'' then Some (acc @ [x], r'') else py_list_elems (acc @ [x]) r')
           | [] \<Rightarrow> None))"
  using assms by (subst py_list_elems.simps) auto

lemma py_list_elems_repr:
  "xs \<noteq> [] \<Longrightarrow> py_list_elems acc (join_sep '', '' (map py_repr_str xs) @ CHR '']'' # r) = Some (acc @ xs, r)"
proof (induction xs arbitrary: acc)
  case Nil
  then show ?case by simp
next
  case (Cons x xs)
  obtain q body where x: "py_repr_str x = q # body" "q = CHR 0x27 \<or> q = CHR 0x22"
    and p: "\<And>t. parse_py_str q (body @ t) = Some (x, t)"
    using py_repr_str_parts [of x] by blast
  show ?case
  proof (cases xs)
    case Nil
    have s: "skip_py_ws (q # body @ CHR '']'' # r) = q # body @ CHR '']'' # r"
      using skip_py_ws_quote [OF x(2)] .
    have "skip_py_ws (CHR '']'' # r) = CHR '']'' # r" by (simp add: py_ws_def)
    from py_list_elems_step [OF s x(2) p this, of acc] show ?thesis using x Nil by simp
  next
    case (Cons y ys)
    obtain q' body' where y: "py_repr_str y = q' # body'" "q' = CHR 0x27 \<or> q' = CHR 0x22"
      using py_repr_str_parts [of y] by blast
    let ?J = "join_sep '', '' (map py_repr_str xs) @ CHR '']'' # r"
    let ?T = "CHR '','' # CHR '' '' # ?J"
    have J: "?J = q' # tl ?J" using y Cons by (simp add: join_sep_Cons)
    have rec: "py_list_elems (acc @ [x]) (CHR '' '' # ?J) = Some (acc @ x # xs, r)"
      using Cons.IH [of "acc @ [x]"] Cons py_list_elems_ws [of "CHR '' '' # ?J" ?J] by (simp add: py_ws_def)
    have s: "skip_py_ws (q # body @ ?T) = q # body @ ?T"
      using skip_py_ws_quote [OF x(2)] .
    have c: "skip_py_ws ?T = ?T" by (simp add: py_ws_def)
    have e: "skip_py_ws (CHR '' '' # ?J) = q' # tl ?J"
      using skip_py_ws_quote [OF y(2), of "tl ?J"] J by (simp add: py_ws_def)
    have "py_list_elems acc (q # body @ ?T) = Some (acc @ x # xs, r)"
      using py_list_elems_step [OF s x(2) p c, of acc] e rec y(2) by auto
    then show ?thesis using x Cons by (simp add: join_sep_Cons)
  qed
qed
lemma py_eval_repr_list: "py_eval_list (py_repr_list xs) = Some xs"
proof (cases xs)
  case Nil
  then show ?thesis by (simp add: py_eval_list_def py_repr_list_def py_ws_def)
next
  case (Cons y ys)
  obtain q body where y: "py_repr_str y = q # body" "q = CHR 0x27 \<or> q = CHR 0x22"
    using py_repr_str_parts [of y] by blast
  let ?J = "join_sep '', '' (map py_repr_str xs) @ '']''"
  obtain J' where J: "?J = q # J'" using y Cons by (simp add: join_sep_Cons)
  have sJ: "skip_py_ws (q # J') = q # J'" using skip_py_ws_quote [OF y(2)] .
  have el: "py_list_elems [] (q # J') = Some (xs, [])"
    using py_list_elems_repr [of xs "[]" "[]"] Cons J by simp
  have q: "q \<noteq> CHR '']''" using y(2) by auto
  have "py_repr_list xs = CHR ''['' # q # J'" using J by (simp add: py_repr_list_def)
  then show ?thesis using sJ el q by (simp add: py_eval_list_def py_ws_def)
qed
end
