(* ===== verification/ResearcherTable.thy ===== *)
theory ResearcherTable
  imports Researchers PyLiteral
begin

text \<open>
  The file between \<open>collect_researchers.py\<close> and \<open>construct_networks_csindex.py\<close>.
  The first script saves its table with \<open>df.to_csv(output_file, index=False)\<close>: a
  header row naming the columns of \<open>df\<close>, then one row per researcher whose
  \<open>sub_areas\<close> cell is \<open>str\<close> of the list (\<open>PyLiteral.py_repr_list\<close>).  The second
  reads \<open>INPUT_CSV\<close> with \<open>pd.read_csv\<close>, turns each \<open>sub_areas\<close> cell back into a
  list with \<open>eval\<close> (\<open>PyLiteral.py_eval_list\<close>) and uses the rows as the researcher
  table of \<open>CsIndex.csindex_main\<close>.  As in \<open>Stats\<close>, a file is its list of rows of
  cells: the CSV quoting of \<open>to_csv\<close>, which \<open>read_csv\<close> undoes, is below the model,
  and cells are read as the strings written (the dtype inference of \<open>read_csv\<close>,
  which would turn a cell such as \<open>NA\<close> into a float, is not modelled).
\<close>

section \<open>Writing: \<open>collect_researchers.py\<close>\<close>

definition CR_OUTPUT_FILE :: string where
  "CR_OUTPUT_FILE = ''br_cs_researchers.csv''"

text \<open>The columns of \<open>df\<close>: the three names given to \<open>read_csv\<close>, then \<open>sub_areas\<close>.\<close>

definition CR_COLUMNS :: "string list" where
  "CR_COLUMNS = [''researcher'', ''institution'', ''pid'', ''sub_areas'']"

definition researcher_csv_row :: "researcher \<Rightarrow> string list" where
  "researcher_csv_row r = [rr_researcher r, rr_institution r, rr_pid r, py_repr_list (rr_sub_areas r)]"

text \<open>
  \<open>main\<close> with its output: nothing is written when the main table fails to load;
  a failed write (\<open>write_ok\<close> false) is only logged.
\<close>

definition collect_researchers_run ::
  "py_exception + (string \<times> string \<times> string) list \<Rightarrow> (string \<Rightarrow> py_exception + (string \<times> string) list)
   \<Rightarrow> bool \<Rightarrow> (string \<rightharpoonup> string list list) \<Rightarrow> (string \<rightharpoonup> string list list)" where
  "collect_researchers_run main_csv sub_csv write_ok fs =
     (case collect_researchers_main main_csv sub_csv of
        None \<Rightarrow> fs
      | Some df \<Rightarrow> (if write_ok then fs(CR_OUTPUT_FILE \<mapsto> CR_COLUMNS # map researcher_csv_row df) else fs))"

section \<open>Reading: \<open>construct_networks_csindex.py\<close>\<close>

definition CS_INPUT_CSV :: string where
  "CS_INPUT_CSV = ''../data/csv/br_cs_researchers.csv''"

text \<open>The position of a column: the first header cell with that name.\<close>

fun col_index :: "string \<Rightarrow> string list \<Rightarrow> nat option" where
  "col_index c [] = None"
| "col_index c (h # hs) = (if h = c then Some 0 else map_option Suc (col_index c hs))"

text \<open>
  One row of \<open>df\<close> after \<open>df["sub_areas"].apply(eval)\<close>; \<open>None\<close> for a row of
  another width or a cell outside the literals of \<open>py_eval_list\<close>.
\<close>

definition read_researcher_row :: "nat \<Rightarrow> nat \<Rightarrow> nat \<Rightarrow> nat \<Rightarrow> nat \<Rightarrow> string list \<Rightarrow> researcher option" where
  "read_researcher_row n i_r i_i i_p i_s row =
     (if length row \<noteq> n then None
      else map_option (\<lambda>sas. \<lparr>rr_pid = row ! i_p, rr_researcher = row ! i_r, rr_institution = row ! i_i,
                               rr_sub_areas = sas\<rparr>)
             (py_eval_list (row ! i_s)))"

text \<open>
  \<open>pd.read_csv\<close> then \<open>df["sub_areas"]\<close> and \<open>df.set_index("pid")\<close>: an empty file
  raises \<open>EmptyDataError\<close> (a \<open>ValueError\<close>), a missing \<open>sub_areas\<close> or \<open>pid\<close> column
  \<open>KeyError\<close>; a table without \<open>researcher\<close> or \<open>institution\<close> is outside the model.
\<close>

definition read_researcher_table :: "string list list \<Rightarrow> (py_exception + researcher list) option" where
  "read_researcher_table rows =
     (case rows of
        [] \<Rightarrow> Some (Inl ValueError)
      | header # body \<Rightarrow>
          (case (col_index ''sub_areas'' header, col_index ''pid'' header) of
             (Some i_s, Some i_p) \<Rightarrow>
               (case (col_index ''researcher'' header, col_index ''institution'' header) of
                  (Some i_r, Some i_i) \<Rightarrow>
                    map_option Inr (those (map (read_researcher_row (length header) i_r i_i i_p i_s) body))
                | _ \<Rightarrow> None)
           | _ \<Rightarrow> Some (Inl KeyError)))"

text \<open>The table \<open>main\<close> reads, or \<open>FileNotFoundError\<close> when \<open>INPUT_CSV\<close> is absent.\<close>

definition csindex_load :: "(string \<rightharpoonup> string list list) \<Rightarrow> (py_exception + researcher list) option" where
  "csindex_load fs =
     (case fs CS_INPUT_CSV of
        None \<Rightarrow> Some (Inl FileNotFoundError)
      | Some rows \<Rightarrow> read_researcher_table rows)"

section \<open>The table read back\<close>

lemma read_researcher_rows:
  "those (map (read_researcher_row 4 0 1 2 3) (map researcher_csv_row table)) = Some table"
  by (induction table) (simp_all add: read_researcher_row_def researcher_csv_row_def py_eval_repr_list)

lemma CR_COLUMNS_index:
  "col_index ''researcher'' CR_COLUMNS = Some 0" "col_index ''institution'' CR_COLUMNS = Some 1"
  "col_index ''pid'' CR_COLUMNS = Some 2" "col_index ''sub_areas'' CR_COLUMNS = Some 3"
  "length CR_COLUMNS = 4"
  by (simp_all add: CR_COLUMNS_def)

lemma read_researcher_table_written:
  "read_researcher_table (CR_COLUMNS # map researcher_csv_row table) = Some (Inr table)"
  unfolding read_researcher_table_def CR_COLUMNS_index list.case prod.case option.case
  by (simp only: read_researcher_rows option.map)

lemma csindex_load_moved:
  "collect_researchers_main main_csv sub_csv = Some table \<Longrightarrow>
   csindex_load (fs(CS_INPUT_CSV := collect_researchers_run main_csv sub_csv True fs CR_OUTPUT_FILE)) = Some (Inr table)"
  by (simp add: csindex_load_def collect_researchers_run_def read_researcher_table_written)

text \<open>
  Without the manual move the second script does not see the first one's
  output: \<open>collect_researchers.py\<close> writes to the working directory and
  \<open>construct_networks_csindex.py\<close> reads \<open>../data/csv/\<close>.
\<close>

lemma csindex_load_not_moved:
  "fs CS_INPUT_CSV = None \<Longrightarrow> csindex_load (collect_researchers_run main_csv sub_csv write_ok fs) = Some (Inl FileNotFoundError)"
  by (simp add: csindex_load_def collect_researchers_run_def CS_INPUT_CSV_def CR_OUTPUT_FILE_def split: option.splits)

lemma cr_sample_run:
  "collect_researchers_main (Inr [(''R'', ''U'', ''p1''), (''S'', ''V'', ''p2'')]) (\<lambda>sa. Inr [(''R'', ''U'')])
     = Some [\<lparr>rr_pid = ''p1'', rr_researcher = ''R'', rr_institution = ''U'', rr_sub_areas = CR_SUB_AREAS\<rparr>]"
proof -
  have "CR_SUB_AREAS \<noteq> []" by (simp add: CR_SUB_AREAS_def)
  then show ?thesis by (simp add: collect_researchers_main_def cr_steps listed_in_def)
qed

text \<open>
  C21. The researcher table survives the file: when \<open>collect_researchers.py\<close>
  produces a table and its output is moved to \<open>INPUT_CSV\<close>,
  \<open>construct_networks_csindex.py\<close> loads exactly that table, every researcher's
  name, institution, pid and list of sub-areas, in the same order.
\<close>

theorem researcher_table_roundtrip:
  assumes "collect_researchers_main main_csv sub_csv = Some table"
  shows "csindex_load (fs(CS_INPUT_CSV := collect_researchers_run main_csv sub_csv True fs CR_OUTPUT_FILE))
           = Some (Inr table)"
  unfolding csindex_load_def collect_researchers_run_def using assms
  by (simp add: read_researcher_table_written)

theorem researcher_table_roundtrip_witness:
  "collect_researchers_main (Inr [(''R'', ''U'', ''p1''), (''S'', ''V'', ''p2'')]) (\<lambda>sa. Inr [(''R'', ''U'')])
     = Some [\<lparr>rr_pid = ''p1'', rr_researcher = ''R'', rr_institution = ''U'', rr_sub_areas = CR_SUB_AREAS\<rparr>]
   \<and> csindex_load (Map.empty(CS_INPUT_CSV := collect_researchers_run
          (Inr [(''R'', ''U'', ''p1''), (''S'', ''V'', ''p2'')]) (\<lambda>sa. Inr [(''R'', ''U'')]) True Map.empty CR_OUTPUT_FILE))
     = Some (Inr [\<lparr>rr_pid = ''p1'', rr_researcher = ''R'', rr_institution = ''U'', rr_sub_areas = CR_SUB_AREAS\<rparr>])"
  using researcher_table_roundtrip [OF cr_sample_run, of Map.empty] cr_sample_run by simp

end
