(* ===== verification/LocalTest.thy ===== *)
theory LocalTest
  imports Collector JsonText
begin

text \<open>
  \<open>src/src/test.py\<close>, the local variant of the collector: it reads the works from
  \<open>data.json\<close> instead of the API, and its \<open>process_work\<close> also keeps
  \<open>cited_by_count\<close> and a \<open>counts_by_year\<close> dictionary keyed by the offset of each
  citation year from the publication year.  Its \<open>read_email_from_json\<close>,
  \<open>process_doi\<close> and \<open>process_openalex_id\<close> are the collector's code, and the lines
  of its \<open>process_work\<close> up to the subfield are the collector's
  \<open>process_work\<close> (\<open>Normalizer.process_authorship\<close> and the topic and subfield
  lookups); \<open>lt_process_work_refines\<close> shows the script's function is the
  collector's followed by the two new fields.  The file \<open>data.json\<close> is the
  outcome of \<open>open\<close> and \<open>json.load\<close>; the written CSV is a store of rows.
\<close>

definition LT_PUBLICATION_YEAR :: "string list" where
  "LT_PUBLICATION_YEAR = [''2019'']"

text \<open>An entry of \<open>counts_by_year\<close>: \<open>item["year"]\<close> and \<open>item["cited_by_count"]\<close>.\<close>

record cby_item =
  cby_year :: "int jval"
  cby_cited_by_count :: "int jval"

text \<open>The work with the two fields only \<open>test.py\<close> reads.\<close>

record lt_work = work +
  w_cited_by_count :: "int option"
  w_counts_by_year :: "cby_item list jval"

text \<open>A row of \<open>test.py\<close>: the collector's row (now with \<open>cited_by_count\<close>) and the offsets.\<close>

record lt_row = pub_row +
  row_counts_by_year :: "(string, int option) pydict"

section \<open>load_local_data\<close>

datatype local_doc = LocalObject "lt_work list jval" | LocalOther

text \<open>
  \<open>data.get("results", [])\<close> on the loaded document; every exception (a missing
  file, invalid JSON, \<open>.get\<close> on a non-object) is caught and gives \<open>[]\<close>.  A
  \<open>null\<close> \<open>results\<close> is returned as Python's \<open>None\<close>.
\<close>

definition load_local_data :: "py_exception + local_doc \<Rightarrow> lt_work list option" where
  "load_local_data loaded =
     (case loaded of
        Inl _ \<Rightarrow> Some []
      | Inr LocalOther \<Rightarrow> Some []
      | Inr (LocalObject results) \<Rightarrow> jget_or [] results)"

section \<open>process_work\<close>

text \<open>
  The key \<open>f"{offset}_year"\<close>: the decimal digits of the offset, which are the
  digits \<open>json.dumps\<close> writes for an integer.
\<close>

definition offset_key :: "int \<Rightarrow> string" where
  "offset_key offset = dumps_int offset @ ''_year''"

text \<open>
  The loop over \<open>counts_by_year_data\<close>: \<open>item["year"]\<close> raises \<open>KeyError\<close> when
  absent and \<open>None - publication_year\<close> \<open>TypeError\<close>; an entry with a negative
  offset is skipped, otherwise \<open>item["cited_by_count"]\<close> (\<open>KeyError\<close> when
  absent) is stored under the offset's key, a repeated key keeping its place.
\<close>

fun offset_citations ::
  "int \<Rightarrow> cby_item list \<Rightarrow> (string, int option) pydict \<Rightarrow> py_exception + (string, int option) pydict" where
  "offset_citations publication_year [] d = Inr d"
| "offset_citations publication_year (item # items) d =
     (case cby_year item of
        JAbsent \<Rightarrow> Inl KeyError
      | jval.JNull \<Rightarrow> Inl TypeError
      | JVal y \<Rightarrow>
          (if 0 \<le> y - publication_year then
             (case cby_cited_by_count item of
                JAbsent \<Rightarrow> Inl KeyError
              | jval.JNull \<Rightarrow> offset_citations publication_year items (dict_set (offset_key (y - publication_year)) None d)
              | JVal c \<Rightarrow> offset_citations publication_year items (dict_set (offset_key (y - publication_year)) (Some c) d))
           else offset_citations publication_year items d))"

text \<open>
  \<open>if counts_by_year_data and publication_year\<close>: the loop runs only for a
  non-empty list and a publication year other than \<open>None\<close> and \<open>0\<close>.
\<close>

definition counts_by_year :: "int option \<Rightarrow> cby_item list jval \<Rightarrow> py_exception + (string, int option) pydict" where
  "counts_by_year publication_year data =
     (case (jget_or [] data, publication_year) of
        (Some items, Some py) \<Rightarrow> (if items \<noteq> [] \<and> py \<noteq> 0 then offset_citations py items [] else Inr [])
      | _ \<Rightarrow> Inr [])"

text \<open>
  \<open>process_work\<close> of \<open>test.py\<close>: the authorship loop, the topic and the subfield
  as in the collector, then the offsets; \<open>cited_by_count\<close> is kept.
\<close>

definition lt_process_work :: "lt_work \<Rightarrow> py_exception + lt_row" where
  "lt_process_work w =
     (case jget_or [] (w_authorships w) of
        None \<Rightarrow> Inl TypeError
      | Some authorships \<Rightarrow>
          (case map_until_error process_authorship authorships of
             Inl e \<Rightarrow> Inl e
           | Inr processed_authors \<Rightarrow>
               (case jget_or \<lparr>rt_id = Absent, rt_display_name = Absent, rt_subfield = JAbsent\<rparr> (w_primary_topic w) of
                  None \<Rightarrow> Inl AttributeError
                | Some primary_topic \<Rightarrow>
                    (case jget_or \<lparr>rsf_id = Absent, rsf_display_name = Absent\<rparr> (rt_subfield primary_topic) of
                       None \<Rightarrow> Inl AttributeError
                     | Some subfield \<Rightarrow>
                         (case counts_by_year (w_publication_year w) (w_counts_by_year w) of
                            Inl e \<Rightarrow> Inl e
                          | Inr offsets \<Rightarrow>
                              Inr \<lparr>row_id = process_openalex_id (py_get (w_id w)),
                                   row_doi = process_doi (py_get (w_doi w)),
                                   row_title = py_get (w_title w),
                                   row_publication_year = w_publication_year w,
                                   row_authorships = Some processed_authors,
                                   row_subfield = Some \<lparr>sf_id = to_jfield (process_openalex_id (py_get (rsf_id subfield))),
                                                        sf_display_name = to_jfield (py_get (rsf_display_name subfield))\<rparr>,
                                   row_cited_by_count = w_cited_by_count w,
                                   row_counts_by_year = offsets\<rparr>)))))"

section \<open>main\<close>

definition LT_OUTPUT_CSV :: string where
  "LT_OUTPUT_CSV = ''open_alex_publications_local_test.csv''"

text \<open>
  \<open>main\<close>: no works (\<open>None\<close> or \<open>[]\<close>) is logged and ends the run without a file;
  an exception of \<open>process_work\<close> is logged and re-raised, before anything is
  written.
\<close>

definition local_test_main ::
  "py_exception + local_doc \<Rightarrow> (string \<rightharpoonup> lt_row list) \<Rightarrow> (string \<rightharpoonup> lt_row list) \<times> py_exception option" where
  "local_test_main loaded fs =
     (case load_local_data loaded of
        None \<Rightarrow> (fs, None)
      | Some [] \<Rightarrow> (fs, None)
      | Some works \<Rightarrow>
          (case map_until_error lt_process_work works of
             Inl e \<Rightarrow> (fs, Some e)
           | Inr rows \<Rightarrow> (fs(LT_OUTPUT_CSV \<mapsto> rows), None)))"

section \<open>The offsets\<close>

text \<open>
  An entry the loop accepts for publication year \<open>py\<close>: a year, and a citation
  count (possibly \<open>null\<close>) when the offset is not negative; the count it stores.
\<close>

definition cby_ok :: "int \<Rightarrow> cby_item \<Rightarrow> bool" where
  "cby_ok py it = (case cby_year it of JVal y \<Rightarrow> (0 \<le> y - py \<longrightarrow> cby_cited_by_count it \<noteq> JAbsent) | _ \<Rightarrow> False)"

definition cby_count :: "cby_item \<Rightarrow> int option" where
  "cby_count it = (case cby_cited_by_count it of JVal c \<Rightarrow> Some c | _ \<Rightarrow> None)"

text \<open>Sample data: a work of 2019 with one author and the given \<open>counts_by_year\<close>.\<close>

definition sample_lt_work :: "cby_item list \<Rightarrow> lt_work" where
  "sample_lt_work items =
     \<lparr>w_id = Str ''https://openalex.org/W1'', w_doi = Str ''https://doi.org/10.1/x'', w_title = Str ''T'',
      w_publication_year = Some 2019,
      w_authorships = JVal [\<lparr>rs_author = JVal \<lparr>ra_id = Str ''https://openalex.org/A1'', ra_display_name = Str ''Ann''\<rparr>,
                              rs_institutions = JVal [], rs_countries = JVal [''BR'']\<rparr>],
      w_primary_topic = JVal \<lparr>rt_id = Absent, rt_display_name = Absent, rt_subfield = JAbsent\<rparr>,
      w_cited_by_count = Some 120, w_counts_by_year = JVal items\<rparr>"

lemma offset_key_inj: "offset_key a = offset_key b \<longleftrightarrow> a = b"
proof
  assume "offset_key a = offset_key b"
  then have "dumps_int a = dumps_int b" by (simp add: offset_key_def)
  then show "a = b" using loads_dumps [of "JInt a"] loads_dumps [of "JInt b"] by simp
qed simp

lemma offset_citations_lookup:
  assumes "list_all (cby_ok py) items"
  shows "\<exists>d'. offset_citations py items d = Inr d'
           \<and> (\<forall>k \<ge> 0. map_of d' (offset_key k)
                 = (case filter (\<lambda>it. cby_year it = JVal (py + k)) items of
                      [] \<Rightarrow> map_of d (offset_key k)
                    | its \<Rightarrow> Some (cby_count (last its))))"
  using assms
proof (induction items arbitrary: d)
  case Nil
  then show ?case by simp
next
  case (Cons item items)
  then have ok_item: "cby_ok py item" and rest: "list_all (cby_ok py) items" by simp_all
  then obtain y where y: "cby_year item = JVal y"
    by (cases "cby_year item") (auto simp: cby_ok_def)
  have ok: "0 \<le> y - py \<Longrightarrow> cby_cited_by_count item \<noteq> JAbsent"
    using ok_item y by (simp add: cby_ok_def)
  show ?case
  proof (cases "0 \<le> y - py")
    case True
    let ?d1 = "dict_set (offset_key (y - py)) (cby_count item) d"
    have step: "offset_citations py (item # items) d = offset_citations py items ?d1"
      using y ok True by (auto simp: cby_count_def split: jval.splits)
    obtain d' where d': "offset_citations py items ?d1 = Inr d'"
      and lk: "\<forall>k \<ge> 0. map_of d' (offset_key k)
                 = (case filter (\<lambda>it. cby_year it = JVal (py + k)) items of
                      [] \<Rightarrow> map_of ?d1 (offset_key k)
                    | its \<Rightarrow> Some (cby_count (last its)))"
      using Cons.IH [OF rest, of ?d1] by blast
    have "map_of d' (offset_key k)
            = (case filter (\<lambda>it. cby_year it = JVal (py + k)) (item # items) of
                 [] \<Rightarrow> map_of d (offset_key k)
               | its \<Rightarrow> Some (cby_count (last its)))" if k: "0 \<le> k" for k
    proof (cases "y = py + k")
      case True
      then show ?thesis using lk k y by (auto split: list.splits)
    next
      case False
      then have "offset_key (y - py) \<noteq> offset_key k" by (auto simp: offset_key_inj)
      then show ?thesis using lk k y False by (auto split: list.splits)
    qed
    then show ?thesis using step d' by auto
  next
    case False
    have step: "offset_citations py (item # items) d = offset_citations py items d"
      using y False by simp
    have "y \<noteq> py + k" if "0 \<le> k" for k using False that by simp
    then show ?thesis using step Cons.IH [OF rest, of d] y by auto
  qed
qed

lemma offset_citations_error: "offset_citations py items d = Inl e \<Longrightarrow> e = KeyError \<or> e = TypeError"
  by (induction py items d rule: offset_citations.induct) (auto split: jval.splits if_splits)

lemma lt_process_work_refines:
  "lt_process_work w =
     (case process_work (work.truncate w) of
        Inl e \<Rightarrow> Inl e
      | Inr r \<Rightarrow> (case counts_by_year (w_publication_year w) (w_counts_by_year w) of
                   Inl e \<Rightarrow> Inl e
                 | Inr offsets \<Rightarrow> Inr (pub_row.extend (r\<lparr>row_cited_by_count := w_cited_by_count w\<rparr>)
                                                  (lt_row.fields offsets))))"
  by (simp add: lt_process_work_def process_work_def work.defs pub_row.defs lt_row.defs
           split: option.splits sum.splits)

lemma offset_citations_keys:
  "offset_citations py items d = Inr d' \<Longrightarrow>
     set (map fst d') \<subseteq> set (map fst d) \<union> {offset_key (y - py) | y. 0 \<le> y - py \<and> JVal y \<in> cby_year ` set items}"
proof (induction items arbitrary: d)
  case Nil
  then show ?case by simp
next
  case (Cons item items)
  let ?S = "\<lambda>items. {offset_key (y - py) | y. 0 \<le> y - py \<and> JVal y \<in> cby_year ` set items}"
  obtain y where y: "cby_year item = JVal y"
    using Cons.prems by (cases "cby_year item") auto
  show ?case
  proof (cases "0 \<le> y - py")
    case True
    then obtain v where v: "offset_citations py items (dict_set (offset_key (y - py)) v d) = Inr d'"
      using Cons.prems y by (auto split: jval.splits)
    have "set (map fst d') \<subseteq> set (map fst (dict_set (offset_key (y - py)) v d)) \<union> ?S items"
      by (rule Cons.IH [OF v])
    also have "\<dots> \<subseteq> set (map fst d) \<union> ?S (item # items)"
      using y True by (auto simp: keys_dict_set)
    finally show ?thesis .
  next
    case False
    then have "offset_citations py items d = Inr d'" using Cons.prems y by simp
    then have "set (map fst d') \<subseteq> set (map fst d) \<union> ?S items" by (rule Cons.IH)
    moreover have "?S items \<subseteq> ?S (item # items)" by fastforce
    ultimately show ?thesis by blast
  qed
qed

text \<open>
  C23. \<open>process_work\<close> of \<open>test.py\<close> is the collector's \<open>process_work\<close> plus two
  fields: when the collector's function succeeds on a work with a publication
  year and a list of well-formed \<open>counts_by_year\<close> entries, the script's function
  succeeds with the same row, \<open>cited_by_count\<close> kept, and a dictionary in which
  \<open>"k_year"\<close> holds, for every \<open>k \<ge> 0\<close>, the citation count of the last entry
  for year \<open>publication_year + k\<close>, and nothing when there is none (entries before
  the publication year are dropped).
\<close>

theorem lt_process_work_counts:
  assumes "process_work (work.truncate w) = Inr r" and "w_publication_year w = Some py" and "py \<noteq> 0"
    and "w_counts_by_year w = JVal items" and "list_all (cby_ok py) items"
  shows "\<exists>offsets. lt_process_work w = Inr (pub_row.extend (r\<lparr>row_cited_by_count := w_cited_by_count w\<rparr>)
                                                       (lt_row.fields offsets))
           \<and> (\<forall>k \<ge> 0. map_of offsets (offset_key k)
                 = (case filter (\<lambda>it. cby_year it = JVal (py + k)) items of
                      [] \<Rightarrow> None
                    | its \<Rightarrow> Some (cby_count (last its))))"
proof -
  obtain offsets where c: "counts_by_year (w_publication_year w) (w_counts_by_year w) = Inr offsets"
    and lk: "\<forall>k \<ge> 0. map_of offsets (offset_key k)
                 = (case filter (\<lambda>it. cby_year it = JVal (py + k)) items of
                      [] \<Rightarrow> None
                    | its \<Rightarrow> Some (cby_count (last its)))"
  proof (cases "items = []")
    case True
    then show ?thesis using that [of "[]"] assms(2,4) by (simp add: counts_by_year_def)
  next
    case False
    obtain d' where "offset_citations py items [] = Inr d'"
      and "\<forall>k \<ge> 0. map_of d' (offset_key k)
                 = (case filter (\<lambda>it. cby_year it = JVal (py + k)) items of
                      [] \<Rightarrow> map_of [] (offset_key k)
                    | its \<Rightarrow> Some (cby_count (last its)))"
      using offset_citations_lookup [OF assms(5), of "[]"] by blast
    then show ?thesis using that [of d'] False assms(2-4) by (simp add: counts_by_year_def cong: list.case_cong)
  qed
  then show ?thesis using assms(1) by (simp add: lt_process_work_refines) blast
qed

theorem lt_process_work_counts_witness:
  "process_work (work.truncate (sample_lt_work
      [\<lparr>cby_year = JVal 2019, cby_cited_by_count = JVal 3\<rparr>, \<lparr>cby_year = JVal 2020, cby_cited_by_count = JVal 5\<rparr>,
       \<lparr>cby_year = JVal 2018, cby_cited_by_count = JAbsent\<rparr>, \<lparr>cby_year = JVal 2020, cby_cited_by_count = JVal 7\<rparr>]))
     = Inr (projr (process_work (work.truncate (sample_lt_work
      [\<lparr>cby_year = JVal 2019, cby_cited_by_count = JVal 3\<rparr>, \<lparr>cby_year = JVal 2020, cby_cited_by_count = JVal 5\<rparr>,
       \<lparr>cby_year = JVal 2018, cby_cited_by_count = JAbsent\<rparr>, \<lparr>cby_year = JVal 2020, cby_cited_by_count = JVal 7\<rparr>]))))
   \<and> (\<exists>offsets. lt_process_work (sample_lt_work
      [\<lparr>cby_year = JVal 2019, cby_cited_by_count = JVal 3\<rparr>, \<lparr>cby_year = JVal 2020, cby_cited_by_count = JVal 5\<rparr>,
       \<lparr>cby_year = JVal 2018, cby_cited_by_count = JAbsent\<rparr>, \<lparr>cby_year = JVal 2020, cby_cited_by_count = JVal 7\<rparr>])
        = Inr (pub_row.extend ((projr (process_work (work.truncate (sample_lt_work
      [\<lparr>cby_year = JVal 2019, cby_cited_by_count = JVal 3\<rparr>, \<lparr>cby_year = JVal 2020, cby_cited_by_count = JVal 5\<rparr>,
       \<lparr>cby_year = JVal 2018, cby_cited_by_count = JAbsent\<rparr>, \<lparr>cby_year = JVal 2020, cby_cited_by_count = JVal 7\<rparr>]))))
                 \<lparr>row_cited_by_count := Some 120\<rparr>) (lt_row.fields offsets))
      \<and> map_of offsets (offset_key 0) = Some (Some 3) \<and> map_of offsets (offset_key 1) = Some (Some 7))"
proof -
  let ?I = "[\<lparr>cby_year = JVal 2019, cby_cited_by_count = JVal 3\<rparr>, \<lparr>cby_year = JVal 2020, cby_cited_by_count = JVal 5\<rparr>,
       \<lparr>cby_year = JVal 2018, cby_cited_by_count = JAbsent\<rparr>, \<lparr>cby_year = JVal (2020::int), cby_cited_by_count = JVal 7\<rparr>]"
  let ?w = "sample_lt_work ?I"
  have run: "process_work (work.truncate ?w) = Inr (projr (process_work (work.truncate ?w)))"
    by (simp add: process_work_def sample_lt_work_def process_authorship_def work.defs)
  have "w_publication_year ?w = Some 2019" "w_counts_by_year ?w = JVal ?I" "w_cited_by_count ?w = Some 120"
    by (simp_all add: sample_lt_work_def)
  moreover have "list_all (cby_ok 2019) ?I" by (simp add: cby_ok_def)
  ultimately show ?thesis
    using lt_process_work_counts [OF run, of 2019 ?I] run
    by (fastforce simp: cby_count_def)
qed

end
