(* ===== verification/Spec2Isabelle.thy ===== *)
theory Spec2Isabelle
  imports FullNet CollabNet SubfieldNet CsIndex Collector Stats Researchers JsonText ResearcherTable LocalTest
begin

text \<open>
  A verification library for the collaboration-network scripts of
  \<open>br_collaboration_network\<close> (Python, \<open>src/src/\<close>).

  \<^bold>\<open>The program.\<close>  \<open>collect_publications_open_alex.py\<close> pages through the
  OpenAlex API (\<open>fetch_all_works\<close>) and flattens each work into a CSV row
  (\<open>process_work\<close>, with \<open>process_doi\<close>/\<open>process_openalex_id\<close> stripping URL
  prefixes).  Three scripts read those rows back and build weighted co-authorship
  graphs with networkx: the full network with a dominant subfield per author
  (\<open>construct_full_net_open_alex.py\<close>, \<open>build_full_network\<close>), a network per
  subfield (\<open>construct_networks_open_alex.py\<close>), and a citation- or
  subfield-filtered network with country and subfield labels
  (\<open>construct_network.py\<close>).  \<open>construct_networks_csindex.py\<close> builds
  per-sub-area networks from DBLP publication lists of a researcher table.

  \<^bold>\<open>Theories.\<close>
  \<^item> \<open>Prelude\<close>: the Python builtins the scripts rely on: insertion-ordered
    dictionaries as association lists (\<open>dict_set\<close>, \<open>dict_incr\<close>),
    \<open>itertools.combinations(xs, 2)\<close> (\<open>combinations2\<close>, \<open>pair_count\<close>),
    first-seen order (\<open>first_seen\<close>), \<open>str.startswith\<close>/\<open>str.replace\<close>, JSON
    object fields (\<open>jfield\<close>) and the exceptions raised (\<open>py_exception\<close>).
  \<^item> \<open>Records\<close>: the flattened row (\<open>pub_row\<close>); JSON text columns are modelled
    by their parse result, \<open>None\<close> where \<open>json.loads\<close> rejects the cell.
  \<^item> \<open>JsonText\<close>: the text of those columns: \<open>json.dumps\<close> (\<open>json_dumps\<close>, with
    \<open>ensure_ascii\<close> escapes) and \<open>json.loads\<close> (\<open>json_loads\<close>, recursive descent
    with fuel), the encoding \<open>process_work\<close> dumps and the \<open>.get\<close> reading of the
    builders; it justifies the parse-result view of \<open>Records\<close>.
  \<^item> \<open>Graph\<close>: the networkx calls, on a graph with insertion-ordered nodes and
    weighted undirected edges; \<open>bump_edge\<close> is \<open>if G.has_edge ... += 1 else
    add_edge(weight=1)\<close>, \<open>bump_pairs\<close> the loop over \<open>combinations\<close>;
    \<open>graph_wf\<close> is the simple-graph invariant.
  \<^item> \<open>Resolver\<close>: \<open>determine_primary_subfield\<close> (Python's first-maximum \<open>max\<close>),
    shown equal to the reference \<open>first_max\<close>.
  \<^item> \<open>FullNet\<close>: \<open>build_full_network\<close> as a state record (graph and count
    dictionary), row step, row loop and final attribute pass; reachable states
    (\<open>fn_reach\<close>) and the invariant \<open>fn_inv\<close>; \<open>main\<close> (\<open>full_net_main\<close>).
  \<^item> \<open>CollabNet\<close>: \<open>build_collaboration_network\<close> with its three dictionaries
    and final graph construction, both filters, and \<open>main\<close> (threshold 100).
  \<^item> \<open>SubfieldNet\<close>: \<open>build_network_for_subfield\<close> (with its two-author guard),
    \<open>main\<close>'s grouping by subfield id, the output file names and the export loop.
  \<^item> \<open>CsIndex\<close>: \<open>parse_dblp_xml\<close> on the parsed XML elements,
    \<open>fetch_dblp_data\<close> with the request as a parameter, \<open>determine_sub_area\<close>,
    \<open>process_publication\<close> with its processed-key set, \<open>build_subarea_network\<close>
    and \<open>main\<close>; reachable states \<open>cs_reach\<close> and the invariant \<open>cs_inv\<close>.
  \<^item> \<open>Normalizer\<close>: the prefix strippers and \<open>process_work\<close> on the API's JSON
    object, where nested fields may be absent or \<open>null\<close>.
  \<^item> \<open>Collector\<close>: \<open>read_email_from_json\<close>; \<open>fetch_all_works\<close> with the
    errors of its first answer, the page count and the page loop, the latter as
    the \<open>while\<close> loop it is (\<open>page_loop\<close> on \<open>while_option\<close>), proved to
    compute its list form; \<open>main\<close>'s year loop
    (\<open>collect_years\<close>) writing to a store of files.  The HTTP answers are
    parameters.
  \<^item> \<open>Stats\<close>: \<open>get_big_numbers.py\<close> (the country loop with its running rank,
    its errors and the stable descending sort) and
    \<open>get_publication_subfield_counts.py\<close> (year and subfield loops that skip a
    failed request, the \<open>country_code\<close> column and the script's own copy of
    \<open>read_email_from_json\<close>), with the API answers as parameters and both CSV
    outputs written to a store of files (\<open>big_numbers_run\<close>,
    \<open>publication_counts_main\<close>).
  \<^item> \<open>Researchers\<close>: \<open>collect_researchers.py\<close>, which builds the researcher
    table that \<open>CsIndex\<close> reads, with the CSV downloads as parameters.
  \<^item> \<open>PyLiteral\<close>: Python's \<open>str\<close> of a list of strings (\<open>py_repr_list\<close>,
    CPython's quote choice and escapes) and \<open>eval\<close> on list displays of string
    literals (\<open>py_eval_list\<close>, a parser whose element loop terminates by the
    length of the text); \<open>py_eval_repr_list\<close> proves that \<open>eval\<close> reads back
    every list \<open>str\<close> writes.
  \<^item> \<open>ResearcherTable\<close>: the file \<open>br_cs_researchers.csv\<close> between the two
    scripts: the rows \<open>to_csv\<close> writes (\<open>researcher_csv_row\<close>,
    \<open>collect_researchers_run\<close>) and the table \<open>construct_networks_csindex.py\<close>
    loads from \<open>INPUT_CSV\<close> (\<open>read_researcher_table\<close>, \<open>csindex_load\<close>), with
    its \<open>FileNotFoundError\<close>, \<open>KeyError\<close> and empty-file errors.
  \<^item> \<open>LocalTest\<close>: \<open>test.py\<close>, the collector run on \<open>data.json\<close>
    (\<open>load_local_data\<close>, \<open>local_test_main\<close>) whose \<open>process_work\<close>
    (\<open>lt_process_work\<close>) also keeps \<open>cited_by_count\<close> and the citation counts by
    offset from the publication year (\<open>offset_citations\<close>); the work and row
    records extend the collector's, and \<open>lt_process_work_refines\<close> shows the
    script's function is the collector's followed by the two new fields.

  \<^bold>\<open>What is proved.\<close>  Every property is a statement over all inputs.
  Edge weights of every builder as counts of co-listings (the full and the
  collaboration network agree on every pair; the per-subfield networks add up to
  the network of all grouped rows; the DBLP networks count each publication key
  once); which authors are nodes; node labels (first-seen name or country, the
  full network's \<open>sub_field\<close> computed from the input rows as the first subfield
  of maximum count, sub-area fixed at creation); the invariants of the reachable
  states; the resolver's contract; the error behaviour of \<open>process_work\<close>, the
  subfield filter, the per-subfield and CSIndex \<open>main\<close>s and
  \<open>get_big_numbers.py\<close>; the prefix stripper; the page-count bounds and the
  agreement of the page loop with its list form (which also shows that it
  returns); the builders reading back exactly the JSON columns the collector
  wrote; the researcher table and its round trip through
  \<open>br_cs_researchers.csv\<close> (\<open>str\<close> then \<open>eval\<close> of the sub-area lists) into the
  target researchers of each DBLP network; the refinement of the collector's
  \<open>process_work\<close> by the one of \<open>test.py\<close> and the meaning of its \<open>k_year\<close>
  keys.  Properties of the \<open>json\<close> module alone (\<open>loads_dumps\<close>) and of \<open>str\<close>
  and \<open>eval\<close> alone (\<open>py_eval_repr_list\<close>) are library lemmas used by these
  theorems, not claims about the program.

  Divergences from the specification are stated as theorems: self-loops and
  double counting for a repeated author (the pair count of \<open>combinations\<close>
  keeps repeats), single-author publications without nodes in the per-subfield
  networks, raising instead of skipping a malformed record, the dead upgrade
  branch of \<open>process_publication\<close> (part of the reachable-state invariant), the
  unpacking error and ranks assigned before sorting in \<open>get_big_numbers.py\<close>,
  and the collector overwriting one output file with every year.  The path
  mismatch between the researcher table written and the one read is the lemma
  \<open>csindex_load_not_moved\<close>.

  \<^bold>\<open>Not modelled.\<close>  HTTP requests (parameters of the model instead),
  sleeps, CSV quoting and the dtype inference of \<open>read_csv\<close> (files are their
  rows of cells), \<open>setup_logging\<close>, GEXF export (a library call), the inside
  of \<open>ET.fromstring\<close>, \<open>eval\<close> beyond list displays of string literals (octal
  and \<open>\N\<close>/\<open>\u\<close> escapes, implicit concatenation, prefixes), JSON floats, \<open>NaN\<close> and
  \<open>\uXXXX\<close> escapes above 255 (characters are bytes here), the float \<open>round\<close>
  of \<open>get_big_numbers.py\<close> (kept as its two operands), a table without the
  \<open>cited_by_count\<close> column in \<open>construct_network.py\<close> (\<open>KeyError\<close>; rows are
  modelled, not column sets), and the logging of every script.  Loops over lists
  are structural recursion;
  the page loop is \<open>while_option\<close>, proved to return the list form; the JSON parser runs on
  fuel, and the length of the text plus one is proved enough for every text
  \<open>json.dumps\<close> writes; the element loop of \<open>py_eval_list\<close> is a \<open>function\<close>
  whose termination is proved (each element consumes text).
\<close>

section \<open>Properties across the builders\<close>

text \<open>
  C3. The two whole-table builders agree on the weights: the sorted-pair
  dictionary of \<open>build_collaboration_network\<close> and the incremental
  \<open>has_edge\<close>/\<open>+= 1\<close> update of \<open>build_full_network\<close> give every pair the
  same weight, and they have the same nodes.
\<close>

theorem collaboration_full_agree:
  "weight (build_collaboration_network rows) u v = weight (build_full_network rows) u v
   \<and> has_node (build_collaboration_network rows) x = has_node (build_full_network rows) x"
proof
  show "weight (build_collaboration_network rows) u v = weight (build_full_network rows) u v"
    by (simp add: build_collaboration_network_def cn_graph_weight [OF cn_build_inv] cn_rows_edges
                  build_full_network_def fn_rows_weight)
  have "has_node (build_collaboration_network rows) x \<longleftrightarrow> x \<in> set (concat (map row_ids rows))"
    using cn_rows_key_order [OF cn_inv_init, of rows]
    by (simp add: has_node_def build_collaboration_network_def cn_graph_nodes [OF cn_build_inv])
  then show "has_node (build_collaboration_network rows) x = has_node (build_full_network rows) x"
    by (simp add: build_full_network_def fn_rows_has_node)
qed

text \<open>
  C17. A work without a subfield (no primary topic, or a topic without a
  subfield): \<open>process_work\<close> writes the subfield \<open>{"id": null, "display_name":
  null}\<close>, not the sentinel the specification asks for, and the per-subfield
  \<open>main\<close> then stops with \<open>AttributeError\<close> on any table holding that row.
\<close>

theorem no_topic_pipeline:
  assumes "process_work w = Inr r" and "r \<in> set rows"
    and "w_primary_topic w = JAbsent \<or> (\<exists>t. w_primary_topic w = JVal t \<and> rt_subfield t = JAbsent)"
  shows "row_subfield r = Some \<lparr>sf_id = Null, sf_display_name = Null\<rparr>
         \<and> snd (subfield_networks_main rows) = Some AttributeError"
proof -
  have sub: "row_subfield r = Some \<lparr>sf_id = Null, sf_display_name = Null\<rparr>"
    using assms(1,3) by (rule process_work_no_subfield)
  then have "group_of r = Some None" by (simp add: subfield_group_key_def)
  with assms(2) have "list_ex (\<lambda>r. group_of r = Some None) rows" by (auto simp: list_ex_iff)
  with sub show ?thesis by (simp add: subfield_networks_main_error)
qed

theorem no_topic_pipeline_witness:
  "process_work (sample_work [(''https://openalex.org/A1'', ''Ann''), (''https://openalex.org/A2'', ''Bob'')] JAbsent)
     = Inr (projr (process_work (sample_work [(''https://openalex.org/A1'', ''Ann''), (''https://openalex.org/A2'', ''Bob'')] JAbsent)))
   \<and> row_subfield (projr (process_work (sample_work [(''https://openalex.org/A1'', ''Ann''), (''https://openalex.org/A2'', ''Bob'')] JAbsent)))
     = Some \<lparr>sf_id = Null, sf_display_name = Null\<rparr>
   \<and> snd (subfield_networks_main
       [sample_row ''W0'' [''C'', ''D''] ''AI'',
        projr (process_work (sample_work [(''https://openalex.org/A1'', ''Ann''), (''https://openalex.org/A2'', ''Bob'')] JAbsent))])
     = Some AttributeError"
proof -
  let ?w = "sample_work [(''https://openalex.org/A1'', ''Ann''), (''https://openalex.org/A2'', ''Bob'')] JAbsent"
  have run: "process_work ?w = Inr (projr (process_work ?w))"
    by (simp add: process_work_def sample_work_def process_authorship_def)
  have mem: "projr (process_work ?w) \<in> set [sample_row ''W0'' [''C'', ''D''] ''AI'', projr (process_work ?w)]"
    by simp
  have "w_primary_topic ?w = JAbsent" by (simp add: sample_work_def)
  with no_topic_pipeline [OF run mem] run show ?thesis by simp
qed

section \<open>The researcher table feeds the sub-area networks\<close>

lemma sub_areas_collected: "set SUB_AREAS \<subseteq> set CR_SUB_AREAS"
  by (simp add: SUB_AREAS_def CR_SUB_AREAS_def)

text \<open>
  C22. \<open>construct_networks_csindex.py\<close> on the file \<open>collect_researchers.py\<close>
  writes, once moved to \<open>INPUT_CSV\<close>: the table loads, and for each sub-area it
  processes the target researchers are, in the order of the CSIndex list,
  exactly those whose (name, institution) pair the sub-area's downloaded list
  contains.
\<close>

theorem researchers_csindex_targets:
  assumes "collect_researchers_main (Inr rows) sub_csv = Some table" and "sa \<in> set SUB_AREAS"
  shows "\<exists>df. csindex_load (fs(CS_INPUT_CSV := collect_researchers_run (Inr rows) sub_csv True fs CR_OUTPUT_FILE))
                = Some (Inr df)
            \<and> map rr_pid (cs_targets sa df)
                = map (\<lambda>(name, inst, pid). pid) (filter (\<lambda>(name, inst, pid). listed_in sub_csv (name, inst) sa) rows)"
proof -
  have sa: "sa \<in> set CR_SUB_AREAS" using assms(2) sub_areas_collected by blast
  have table: "table = filter (\<lambda>row. rr_sub_areas row \<noteq> [])
               (map (\<lambda>(researcher, institution, pid).
                       \<lparr>rr_pid = pid, rr_researcher = researcher, rr_institution = institution,
                        rr_sub_areas = filter (listed_in sub_csv (researcher, institution)) CR_SUB_AREAS\<rparr>) rows)"
    using assms(1) collect_researchers_main_def [of "Inr rows" sub_csv] cr_steps [of sub_csv]
    by (simp add: o_def split_def Let_def)
  have "map rr_pid (cs_targets sa table)
          = map (\<lambda>(name, inst, pid). pid) (filter (\<lambda>(name, inst, pid). listed_in sub_csv (name, inst) sa) rows)"
    using sa unfolding table cs_targets_def
    by (induction rows) (auto simp: filter_empty_conv)
  with csindex_load_moved [OF assms(1)] show ?thesis by blast
qed

theorem researchers_csindex_targets_witness:
  "collect_researchers_main (Inr [(''R'', ''U'', ''p1''), (''S'', ''V'', ''p2'')]) (\<lambda>sa. Inr [(''R'', ''U'')])
     = Some [\<lparr>rr_pid = ''p1'', rr_researcher = ''R'', rr_institution = ''U'', rr_sub_areas = CR_SUB_AREAS\<rparr>]
   \<and> ''bio'' \<in> set SUB_AREAS
   \<and> (\<exists>df. csindex_load (Map.empty(CS_INPUT_CSV := collect_researchers_run
               (Inr [(''R'', ''U'', ''p1''), (''S'', ''V'', ''p2'')]) (\<lambda>sa. Inr [(''R'', ''U'')]) True Map.empty
               CR_OUTPUT_FILE)) = Some (Inr df)
        \<and> map rr_pid (cs_targets ''bio'' df) = [''p1''])"
proof -
  have bio: "''bio'' \<in> set SUB_AREAS" by (simp add: SUB_AREAS_def)
  from researchers_csindex_targets [OF cr_sample_run bio, of Map.empty] show ?thesis
    using cr_sample_run bio by (simp add: listed_in_def)
qed

end
